(* ===== verification/Prelude.thy ===== *)
theory Prelude
  imports Main "HOL-Library.Word" "HOL-Library.AList" "HOL-Library.List_Lexorder"
begin

text \<open>
  Shared vocabulary of the development: Rust's fixed-width integers and their saturating and
  checked operations, big- and little-endian byte strings, hash maps as association lists with
  distinct keys, and the result of a computation that may return an error, unwind with a panic,
  or run out of the fuel that bounds the model's call nesting.
\<close>

unbundle bit_operations_syntax

section \<open>Collections of facts\<close>

named_theorems rust_int \<open>unsigned readings of Rust's integer operations\<close>
named_theorems hm_simps \<open>lookups and sizes of hash maps\<close>

section \<open>Integers\<close>

type_synonym u8 = "8 word"
type_synonym u16 = "16 word"
type_synonym u32 = "32 word"
type_synonym u64 = "64 word"
type_synonym u128 = "128 word"
type_synonym bytes = "u8 list"

definition saturating_add :: "'a::len word \<Rightarrow> 'a word \<Rightarrow> 'a word" where
  "saturating_add a b = (if unat a + unat b < 2 ^ LENGTH('a) then a + b else - 1)"

definition saturating_sub :: "'a::len word \<Rightarrow> 'a word \<Rightarrow> 'a word" where
  "saturating_sub a b = (if b \<le> a then a - b else 0)"

definition saturating_mul :: "'a::len word \<Rightarrow> 'a word \<Rightarrow> 'a word" where
  "saturating_mul a b = (if unat a * unat b < 2 ^ LENGTH('a) then a * b else - 1)"

definition checked_add :: "'a::len word \<Rightarrow> 'a word \<Rightarrow> 'a word option" where
  "checked_add a b = (if unat a + unat b < 2 ^ LENGTH('a) then Some (a + b) else None)"

definition checked_sub :: "'a::len word \<Rightarrow> 'a word \<Rightarrow> 'a word option" where
  "checked_sub a b = (if b \<le> a then Some (a - b) else None)"

text \<open>The length of a slice as a \<open>u64\<close>; \<open>usize\<close> is 64 bits wide.\<close>

definition len_u64 :: "'b list \<Rightarrow> u64" where
  "len_u64 xs = of_nat (length xs)"

lemma unat_lt_exp: "unat (w :: 'a::len word) < 2 ^ LENGTH('a)"
  by (rule unsigned_less)

lemma unat_minus_one_word: "unat (- 1 :: 'a::len word) = 2 ^ LENGTH('a) - 1"
  by (simp add: unsigned_minus_1_eq_mask mask_eq_exp_minus_1)

lemma unat_saturating_add [rust_int]:
  "unat (saturating_add a (b :: 'a::len word)) = min (unat a + unat b) (2 ^ LENGTH('a) - 1)"
  by (auto simp: saturating_add_def unat_word_ariths unat_minus_one_word)

lemma saturating_add_ge: "a \<le> saturating_add a (b :: 'a::len word)"
  using unat_lt_exp [of a] by (simp only: word_le_nat_alt unat_saturating_add)

lemma saturating_add_mono:
  "a \<le> c \<Longrightarrow> b \<le> d \<Longrightarrow> saturating_add a b \<le> saturating_add c (d :: 'a::len word)"
  by (simp add: word_le_nat_alt unat_saturating_add min_def)

lemma unat_saturating_mul [rust_int]:
  "unat (saturating_mul a (b :: 'a::len word)) = min (unat a * unat b) (2 ^ LENGTH('a) - 1)"
  by (auto simp: saturating_mul_def unat_word_ariths unat_minus_one_word)

lemma unat_saturating_sub [rust_int]:
  "unat (saturating_sub a (b :: 'a::len word)) = unat a - unat b"
  by (auto simp: saturating_sub_def unat_sub word_le_nat_alt)

lemma checked_add_Some [rust_int]:
  "checked_add a (b :: 'a::len word) = Some c \<Longrightarrow> unat c = unat a + unat b"
  by (auto simp: checked_add_def unat_word_ariths split: if_splits)

lemma checked_sub_Some [rust_int]:
  "checked_sub a (b :: 'a::len word) = Some c \<Longrightarrow> unat b \<le> unat a \<and> unat c = unat a - unat b"
  by (auto simp: checked_sub_def unat_sub word_le_nat_alt split: if_splits)

lemma checked_sub_None [rust_int]:
  "checked_sub a (b :: 'a::len word) = None \<longleftrightarrow> unat a < unat b"
  by (auto simp: checked_sub_def word_le_nat_alt)

lemma checked_add_None [rust_int]:
  "checked_add a (b :: 'a::len word) = None \<longleftrightarrow> 2 ^ LENGTH('a) \<le> unat a + unat b"
  by (auto simp: checked_add_def)

lemma saturating_add_0 [simp]: "saturating_add 0 a = a" "saturating_add a 0 = a"
  by (simp_all add: saturating_add_def)

section \<open>Byte strings\<close>

text \<open>\<open>be_bytes n w\<close> is \<open>w.to_be_bytes()\<close> for an \<open>n\<close>-byte integer, \<open>le_bytes\<close> its
  little-endian sibling, \<open>be_val\<close> and \<open>le_val\<close> read byte strings back as numbers.\<close>

definition le_bytes :: "nat \<Rightarrow> 'a::len word \<Rightarrow> bytes" where
  "le_bytes n w = map (\<lambda>i. ucast (drop_bit (8 * i) w)) [0..<n]"

definition be_bytes :: "nat \<Rightarrow> 'a::len word \<Rightarrow> bytes" where
  "be_bytes n w = rev (le_bytes n w)"

fun le_val :: "bytes \<Rightarrow> nat" where
  "le_val [] = 0"
| "le_val (b # bs) = unat b + 256 * le_val bs"

definition be_val :: "bytes \<Rightarrow> nat" where
  "be_val bs = le_val (rev bs)"

lemma length_le_bytes [simp]: "length (le_bytes n w) = n"
  by (simp add: le_bytes_def)

lemma length_be_bytes [simp]: "length (be_bytes n w) = n"
  by (simp add: be_bytes_def)

lemma le_val_append: "le_val (xs @ ys) = le_val xs + 256 ^ length xs * le_val ys"
  by (induction xs) (simp_all add: algebra_simps)

lemma le_val_zeros [simp]: "le_val (replicate n 0) = 0"
  by (induction n) simp_all

lemma le_val_bound: "le_val bs < 256 ^ length bs"
proof (induction bs)
  case (Cons b bs)
  have "unat b < 256" using unat_lt_exp [of b] by simp
  with Cons show ?case by simp
qed simp

lemma be_val_bound: "be_val bs < 256 ^ length bs"
  using le_val_bound [of "rev bs"] by (simp add: be_val_def)

lemma be_val_append: "be_val (xs @ ys) = be_val xs * 256 ^ length ys + be_val ys"
  by (simp add: be_val_def le_val_append)

lemma be_val_Nil [simp]: "be_val [] = 0"
  by (simp add: be_val_def)

lemma be_val_zeros [simp]: "be_val (replicate n 0) = 0"
  by (simp add: be_val_def)

lemma le_bytes_Suc: "le_bytes (Suc n) w = le_bytes n w @ [ucast (drop_bit (8 * n) w)]"
  by (simp add: le_bytes_def)

lemma le_val_le_bytes: "le_val (le_bytes n (w :: 'a::len word)) = unat w mod 256 ^ n"
proof (induction n)
  case 0
  then show ?case by (simp add: le_bytes_def)
next
  case (Suc n)
  have "(256 :: nat) ^ n = 2 ^ (8 * n)" by (simp add: power_mult)
  then have "unat (drop_bit (8 * n) w) = unat w div 256 ^ n"
    by (simp only: unat_drop_bit_eq) (simp add: drop_bit_eq_div)
  then have digit: "unat (ucast (drop_bit (8 * n) w) :: u8) = unat w div 256 ^ n mod 256"
    by (simp only: unsigned_ucast_eq take_bit_eq_mod) simp
  have "unat w mod 256 ^ Suc n = unat w mod 256 ^ n + 256 ^ n * (unat w div 256 ^ n mod 256)"
    by (simp add: mod_mult2_eq mult.commute [of 256])
  with Suc digit show ?case by (simp add: le_bytes_Suc le_val_append)
qed

lemma be_val_be_bytes: "be_val (be_bytes n (w :: 'a::len word)) = unat w mod 256 ^ n"
  by (simp add: be_val_def be_bytes_def le_val_le_bytes)

lemma be_val_be_bytes_u64 [simp]: "be_val (be_bytes 8 (w :: u64)) = unat w"
  using unat_lt_exp [of w] by (simp add: be_val_be_bytes)

lemma be_val_be_bytes_u16 [simp]: "be_val (be_bytes 2 (w :: u16)) = unat w"
  using unat_lt_exp [of w] by (simp add: be_val_be_bytes)

lemma le_val_inject: "length xs = length ys \<Longrightarrow> le_val xs = le_val ys \<Longrightarrow> xs = ys"
proof (induction xs ys rule: list_induct2)
  case (Cons x xs y ys)
  have lt: "unat x < 256" "unat y < 256"
    using unat_lt_exp [of x] unat_lt_exp [of y] by simp_all
  from Cons.prems have sum: "unat x + 256 * le_val xs = unat y + 256 * le_val ys" by simp
  then have "unat x mod 256 = unat y mod 256" by (metis mod_mult_self2)
  with lt have "unat x = unat y" by simp
  with sum Cons.IH show ?case by (simp add: word_unat_eq_iff)
qed simp

lemma be_val_inject: "length xs = length ys \<Longrightarrow> be_val xs = be_val ys \<Longrightarrow> xs = ys"
  using le_val_inject [of "rev xs" "rev ys"] by (simp add: be_val_def)

section \<open>Hash maps\<close>

text \<open>
  A Rust \<open>HashMap\<close> is an association list with distinct keys. Its order stands for the map's
  unspecified iteration order: results that may not depend on it are proved independent of it.
\<close>

type_synonym ('k, 'v) hashmap = "('k \<times> 'v) list"

abbreviation hm_wf :: "('k, 'v) hashmap \<Rightarrow> bool" where
  "hm_wf m \<equiv> distinct (map fst m)"

abbreviation hm_get :: "('k, 'v) hashmap \<Rightarrow> 'k \<Rightarrow> 'v option" where
  "hm_get m k \<equiv> map_of m k"

abbreviation hm_insert :: "'k \<Rightarrow> 'v \<Rightarrow> ('k, 'v) hashmap \<Rightarrow> ('k, 'v) hashmap" where
  "hm_insert k v m \<equiv> AList.update k v m"

abbreviation hm_remove :: "'k \<Rightarrow> ('k, 'v) hashmap \<Rightarrow> ('k, 'v) hashmap" where
  "hm_remove k m \<equiv> AList.delete k m"

lemma hm_get_insert [hm_simps, simp]: "hm_get (hm_insert k v m) k' = (if k' = k then Some v else hm_get m k')"
  by (simp add: update_conv')

lemma hm_get_remove [hm_simps, simp]: "hm_get (hm_remove k m) k' = (if k' = k then None else hm_get m k')"
  by (simp add: delete_conv')

lemma hm_wf_insert [hm_simps, simp]: "hm_wf m \<Longrightarrow> hm_wf (hm_insert k v m)"
  by (rule distinct_update)

lemma hm_wf_remove [hm_simps, simp]: "hm_wf m \<Longrightarrow> hm_wf (hm_remove k m)"
  by (rule distinct_delete)

lemma hm_get_None_iff: "hm_get m k = None \<longleftrightarrow> k \<notin> fst ` set m"
  by (rule map_of_eq_None_iff)

lemma hm_insert_fresh: "hm_get m k = None \<Longrightarrow> hm_insert k v m = m @ [(k, v)]"
  by (induction m) (auto split: if_splits)

lemma hm_insert_same: "hm_get m k = Some v \<Longrightarrow> hm_insert k v m = m"
  by (induction m) (auto split: if_splits)

lemma hm_insert_twice [simp]: "hm_insert k v (hm_insert k w m) = hm_insert k v m"
  by (induction m) auto

lemma hm_remove_fresh: "hm_get m k = None \<Longrightarrow> hm_remove k m = m"
  by (induction m) (auto split: if_splits)

lemma hm_remove_insert_fresh: "hm_get m k = None \<Longrightarrow> hm_remove k (hm_insert k v m) = m"
  by (induction m) (auto split: if_splits)

lemma hm_insert_restore: "hm_get m k = Some v \<Longrightarrow> hm_insert k v (hm_insert k w m) = m"
  by (simp add: hm_insert_same)

lemma length_hm_insert [hm_simps]:
  "length (hm_insert k v m) = (if hm_get m k = None then Suc (length m) else length m)"
  by (induction m) auto

lemma length_hm_remove: "length (hm_remove k m) \<le> length m"
  by (rule length_delete_le)

lemma hm_get_filter_key: "hm_get (filter (P \<circ> fst) m) k = (if P k then hm_get m k else None)"
  by (induction m) auto

section \<open>Computations with errors and panics\<close>

text \<open>
  \<open>Ok\<close> and \<open>Err\<close> are the two sides of a Rust \<open>Result\<close>; \<open>Panic\<close> unwinds through every
  caller; \<open>OutOfFuel\<close> says that the bound on nested calls chosen for a run was too small, and is
  never a behaviour of the code. A computation also returns the state it leaves, on every outcome.
\<close>

datatype ('e, 'a) outcome = Ok 'a | Err 'e | Panic | OutOfFuel

type_synonym ('s, 'e, 'a) comp = "'s \<Rightarrow> ('e, 'a) outcome \<times> 's"

definition of_result :: "'e + 'a \<Rightarrow> ('e, 'a) outcome" where
  "of_result r = (case r of Inl e \<Rightarrow> Err e | Inr a \<Rightarrow> Ok a)"

text \<open>Sequencing with the \<open>?\<close> operator: everything but \<open>Ok\<close> returns at once.\<close>

definition andThen :: "('s, 'e, 'a) comp \<Rightarrow> ('a \<Rightarrow> ('s, 'e, 'b) comp) \<Rightarrow> ('s, 'e, 'b) comp" where
  "andThen m f s =
     (case m s of
        (Ok a, s') \<Rightarrow> f a s'
      | (Err e, s') \<Rightarrow> (Err e, s')
      | (Panic, s') \<Rightarrow> (Panic, s')
      | (OutOfFuel, s') \<Rightarrow> (OutOfFuel, s'))"

definition ret :: "'a \<Rightarrow> ('s, 'e, 'a) comp" where
  "ret a s = (Ok a, s)"

definition fail :: "'e \<Rightarrow> ('s, 'e, 'a) comp" where
  "fail e s = (Err e, s)"

definition lift_result :: "'e + 'a \<Rightarrow> ('s, 'e, 'a) comp" where
  "lift_result r s = (of_result r, s)"

definition bind_result :: "'e + 'a \<Rightarrow> ('a \<Rightarrow> 'e + 'b) \<Rightarrow> 'e + 'b" where
  "bind_result r f = (case r of Inl e \<Rightarrow> Inl e | Inr a \<Rightarrow> f a)"

definition ok_or :: "'e \<Rightarrow> 'a option \<Rightarrow> 'e + 'a" where
  "ok_or e v = (case v of None \<Rightarrow> Inl e | Some a \<Rightarrow> Inr a)"

lemma of_result_simps [simp]:
  "of_result (Inl e) = Err e" "of_result (Inr a) = Ok a"
  by (simp_all add: of_result_def)

lemma bind_result_simps [simp]:
  "bind_result (Inl e) f = Inl e" "bind_result (Inr a) f = f a"
  by (simp_all add: bind_result_def)

lemma ok_or_simps [simp]: "ok_or e None = Inl e" "ok_or e (Some a) = Inr a"
  by (simp_all add: ok_or_def)

lemma bind_result_Inr: "bind_result r f = Inr b \<longleftrightarrow> (\<exists>a. r = Inr a \<and> f a = Inr b)"
  by (cases r) simp_all

lemma ok_or_Inr: "ok_or e v = Inr a \<longleftrightarrow> v = Some a"
  by (cases v) simp_all

lemma andThen_Ok: "m s = (Ok a, s') \<Longrightarrow> andThen m f s = f a s'"
  by (simp add: andThen_def)

lemma andThen_Err: "m s = (Err e, s') \<Longrightarrow> andThen m f s = (Err e, s')"
  by (simp add: andThen_def)

text \<open>
  A relation between the state before and the state after, reflexive and transitive, is kept by a
  sequence when each part keeps it.
\<close>

definition keeps :: "('s \<Rightarrow> 's \<Rightarrow> bool) \<Rightarrow> ('s, 'e, 'a) comp \<Rightarrow> bool" where
  "keeps R m \<longleftrightarrow> (\<forall>s. R s (snd (m s)))"

lemma keepsI: "(\<And>s. R s (snd (m s))) \<Longrightarrow> keeps R m"
  by (simp add: keeps_def)

lemma keepsD: "keeps R m \<Longrightarrow> R s (snd (m s))"
  by (simp add: keeps_def)

lemma keeps_andThen:
  assumes trans: "\<And>a b c. R a b \<Longrightarrow> R b c \<Longrightarrow> R a c"
    and m: "keeps R m" and f: "\<And>a. keeps R (f a)"
  shows "keeps R (andThen m f)"
proof (rule keepsI)
  fix s
  obtain r s' where ms: "m s = (r, s')" by (cases "m s")
  from keepsD [OF m, of s] ms have Rs: "R s s'" by simp
  show "R s (snd (andThen m f s))"
    using trans [OF Rs keepsD [OF f]] Rs by (cases r) (simp_all add: andThen_def ms)
qed

lemma keeps_ret: "(\<And>s. R s s) \<Longrightarrow> keeps R (ret a)"
  by (simp add: keeps_def ret_def)

lemma keeps_fail: "(\<And>s. R s s) \<Longrightarrow> keeps R (fail e)"
  by (simp add: keeps_def fail_def)

lemma keeps_lift_result: "(\<And>s. R s s) \<Longrightarrow> keeps R (lift_result r)"
  by (simp add: keeps_def lift_result_def)

end
