(* ===== verification/Error_Codes.thy ===== *)
theory Error_Codes
  imports Prelude
begin

text \<open>
  Error codes (\<open>crates/app/sdk/core/src/error.rs\<close>): the 16-bit identifier with its
  namespace byte, the FNV-1a hash that computes the namespace at compile time, the
  \<open>define_error!\<close> macro, and the error constants the modelled crates declare with it.
\<close>

record error_code =
  err_id :: u16
  err_arg :: u16

definition error_new :: "u16 \<Rightarrow> error_code" where
  "error_new i = \<lparr>err_id = i, err_arg = 0\<rparr>"

definition error_new_with_arg :: "u16 \<Rightarrow> u16 \<Rightarrow> error_code" where
  "error_new_with_arg i a = \<lparr>err_id = i, err_arg = a\<rparr>"

definition error_code_value :: "error_code \<Rightarrow> u64" where
  "error_code_value e = ucast (err_id e)"

definition str_bytes :: "string \<Rightarrow> bytes" where
  "str_bytes s = map of_char s"

definition fnv1a_hash :: "bytes \<Rightarrow> u8" where
  "fnv1a_hash bs =
     ucast (foldl (\<lambda>h b. (h XOR ucast b) * 0x100000001b3) (0xcbf29ce484222325 :: u64) bs AND 0xFF)"

text \<open>
  \<open>crate_namespace\<close> is a function of the crate \<open>evolve_core\<close>, so \<open>env!("CARGO_PKG_NAME")\<close> is
  expanded when that crate is compiled: whichever crate calls \<open>define_error!\<close>, the name hashed is
  \<open>evolve_core\<close>.
\<close>

definition crate_namespace :: u8 where
  "crate_namespace = fnv1a_hash (str_bytes ''evolve_core'')"

definition define_error :: "u16 \<Rightarrow> error_code" where
  "define_error local_id = error_new (push_bit 8 (ucast crate_namespace) OR (local_id AND 0xFF))"

section \<open>The constants\<close>

text \<open>\<open>evolve_core\<close> (\<open>crates/app/sdk/core/src/lib.rs\<close>).\<close>

definition ERR_ENCODING :: error_code where "ERR_ENCODING = define_error 0x01"
definition ERR_UNKNOWN_FUNCTION :: error_code where "ERR_UNKNOWN_FUNCTION = define_error 0x02"
definition ERR_ACCOUNT_NOT_INIT :: error_code where "ERR_ACCOUNT_NOT_INIT = define_error 0x03"
definition ERR_UNAUTHORIZED :: error_code where "ERR_UNAUTHORIZED = define_error 0x04"
definition ERR_NOT_PAYABLE :: error_code where "ERR_NOT_PAYABLE = define_error 0x05"
definition ERR_ONE_COIN :: error_code where "ERR_ONE_COIN = define_error 0x06"
definition ERR_INCOMPATIBLE_FA :: error_code where "ERR_INCOMPATIBLE_FA = define_error 0x07"
definition ERR_INSUFFICIENT_BALANCE :: error_code where "ERR_INSUFFICIENT_BALANCE = define_error 0x08"
definition ERR_OVERFLOW :: error_code where "ERR_OVERFLOW = define_error 0x09"

text \<open>\<open>evolve_stf\<close> (\<open>crates/app/stf/src/errors.rs\<close> and \<open>gas.rs\<close>).\<close>

definition ERR_OUT_OF_GAS :: error_code where "ERR_OUT_OF_GAS = define_error 0x1"
definition ERR_ACCOUNT_DOES_NOT_EXIST :: error_code where "ERR_ACCOUNT_DOES_NOT_EXIST = define_error 0x1"
definition ERR_CODE_NOT_FOUND :: error_code where "ERR_CODE_NOT_FOUND = define_error 0x2"
definition ERR_EXEC_IN_QUERY :: error_code where "ERR_EXEC_IN_QUERY = define_error 0x3"
definition ERR_TOO_MANY_OBJECTS :: error_code where "ERR_TOO_MANY_OBJECTS = define_error 0x4"
definition ERR_INVALID_CODE_ID :: error_code where "ERR_INVALID_CODE_ID = define_error 0x5"
definition ERR_EVENT_NAME_TOO_LONG :: error_code where "ERR_EVENT_NAME_TOO_LONG = define_error 0x6"
definition ERR_EVENT_CONTENT_TOO_LARGE :: error_code where "ERR_EVENT_CONTENT_TOO_LARGE = define_error 0x7"
definition ERR_SAME_CODE_MIGRATION :: error_code where "ERR_SAME_CODE_MIGRATION = define_error 0x8"
definition ERR_FUNDS_TO_SYSTEM_ACCOUNT :: error_code where "ERR_FUNDS_TO_SYSTEM_ACCOUNT = define_error 0x9"
definition ERR_OVERLAY_SIZE_EXCEEDED :: error_code where "ERR_OVERLAY_SIZE_EXCEEDED = define_error 0x0A"
definition ERR_TOO_MANY_EVENTS :: error_code where "ERR_TOO_MANY_EVENTS = define_error 0x10"
definition ERR_KEY_TOO_LARGE :: error_code where "ERR_KEY_TOO_LARGE = define_error 0x11"
definition ERR_VALUE_TOO_LARGE :: error_code where "ERR_VALUE_TOO_LARGE = define_error 0x12"
definition ERR_INVALID_CHECKPOINT :: error_code where "ERR_INVALID_CHECKPOINT = define_error 0x13"
definition ERR_CALL_DEPTH_EXCEEDED :: error_code where "ERR_CALL_DEPTH_EXCEEDED = define_error 0x14"

text \<open>\<open>evolve_collections\<close> (\<open>crates/app/sdk/collections/src/lib.rs\<close>).\<close>

definition ERR_NOT_FOUND :: error_code where "ERR_NOT_FOUND = define_error 0x01"
definition ERR_EMPTY :: error_code where "ERR_EMPTY = define_error 0x02"
definition ERR_DATA_CORRUPTION :: error_code where "ERR_DATA_CORRUPTION = define_error 0x03"
definition ERR_VALUE_MISSING :: error_code where "ERR_VALUE_MISSING = define_error 0x04"
definition ERR_KEY_MISSING :: error_code where "ERR_KEY_MISSING = define_error 0x05"

section \<open>When two constants are the same code\<close>

lemma define_error_eq_iff: "define_error a = define_error b \<longleftrightarrow> a AND 0xFF = b AND 0xFF"
proof
  assume "define_error a = define_error b"
  then have eq: "push_bit 8 (ucast crate_namespace) OR (a AND 0xFF)
      = push_bit 8 (ucast crate_namespace) OR (b AND 0xFF)"
    by (simp add: define_error_def error_new_def)
  have low: "(push_bit 8 (ucast crate_namespace) OR (x AND 0xFF)) AND 0xFF = x AND 0xFF" for x :: u16
  proof -
    have m: "(0xFF :: u16) = mask 8" by (simp add: mask_eq_exp_minus_1)
    show ?thesis unfolding m by (rule bit_eqI) (auto simp: bit_simps)
  qed
  from eq low [of a] low [of b] show "a AND 0xFF = b AND 0xFF" by metis
qed (simp add: define_error_def)

lemmas stf_error_defs =
  ERR_OUT_OF_GAS_def ERR_ACCOUNT_DOES_NOT_EXIST_def ERR_CODE_NOT_FOUND_def ERR_EXEC_IN_QUERY_def
  ERR_TOO_MANY_OBJECTS_def ERR_INVALID_CODE_ID_def ERR_EVENT_NAME_TOO_LONG_def
  ERR_EVENT_CONTENT_TOO_LARGE_def ERR_SAME_CODE_MIGRATION_def ERR_FUNDS_TO_SYSTEM_ACCOUNT_def
  ERR_OVERLAY_SIZE_EXCEEDED_def ERR_TOO_MANY_EVENTS_def ERR_KEY_TOO_LARGE_def
  ERR_VALUE_TOO_LARGE_def ERR_INVALID_CHECKPOINT_def ERR_CALL_DEPTH_EXCEEDED_def

text \<open>
  The codes of one crate that carry different local identifiers stay apart, while the namespace
  byte does not separate crates: codes with the same local identifier coincide.
\<close>

lemma crate_namespace_value: "crate_namespace = 0x06"
  by (simp add: crate_namespace_def fnv1a_hash_def str_bytes_def)

end
