(* ===== verification/Sdk_Core.thy ===== *)
theory Sdk_Core
  imports Error_Codes
begin

text \<open>
  The SDK core (\<open>crates/app/sdk/core/src\<close>): account identifiers, block context, fungible assets,
  messages and invocation requests, the requests of the runtime and storage system accounts, and
  the \<open>Environment\<close> traits. Account code runs against \<open>dyn Environment\<close>; here it is a tree of the
  calls it makes, each with a continuation on the call's result, so that any account code is a
  value of the model and the executor of the state-transition function gives the tree its meaning.

  Borsh serialisation, Unicode tables and Keccak are outside the repository: they are the fields
  of the parameter \<open>host\<close>, and \<open>borsh_ok\<close> is the round-trip law the code relies on.
\<close>

section \<open>Account identifiers\<close>

type_synonym account_id = bytes

abbreviation account_wf :: "account_id \<Rightarrow> bool" where
  "account_wf a \<equiv> length a = 32"

definition account_invalid :: account_id where
  "account_invalid = replicate 32 0xFF"

definition account_from_u64 :: "u64 \<Rightarrow> account_id" where
  "account_from_u64 n = replicate 24 0 @ be_bytes 8 n"

text \<open>The loop of \<open>AccountId::increase\<close>: \<open>i\<close> runs over 31 down to 0 and stops at the first
  byte whose increment does not carry.\<close>

fun account_increase_loop :: "nat \<Rightarrow> account_id \<Rightarrow> account_id" where
  "account_increase_loop 0 out = out"
| "account_increase_loop (Suc i) out =
     (let next = out ! i + 1; carry = (out ! i = 0xFF); out' = out[i := next]
      in if \<not> carry then out' else account_increase_loop i out')"

definition account_increase :: "account_id \<Rightarrow> account_id" where
  "account_increase a = account_increase_loop 32 a"

definition RUNTIME_ACCOUNT_ID :: account_id where
  "RUNTIME_ACCOUNT_ID = account_from_u64 0"

definition STORAGE_ACCOUNT_ID :: account_id where
  "STORAGE_ACCOUNT_ID = account_from_u64 1"

lemma length_account_from_u64 [simp]: "length (account_from_u64 n) = 32"
  by (simp add: account_from_u64_def)

lemma be_val_account_from_u64 [simp]: "be_val (account_from_u64 n) = unat n"
  by (simp add: account_from_u64_def be_val_append)

lemma account_from_u64_inject [simp]: "account_from_u64 m = account_from_u64 n \<longleftrightarrow> m = n"
  by (metis be_val_account_from_u64 word_unat_eq_iff)

lemma system_accounts_differ [simp]:
  "RUNTIME_ACCOUNT_ID \<noteq> STORAGE_ACCOUNT_ID" "STORAGE_ACCOUNT_ID \<noteq> RUNTIME_ACCOUNT_ID"
  by (simp_all add: RUNTIME_ACCOUNT_ID_def STORAGE_ACCOUNT_ID_def)

lemma length_account_increase_loop [simp]: "length (account_increase_loop i out) = length out"
  by (induction i out rule: account_increase_loop.induct) (simp_all add: Let_def)

text \<open>Incrementing the first \<open>i\<close> bytes adds one to their value modulo \<open>256 ^ i\<close> and leaves
  the rest alone.\<close>

lemma be_val_snoc: "be_val (us @ [b]) = be_val us * 256 + unat b"
  by (simp add: be_val_append) (simp add: be_val_def)

lemma account_increase_loop_prefix:
  "length xs = i \<Longrightarrow>
     \<exists>zs. length zs = i \<and> account_increase_loop i (xs @ ys) = zs @ ys \<and>
          be_val zs = (be_val xs + 1) mod 256 ^ i"
proof (induction i arbitrary: xs ys)
  case 0
  then show ?case by simp
next
  case (Suc i)
  then obtain us b where xs: "xs = us @ [b]" and us: "length us = i"
    by (metis append_butlast_last_id length_0_conv length_butlast nat.discI diff_Suc_1)
  have lt: "be_val us < 256 ^ i" using be_val_bound [of us] us by simp
  have b: "unat b < 256" using unat_lt_exp [of b] by simp
  have upd: "(xs @ ys)[i := b + 1] = us @ (b + 1) # ys" and nth: "(xs @ ys) ! i = b"
    using us by (simp_all add: xs list_update_append nth_append)
  show ?case
  proof (cases "b = 0xFF")
    case False
    then have "unat b \<noteq> unat (0xFF :: u8)" using word_unat_eq_iff by blast
    with b have inc: "unat (b + 1) = unat b + 1" "unat b + 1 < 256"
      by (simp_all add: unat_word_ariths)
    have "be_val us * 256 + unat b + 1 < 256 ^ Suc i" using lt inc(2) by simp
    then have "be_val (us @ [b + 1]) = (be_val xs + 1) mod 256 ^ Suc i"
      using inc by (simp add: xs be_val_snoc)
    moreover have "account_increase_loop (Suc i) (xs @ ys) = (us @ [b + 1]) @ ys"
      using False by (simp add: Let_def nth upd)
    ultimately show ?thesis using us by (intro exI [of _ "us @ [b + 1]"]) simp
  next
    case True
    have "b + 1 = 0" using True by simp
    then have step: "account_increase_loop (Suc i) (xs @ ys) = account_increase_loop i (us @ 0 # ys)"
      using True upd by (simp only: account_increase_loop.simps Let_def nth) simp
    from Suc.IH [OF us, of "0 # ys"] obtain zs where zs: "length zs = i"
      "account_increase_loop i (us @ 0 # ys) = zs @ 0 # ys"
      "be_val zs = (be_val us + 1) mod 256 ^ i" by blast
    have "unat b = 255" by (simp add: True)
    then have "be_val xs + 1 = (be_val us + 1) * 256"
      by (simp only: xs be_val_snoc) simp
    then have "(be_val xs + 1) mod 256 ^ Suc i = (be_val us + 1) * 256 mod (256 ^ i * 256)"
      by (simp only: power_Suc mult.commute [of 256])
    also have "\<dots> = be_val (zs @ [0])"
      by (simp only: mult_mod_right [symmetric] be_val_snoc zs(3) mult.commute [of _ 256]) simp
    finally show ?thesis using zs step by (intro exI [of _ "zs @ [0]"]) simp
  qed
qed

lemma be_val_account_increase:
  "account_wf a \<Longrightarrow> be_val (account_increase a) = (be_val a + 1) mod 2 ^ 256"
  using account_increase_loop_prefix [of a 32 "[]"] by (auto simp: account_increase_def)

lemma account_wf_increase [simp]: "account_wf a \<Longrightarrow> account_wf (account_increase a)"
  by (simp add: account_increase_def)

section \<open>Block context and fungible assets\<close>

record block_context =
  bc_height :: u64
  bc_time :: u64

definition block_context_default :: block_context where
  "block_context_default = \<lparr>bc_height = 0, bc_time = 0\<rparr>"

record fungible_asset =
  asset_id :: account_id
  amount :: u128

definition fungible_increase :: "fungible_asset \<Rightarrow> fungible_asset \<Rightarrow> error_code + fungible_asset" where
  "fungible_increase self other =
     (if asset_id self \<noteq> asset_id other then Inl ERR_INCOMPATIBLE_FA
      else bind_result (ok_or ERR_OVERFLOW (checked_add (amount self) (amount other)))
             (\<lambda>new_amount. Inr (self\<lparr>amount := new_amount\<rparr>)))"

definition fungible_decrease :: "fungible_asset \<Rightarrow> fungible_asset \<Rightarrow> error_code + fungible_asset" where
  "fungible_decrease self other =
     (if asset_id self \<noteq> asset_id other then Inl ERR_INCOMPATIBLE_FA
      else if amount self < amount other then Inl ERR_INSUFFICIENT_BALANCE
      else Inr (self\<lparr>amount := amount self - amount other\<rparr>))"

lemma fungible_increase_decrease:
  "fungible_increase a b = Inr c \<Longrightarrow> fungible_decrease c b = Inr a"
  by (auto simp: fungible_increase_def fungible_decrease_def ok_or_def bind_result_def
      checked_add_def word_less_nat_alt unat_word_ariths split: if_splits)

lemma fungible_decrease_increase:
  "fungible_decrease a b = Inr c \<Longrightarrow> fungible_increase c b = Inr a"
  using unat_lt_exp [of "amount a"]
  by (auto simp: fungible_increase_def fungible_decrease_def ok_or_def bind_result_def
      checked_add_def word_less_nat_alt unat_sub word_le_nat_alt not_less split: if_splits)

section \<open>Encoding\<close>

text \<open>
  The Borsh implementation of one type: \<open>serialize\<close> into a byte vector and \<open>deserialize_reader\<close>
  from a byte stream, returning the value and what is left of the stream; \<open>None\<close> where Borsh
  returns an I/O error. \<open>borsh::to_vec\<close> and \<open>borsh::from_slice\<close> follow, the latter refusing
  trailing bytes.
\<close>

record 'a borsh =
  serialize :: "'a \<Rightarrow> bytes option"
  deserialize_reader :: "bytes \<Rightarrow> ('a \<times> bytes) option"

definition to_vec :: "'a borsh \<Rightarrow> 'a \<Rightarrow> bytes option" where
  "to_vec B x = serialize B x"

definition from_slice :: "'a borsh \<Rightarrow> bytes \<Rightarrow> 'a option" where
  "from_slice B b = (case deserialize_reader B b of Some (x, []) \<Rightarrow> Some x | _ \<Rightarrow> None)"

text \<open>What the code relies on: on the values of \<open>D\<close>, serialization succeeds and reading returns the
  value and the rest of the stream.\<close>

definition borsh_ok :: "('a \<Rightarrow> bool) \<Rightarrow> 'a borsh \<Rightarrow> bool" where
  "borsh_ok D B \<longleftrightarrow>
     (\<forall>x. D x \<longrightarrow> (\<exists>b. serialize B x = Some b \<and>
                          (\<forall>rest. deserialize_reader B (b @ rest) = Some (x, rest))))"

definition encode :: "'a borsh \<Rightarrow> 'a \<Rightarrow> error_code + bytes" where
  "encode B x = (case to_vec B x of None \<Rightarrow> Inl ERR_ENCODING | Some b \<Rightarrow> Inr b)"

definition decode :: "'a borsh \<Rightarrow> bytes \<Rightarrow> error_code + 'a" where
  "decode B b = (case from_slice B b of None \<Rightarrow> Inl ERR_ENCODING | Some x \<Rightarrow> Inr x)"

lemma borsh_okD:
  assumes "borsh_ok D B" and "D x"
  obtains b where "serialize B x = Some b" "\<And>rest. deserialize_reader B (b @ rest) = Some (x, rest)"
  using assms unfolding borsh_ok_def by blast

lemma borsh_ok_from_slice:
  assumes "borsh_ok D B" "D x" "to_vec B x = Some bs"
  shows "from_slice B bs = Some x"
proof -
  from borsh_okD [OF assms(1,2)] obtain b where b: "serialize B x = Some b"
    "\<And>rest. deserialize_reader B (b @ rest) = Some (x, rest)" by blast
  from b(2) [of "[]"] b(1) assms(3) show ?thesis by (simp add: from_slice_def to_vec_def)
qed

lemma borsh_ok_encode:
  assumes "borsh_ok D B" and "D x"
  obtains b where "encode B x = Inr b" "decode B b = Inr x"
proof -
  from borsh_okD [OF assms] obtain b where b: "serialize B x = Some b"
    "\<And>rest. deserialize_reader B (b @ rest) = Some (x, rest)" by blast
  from b(2) [of "[]"] have "from_slice B b = Some x" by (simp add: from_slice_def)
  with b(1) show ?thesis by (intro that [of b]) (simp_all add: encode_def decode_def to_vec_def)
qed

lemma decode_encode: "borsh_ok D B \<Longrightarrow> D x \<Longrightarrow> encode B x = Inr b \<Longrightarrow> decode B b = Inr x"
  by (metis borsh_ok_encode sum.inject(2))

lemma encode_inject:
  "borsh_ok D B \<Longrightarrow> D x \<Longrightarrow> D y \<Longrightarrow> encode B x = Inr b \<Longrightarrow> encode B y = Inr b \<Longrightarrow> x = y"
  by (metis decode_encode sum.inject(2))

section \<open>UTF-8\<close>

text \<open>The code points of a byte string (\<open>str::from_utf8\<close> and \<open>str::chars\<close>), \<open>None\<close> where it is not
  valid UTF-8: overlong forms, surrogates and values above 0x10FFFF are refused.\<close>

definition utf8_cont :: "nat \<Rightarrow> bool" where
  "utf8_cont b \<longleftrightarrow> 0x80 \<le> b \<and> b \<le> 0xBF"

fun utf8_decode :: "nat list \<Rightarrow> nat list option" where
  "utf8_decode [] = Some []"
| "utf8_decode (b # bs) =
     (if b < 0x80 then map_option (Cons b) (utf8_decode bs)
      else case bs of
        [] \<Rightarrow> None
      | c1 # bs1 \<Rightarrow>
          (if 0xC2 \<le> b \<and> b \<le> 0xDF \<and> utf8_cont c1
           then map_option (Cons ((b - 0xC0) * 0x40 + (c1 - 0x80))) (utf8_decode bs1)
           else case bs1 of
             [] \<Rightarrow> None
           | c2 # bs2 \<Rightarrow>
               (if 0xE0 \<le> b \<and> b \<le> 0xEF \<and> utf8_cont c1 \<and> utf8_cont c2 \<and>
                   (b = 0xE0 \<longrightarrow> 0xA0 \<le> c1) \<and> (b = 0xED \<longrightarrow> c1 \<le> 0x9F)
                then map_option (Cons ((b - 0xE0) * 0x1000 + (c1 - 0x80) * 0x40 + (c2 - 0x80)))
                       (utf8_decode bs2)
                else case bs2 of
                  [] \<Rightarrow> None
                | c3 # bs3 \<Rightarrow>
                    (if 0xF0 \<le> b \<and> b \<le> 0xF4 \<and> utf8_cont c1 \<and> utf8_cont c2 \<and> utf8_cont c3 \<and>
                        (b = 0xF0 \<longrightarrow> 0x90 \<le> c1) \<and> (b = 0xF4 \<longrightarrow> c1 \<le> 0x8F)
                     then map_option (Cons ((b - 0xF0) * 0x40000 + (c1 - 0x80) * 0x1000
                                            + (c2 - 0x80) * 0x40 + (c3 - 0x80)))
                            (utf8_decode bs3)
                     else None))))"

definition utf8_chars :: "string \<Rightarrow> nat list option" where
  "utf8_chars s = utf8_decode (map of_char s)"

definition from_utf8 :: "bytes \<Rightarrow> string option" where
  "from_utf8 b = (case utf8_decode (map unat b) of None \<Rightarrow> None | Some _ \<Rightarrow> Some (map (\<lambda>w. char_of (unat w)) b))"

text \<open>The strings and byte vectors that Borsh can write: a 32-bit length, and UTF-8 for strings.\<close>

definition str_ok :: "string \<Rightarrow> bool" where
  "str_ok s \<longleftrightarrow> utf8_chars s \<noteq> None \<and> length s < 2 ^ 32"

definition vec_ok :: "bytes \<Rightarrow> bool" where
  "vec_ok b \<longleftrightarrow> length b < 2 ^ 32"

lemma unat_of_char [simp]: "unat (of_char c :: u8) = of_char c"
proof -
  have "(of_char c :: nat) < 256" using nat_of_char_less_256 .
  moreover have "(of_char c :: u8) = of_nat (of_char c)" by (simp add: of_nat_of_char)
  ultimately show ?thesis by (simp add: unat_of_nat)
qed

lemma from_utf8_str_bytes: "utf8_chars s \<noteq> None \<Longrightarrow> from_utf8 (str_bytes s) = Some s"
  by (auto simp: utf8_chars_def from_utf8_def str_bytes_def comp_def)

section \<open>Messages, requests and responses\<close>

datatype message = OwnedBytes bytes

definition message_from_bytes :: "bytes \<Rightarrow> message" where
  "message_from_bytes b = OwnedBytes b"

fun message_into_bytes :: "message \<Rightarrow> error_code + bytes" where
  "message_into_bytes (OwnedBytes b) = Inr b"

fun message_as_vec :: "message \<Rightarrow> error_code + bytes" where
  "message_as_vec (OwnedBytes b) = Inr b"

fun message_len :: "message \<Rightarrow> nat" where
  "message_len (OwnedBytes b) = length b"

fun message_is_empty :: "message \<Rightarrow> bool" where
  "message_is_empty (OwnedBytes b) = (b = [])"

definition message_new :: "'a borsh \<Rightarrow> 'a \<Rightarrow> error_code + message" where
  "message_new B x = bind_result (encode B x) (\<lambda>b. Inr (OwnedBytes b))"

fun message_get :: "'a borsh \<Rightarrow> message \<Rightarrow> error_code + 'a" where
  "message_get B (OwnedBytes b) = decode B b"

text \<open>\<open>Message\<close> is written and read as the byte vector it holds.\<close>

definition message_borsh :: "bytes borsh \<Rightarrow> message borsh" where
  "message_borsh V =
     \<lparr>serialize = (\<lambda>m. case m of OwnedBytes b \<Rightarrow> serialize V b),
      deserialize_reader = (\<lambda>r. map_option (\<lambda>(b, rest). (OwnedBytes b, rest)) (deserialize_reader V r))\<rparr>"

fun message_ok :: "message \<Rightarrow> bool" where
  "message_ok (OwnedBytes b) = vec_ok b"

lemma message_ok_len: "message_ok m \<longleftrightarrow> message_len m < 2 ^ 32"
  by (cases m) (simp add: vec_ok_def)

lemma message_borsh_ok: "borsh_ok vec_ok V \<Longrightarrow> borsh_ok message_ok (message_borsh V)"
  unfolding borsh_ok_def message_borsh_def
  by (auto split: message.splits)

lemma borsh_ok_message:
  assumes "borsh_ok D B" and "D x"
  obtains m where "message_new B x = Inr m" "message_get B m = Inr x"
proof -
  from borsh_ok_encode [OF assms] obtain b where "encode B x = Inr b" "decode B b = Inr x" by blast
  then show ?thesis by (intro that [of "OwnedBytes b"]) (simp_all add: message_new_def)
qed

lemma message_get_new:
  "borsh_ok D B \<Longrightarrow> D x \<Longrightarrow> message_new B x = Inr m \<Longrightarrow> message_get B m = Inr x"
  by (metis borsh_ok_message sum.inject(2))

record invoke_request =
  human_name :: string
  req_function :: u64
  req_message :: message

datatype invoke_response = InvokeResponse message

text \<open>A type implementing \<open>InvokableMessage\<close>: its function identifier, its name and its codec.\<close>

record 'm invokable =
  FUNCTION_IDENTIFIER :: u64
  FUNCTION_IDENTIFIER_NAME :: string
  msg_codec :: "'m borsh"

definition invoke_request_new :: "'m invokable \<Rightarrow> 'm \<Rightarrow> error_code + invoke_request" where
  "invoke_request_new I m =
     bind_result (message_new (msg_codec I) m)
       (\<lambda>b. Inr \<lparr>human_name = FUNCTION_IDENTIFIER_NAME I, req_function = FUNCTION_IDENTIFIER I,
                 req_message = b\<rparr>)"

definition invoke_request_new_from_message :: "string \<Rightarrow> u64 \<Rightarrow> message \<Rightarrow> invoke_request" where
  "invoke_request_new_from_message name f m = \<lparr>human_name = name, req_function = f, req_message = m\<rparr>"

definition invoke_request_get :: "'m borsh \<Rightarrow> invoke_request \<Rightarrow> error_code + 'm" where
  "invoke_request_get B r = message_get B (req_message r)"

definition response_new_from_message :: "message \<Rightarrow> invoke_response" where
  "response_new_from_message m = InvokeResponse m"

fun response_into_inner :: "invoke_response \<Rightarrow> message" where
  "response_into_inner (InvokeResponse m) = m"

definition response_new :: "'a borsh \<Rightarrow> 'a \<Rightarrow> error_code + invoke_response" where
  "response_new B x = bind_result (message_new B x) (\<lambda>m. Inr (InvokeResponse m))"

fun response_get :: "'a borsh \<Rightarrow> invoke_response \<Rightarrow> error_code + 'a" where
  "response_get B (InvokeResponse m) = message_get B m"

lemma borsh_ok_response:
  assumes "borsh_ok D B" and "D x"
  obtains r where "response_new B x = Inr r" "response_get B r = Inr x"
proof -
  from borsh_ok_message [OF assms] obtain m where "message_new B x = Inr m" "message_get B m = Inr x"
    by blast
  then show ?thesis by (intro that [of "InvokeResponse m"]) (simp_all add: response_new_def)
qed

lemma borsh_ok_request:
  assumes "borsh_ok D (msg_codec I)" and "D x"
  obtains r where "invoke_request_new I x = Inr r" "invoke_request_get (msg_codec I) r = Inr x"
    "req_function r = FUNCTION_IDENTIFIER I"
proof -
  from borsh_ok_message [OF assms] obtain m where
    "message_new (msg_codec I) x = Inr m" "message_get (msg_codec I) m = Inr x" by blast
  then show ?thesis
    by (intro that [of "\<lparr>human_name = FUNCTION_IDENTIFIER_NAME I,
          req_function = FUNCTION_IDENTIFIER I, req_message = m\<rparr>"])
      (simp_all add: invoke_request_new_def invoke_request_get_def)
qed

text \<open>
  \<open>InvokeRequest\<close> has a hand-written codec: the name's length as four little-endian bytes, the
  name, the function identifier and the message.
\<close>

definition invoke_request_serialize ::
    "u64 borsh \<Rightarrow> bytes borsh \<Rightarrow> invoke_request \<Rightarrow> bytes option" where
  "invoke_request_serialize U V r =
     (let name_bytes = str_bytes (human_name r) in
      if length name_bytes \<ge> 2 ^ 32 then None
      else case serialize U (req_function r) of
        None \<Rightarrow> None
      | Some fb \<Rightarrow>
          (case serialize (message_borsh V) (req_message r) of
             None \<Rightarrow> None
           | Some mb \<Rightarrow> Some (le_bytes 4 (of_nat (length name_bytes) :: u32) @ name_bytes @ fb @ mb)))"

definition invoke_request_deserialize ::
    "u32 borsh \<Rightarrow> u64 borsh \<Rightarrow> bytes borsh \<Rightarrow> bytes \<Rightarrow> (invoke_request \<times> bytes) option" where
  "invoke_request_deserialize U32 U V reader =
     (case deserialize_reader U32 reader of
        None \<Rightarrow> None
      | Some (len, r1) \<Rightarrow>
          if length r1 < unat len then None
          else case from_utf8 (take (unat len) r1) of
            None \<Rightarrow> None
          | Some name \<Rightarrow>
              (case deserialize_reader U (drop (unat len) r1) of
                 None \<Rightarrow> None
               | Some (f, r2) \<Rightarrow>
                   (case deserialize_reader (message_borsh V) r2 of
                      None \<Rightarrow> None
                    | Some (m, r3) \<Rightarrow>
                        Some (\<lparr>human_name = name, req_function = f, req_message = m\<rparr>, r3))))"

definition invoke_request_borsh :: "u32 borsh \<Rightarrow> u64 borsh \<Rightarrow> bytes borsh \<Rightarrow> invoke_request borsh" where
  "invoke_request_borsh U32 U V =
     \<lparr>serialize = invoke_request_serialize U V,
      deserialize_reader = invoke_request_deserialize U32 U V\<rparr>"

definition request_ok :: "invoke_request \<Rightarrow> bool" where
  "request_ok r \<longleftrightarrow> str_ok (human_name r) \<and> message_ok (req_message r)"

lemma invoke_request_borsh_ok:
  assumes u32: "\<And>w rest. deserialize_reader U32 (le_bytes 4 w @ rest) = Some (w, rest)"
    and u64: "borsh_ok (\<lambda>_. True) U" and vec: "borsh_ok vec_ok V"
  shows "borsh_ok request_ok (invoke_request_borsh U32 U V)"
  unfolding borsh_ok_def
proof (intro allI impI)
  fix r :: invoke_request
  assume "request_ok r"
  then have utf8: "utf8_chars (human_name r) \<noteq> None" and len: "length (human_name r) < 2 ^ 32"
    and msg: "message_ok (req_message r)" by (simp_all add: request_ok_def str_ok_def)
  obtain fb where fb: "serialize U (req_function r) = Some fb"
    "\<And>rest. deserialize_reader U (fb @ rest) = Some (req_function r, rest)"
    using borsh_okD [OF u64] by blast
  obtain mb where mb: "serialize (message_borsh V) (req_message r) = Some mb"
    "\<And>rest. deserialize_reader (message_borsh V) (mb @ rest) = Some (req_message r, rest)"
    using borsh_okD [OF message_borsh_ok [OF vec] msg] by blast
  let ?name = "str_bytes (human_name r)"
  let ?b = "le_bytes 4 (of_nat (length ?name) :: u32) @ ?name @ fb @ mb"
  have len': "length ?name < 2 ^ 32" using len by (simp add: str_bytes_def)
  then have n: "unat (of_nat (length ?name) :: u32) = length ?name" by (simp add: unat_of_nat)
  have "deserialize_reader (invoke_request_borsh U32 U V) (?b @ rest) = Some (r, rest)" for rest
    by (simp add: invoke_request_borsh_def invoke_request_deserialize_def u32 n fb mb
        from_utf8_str_bytes [OF utf8] del: unat_of_nat)
  moreover have "serialize (invoke_request_borsh U32 U V) r = Some ?b"
    using len' by (simp add: invoke_request_borsh_def invoke_request_serialize_def Let_def fb mb)
  ultimately show "\<exists>b. serialize (invoke_request_borsh U32 U V) r = Some b \<and>
      (\<forall>rest. deserialize_reader (invoke_request_borsh U32 U V) (b @ rest) = Some (r, rest))"
    by blast
qed

record event =
  ev_source :: account_id
  ev_name :: string
  ev_contents :: message

end
