(* ===== verification/Gas.thy ===== *)
theory Gas
  imports Sdk_Core
begin

text \<open>
  Gas metering of the state transition function (\<open>crates/app/stf/src/gas.rs\<close>): the counter, the
  charges of the three storage operations, and the facts the rest of the development uses: a counter
  never passes its limit, never goes down, and is untouched by a refused charge.
\<close>

record storage_gas_config =
  storage_get_charge :: u64
  storage_set_charge :: u64
  storage_remove_charge :: u64

definition storage_gas_config_default :: storage_gas_config where
  "storage_gas_config_default =
     \<lparr>storage_get_charge = 10, storage_set_charge = 10, storage_remove_charge = 10\<rparr>"

datatype gas_counter =
  Infinite
| Finite (gas_limit: u64) (gc_used: u64) (gas_config: storage_gas_config)

definition gas_infinite :: gas_counter where
  "gas_infinite = Infinite"

definition gas_finite :: "u64 \<Rightarrow> storage_gas_config \<Rightarrow> gas_counter" where
  "gas_finite limit config = Finite limit 0 config"

fun consume_gas :: "u64 \<Rightarrow> (gas_counter, error_code, unit) comp" where
  "consume_gas gas Infinite = (Ok (), Infinite)"
| "consume_gas gas (Finite limit used config) =
     (let new_gas_used = saturating_add used gas in
      if new_gas_used > limit then (Err ERR_OUT_OF_GAS, Finite limit used config)
      else (Ok (), Finite limit new_gas_used config))"

definition get_gas :: "storage_gas_config \<Rightarrow> bytes \<Rightarrow> message option \<Rightarrow> u64" where
  "get_gas config key value =
     (let key_len = len_u64 key;
          value_len = (case value of
                         None \<Rightarrow> 1
                       | Some value \<Rightarrow> saturating_add (of_nat (message_len value)) 1);
          total_size = saturating_add (saturating_add key_len 1) value_len
      in saturating_mul (storage_get_charge config) total_size)"

definition set_gas :: "storage_gas_config \<Rightarrow> bytes \<Rightarrow> message \<Rightarrow> u64" where
  "set_gas config key value =
     (let total_size = saturating_add (saturating_add (saturating_add (len_u64 key) 1)
                         (of_nat (message_len value))) 1
      in saturating_mul (storage_set_charge config) total_size)"

definition remove_gas :: "storage_gas_config \<Rightarrow> bytes \<Rightarrow> u64" where
  "remove_gas config key =
     (let total_size = saturating_add (len_u64 key) 1
      in saturating_mul (storage_remove_charge config) total_size)"

fun consume_get_gas :: "bytes \<Rightarrow> message option \<Rightarrow> (gas_counter, error_code, unit) comp" where
  "consume_get_gas key value Infinite = (Ok (), Infinite)"
| "consume_get_gas key value (Finite limit used config) =
     consume_gas (get_gas config key value) (Finite limit used config)"

fun consume_set_gas :: "bytes \<Rightarrow> message \<Rightarrow> (gas_counter, error_code, unit) comp" where
  "consume_set_gas key value Infinite = (Ok (), Infinite)"
| "consume_set_gas key value (Finite limit used config) =
     consume_gas (set_gas config key value) (Finite limit used config)"

fun consume_remove_gas :: "bytes \<Rightarrow> (gas_counter, error_code, unit) comp" where
  "consume_remove_gas key Infinite = (Ok (), Infinite)"
| "consume_remove_gas key (Finite limit used config) =
     consume_gas (remove_gas config key) (Finite limit used config)"

fun gas_used :: "gas_counter \<Rightarrow> u64" where
  "gas_used Infinite = 0"
| "gas_used (Finite limit used config) = used"

section \<open>The counter's contract\<close>

text \<open>The counter is within its limit; and \<open>gas_le\<close>: the same limit and charges, no less used.\<close>

fun gas_ok :: "gas_counter \<Rightarrow> bool" where
  "gas_ok Infinite \<longleftrightarrow> True"
| "gas_ok (Finite limit used config) \<longleftrightarrow> used \<le> limit"

fun gas_le :: "gas_counter \<Rightarrow> gas_counter \<Rightarrow> bool" where
  "gas_le Infinite Infinite \<longleftrightarrow> True"
| "gas_le (Finite limit used config) (Finite limit' used' config') \<longleftrightarrow>
     limit' = limit \<and> config' = config \<and> used \<le> used'"
| "gas_le _ _ \<longleftrightarrow> False"

lemma gas_le_refl [simp]: "gas_le g g"
  by (cases g) simp_all

lemma gas_le_trans [trans]: "gas_le a b \<Longrightarrow> gas_le b c \<Longrightarrow> gas_le a c"
  by (cases a; cases b; cases c) auto

lemma gas_le_used: "gas_le a b \<Longrightarrow> gas_used a \<le> gas_used b"
  by (cases a; cases b) auto

lemma consume_gas_le [simp]: "gas_le g (snd (consume_gas gas g))"
  by (cases g) (auto simp: Let_def saturating_add_ge)

lemma consume_gas_ok [simp]: "gas_ok g \<Longrightarrow> gas_ok (snd (consume_gas gas g))"
  by (cases g) (auto simp: Let_def)

text \<open>Every outcome of a charge, with the sums taken over the naturals: the saturation of the 64-bit
  sum never lets a charge through.\<close>

lemma consume_gas_Finite:
  "gas_ok (Finite limit used config) \<Longrightarrow>
     consume_gas gas (Finite limit used config) =
       (if unat used + unat gas \<le> unat limit \<or> (limit = - 1)
        then (Ok (), Finite limit (saturating_add used gas) config)
        else (Err ERR_OUT_OF_GAS, Finite limit used config))"
  using unat_lt_exp [of limit]
  by (auto simp: Let_def word_le_nat_alt word_less_nat_alt rust_int unat_minus_one_word
      word_unat_eq_iff [of limit])

lemma consume_gas_Err:
  "consume_gas gas g = (r, g') \<Longrightarrow> r \<noteq> Ok () \<Longrightarrow> r = Err ERR_OUT_OF_GAS \<and> g' = g"
  by (cases g) (auto simp: Let_def split: if_splits)

lemma consume_gas_cases: "fst (consume_gas gas g) = Ok () \<or> fst (consume_gas gas g) = Err ERR_OUT_OF_GAS"
  by (cases g) (auto simp: Let_def)

lemma consume_get_gas_eq: "\<exists>gas. consume_get_gas key value g = consume_gas gas g"
  by (cases g) auto

lemma consume_set_gas_eq: "\<exists>gas. consume_set_gas key value g = consume_gas gas g"
  by (cases g) auto

lemma consume_remove_gas_eq: "\<exists>gas. consume_remove_gas key g = consume_gas gas g"
  by (cases g) auto

text \<open>The charge of a storage operation over the naturals.\<close>

lemma unat_set_gas:
  "length key + message_len value + 2 < 2 ^ 64 \<Longrightarrow>
     unat (set_gas config key value) =
       min (unat (storage_set_charge config) * (length key + message_len value + 2)) (2 ^ 64 - 1)"
  by (simp add: set_gas_def Let_def rust_int len_u64_def unat_of_nat)

lemma unat_remove_gas:
  "length key + 1 < 2 ^ 64 \<Longrightarrow>
     unat (remove_gas config key) =
       min (unat (storage_remove_charge config) * (length key + 1)) (2 ^ 64 - 1)"
  by (simp add: remove_gas_def Let_def rust_int len_u64_def unat_of_nat)

lemma unat_get_gas:
  "length key + (case value of None \<Rightarrow> 0 | Some m \<Rightarrow> message_len m) + 2 < 2 ^ 64 \<Longrightarrow>
     unat (get_gas config key value) =
       min (unat (storage_get_charge config) *
              (length key + (case value of None \<Rightarrow> 0 | Some m \<Rightarrow> message_len m) + 2)) (2 ^ 64 - 1)"
  by (auto simp: get_gas_def Let_def rust_int len_u64_def unat_of_nat split: option.splits)

end
