(* ===== verification/Scope_Validation.thy ===== *)
theory Scope_Validation
  imports Sdk_Core
begin

text \<open>
  Unique identifiers (\<open>crates/app/stf/src/execution_scope.rs\<close>) and the checks of code identifiers
  and events (\<open>crates/app/stf/src/validation.rs\<close>).
\<close>

section \<open>Execution scopes\<close>

definition MAX_OBJECTS_PER_TRANSACTION :: u64 where "MAX_OBJECTS_PER_TRANSACTION = 65535"

datatype execution_scope =
  BeginBlock u64
| EndBlock u64
| TransactionScope bytes
| QueryScope

definition copy_at :: "nat \<Rightarrow> bytes \<Rightarrow> bytes \<Rightarrow> bytes" where
  "copy_at i src dst = take i dst @ src @ drop (i + length src) dst"

fun unique_id :: "execution_scope \<Rightarrow> u64 \<Rightarrow> error_code + bytes" where
  "unique_id (BeginBlock height) object_id =
     Inr (copy_at 8 (be_bytes 8 object_id) (copy_at 0 (be_bytes 8 height) (replicate 32 0)))"
| "unique_id (EndBlock height) object_id =
     Inr (copy_at 8 (be_bytes 8 object_id) (copy_at 0 (be_bytes 8 height) (replicate 32 0)))"
| "unique_id (TransactionScope tx_id) object_id =
     (if object_id > MAX_OBJECTS_PER_TRANSACTION then Inl ERR_TOO_MANY_OBJECTS
      else Inr (copy_at 30 (be_bytes 2 (ucast object_id :: u16)) tx_id))"
| "unique_id QueryScope object_id = Inl ERR_EXEC_IN_QUERY"

fun scope_wf :: "execution_scope \<Rightarrow> bool" where
  "scope_wf (TransactionScope tx_id) \<longleftrightarrow> length tx_id = 32"
| "scope_wf _ \<longleftrightarrow> True"

lemma length_copy_at [simp]: "i + length src \<le> length dst \<Longrightarrow> length (copy_at i src dst) = length dst"
  by (simp add: copy_at_def)

lemma length_unique_id: "scope_wf sc \<Longrightarrow> unique_id sc n = Inr b \<Longrightarrow> length b = 32"
  by (cases sc) (auto split: if_splits)

lemma be_bytes_8_inject: "be_bytes 8 (a :: u64) = be_bytes 8 b \<longleftrightarrow> a = b"
  by (metis be_val_be_bytes_u64 word_unat_eq_iff)

lemma be_bytes_2_inject: "be_bytes 2 (a :: u16) = be_bytes 2 b \<longleftrightarrow> a = b"
  by (metis be_val_be_bytes_u16 word_unat_eq_iff)

lemma unat_ucast_small: "w \<le> 65535 \<Longrightarrow> unat (ucast (w :: u64) :: u16) = unat w"
  by (simp add: unsigned_ucast_eq take_bit_eq_mod word_le_nat_alt)

text \<open>Within one scope, different counters give different identifiers.\<close>

lemma unique_id_inject:
  assumes "scope_wf sc" and a: "unique_id sc n = Inr b" and b: "unique_id sc m = Inr b"
  shows "n = m"
proof (cases sc)
  case (TransactionScope tx_id)
  have le: "n \<le> 65535" "m \<le> 65535"
    using a b TransactionScope by (auto simp: MAX_OBJECTS_PER_TRANSACTION_def not_less split: if_splits)
  from a b TransactionScope have "be_bytes 2 (ucast n :: u16) = be_bytes 2 (ucast m :: u16)"
    using assms(1) by (auto simp: copy_at_def split: if_splits)
  then have "unat (ucast n :: u16) = unat (ucast m :: u16)" by (simp add: be_bytes_2_inject)
  with le show ?thesis by (simp add: unat_ucast_small word_unat_eq_iff)
qed (use a b in \<open>auto simp: copy_at_def be_bytes_8_inject\<close>)

text \<open>Begin-block and end-block identifiers of one height share their format: the scopes are only
  told apart by the counter.\<close>

lemma unique_id_begin_end: "unique_id (BeginBlock h) n = unique_id (EndBlock h) n"
  by simp

section \<open>Validation\<close>

definition MAX_CODE_ID_LENGTH :: nat where "MAX_CODE_ID_LENGTH = 256"
definition MAX_EVENT_NAME_LENGTH :: nat where "MAX_EVENT_NAME_LENGTH = 128"
definition MAX_EVENT_CONTENT_SIZE :: nat where "MAX_EVENT_CONTENT_SIZE = 64 * 1024"

text \<open>\<open>char::is_alphanumeric\<close>: the ASCII letters and digits, and beyond ASCII the Unicode tables, which
  are an argument.\<close>

definition is_alphanumeric :: "(nat \<Rightarrow> bool) \<Rightarrow> nat \<Rightarrow> bool" where
  "is_alphanumeric unicode c \<longleftrightarrow>
     (if c < 0x80 then (0x30 \<le> c \<and> c \<le> 0x39) \<or> (0x41 \<le> c \<and> c \<le> 0x5A) \<or> (0x61 \<le> c \<and> c \<le> 0x7A)
      else unicode c)"

definition validate_code_id :: "(nat \<Rightarrow> bool) \<Rightarrow> string \<Rightarrow> error_code + unit" where
  "validate_code_id unicode code_id =
     (if code_id = [] \<or> length code_id > MAX_CODE_ID_LENGTH then Inl ERR_INVALID_CODE_ID
      else if \<not> (case utf8_chars code_id of
                    None \<Rightarrow> False
                  | Some cs \<Rightarrow> list_all (\<lambda>c. is_alphanumeric unicode c \<or> c = 0x2D \<or> c = 0x5F \<or> c = 0x2F) cs)
      then Inl ERR_INVALID_CODE_ID
      else Inr ())"

definition validate_event :: "string \<Rightarrow> bytes \<Rightarrow> error_code + unit" where
  "validate_event name contents =
     (if length name > MAX_EVENT_NAME_LENGTH then Inl ERR_EVENT_NAME_TOO_LONG
      else if length contents > MAX_EVENT_CONTENT_SIZE then Inl ERR_EVENT_CONTENT_TOO_LARGE
      else Inr ())"

lemma validate_code_id_ok: "validate_code_id u code_id = Inr () \<Longrightarrow> str_ok code_id \<and> length code_id \<le> 256"
  by (auto simp: validate_code_id_def str_ok_def MAX_CODE_ID_LENGTH_def split: if_splits option.splits)

end
