(* ===== verification/Sdk_Env.thy ===== *)
theory Sdk_Env
  imports Sdk_Core
begin

text \<open>
  What account code sees of its environment: the requests of the runtime and storage accounts
  (\<open>runtime_api.rs\<close>, \<open>storage_api.rs\<close>), the transfer message of the fungible asset standard, account
  code as trees of environment calls, and the typed calls of \<open>low_level.rs\<close>. Third-party code is a
  parameter: the record \<open>host\<close> holds the Borsh codecs of the message types, the Unicode tables and
  Keccak-256.
\<close>

section \<open>Requests of the system accounts\<close>

definition ACCOUNT_IDENTIFIER_PREFIX :: u8 where "ACCOUNT_IDENTIFIER_PREFIX = 0"
definition ACCOUNT_IDENTIFIER_SINGLETON_PREFIX :: u8 where "ACCOUNT_IDENTIFIER_SINGLETON_PREFIX = 1"
definition ACCOUNT_STORAGE_PREFIX :: u8 where "ACCOUNT_STORAGE_PREFIX = 2"

record create_account_request =
  ca_code_id :: string
  ca_init_message :: message

record create_account_response =
  ca_new_account_id :: account_id
  ca_init_response :: message

record register_account_at_id_request =
  ra_account_id :: account_id
  ra_code_id :: string
  ra_init_message :: message

record migrate_request =
  mg_account_id :: account_id
  mg_new_code_id :: string
  mg_execute_message :: invoke_request

record storage_get_request =
  sg_account_id :: account_id
  sg_key :: bytes

record storage_get_response =
  sg_value :: "message option"

record storage_set_request =
  ss_key :: bytes
  ss_value :: message

record storage_remove_request =
  sr_key :: bytes

record transfer_msg =
  tm_to :: account_id
  tm_amount :: u128

section \<open>Third-party code\<close>

record host =
  h_u32 :: "u32 borsh"
  h_u64 :: "u64 borsh"
  h_u128 :: "u128 borsh"
  h_bool :: "bool borsh"
  h_vec :: "bytes borsh"
  h_string :: "string borsh"
  h_account_id :: "account_id borsh"
  h_unit :: "unit borsh"
  h_create_account_request :: "create_account_request borsh"
  h_create_account_response :: "create_account_response borsh"
  h_register_account_at_id_request :: "register_account_at_id_request borsh"
  h_migrate_request :: "invoke_request borsh \<Rightarrow> migrate_request borsh"
  h_storage_get_request :: "storage_get_request borsh"
  h_storage_get_response :: "storage_get_response borsh"
  h_storage_set_request :: "storage_set_request borsh"
  h_storage_remove_request :: "storage_remove_request borsh"
  h_transfer_msg :: "transfer_msg borsh"
  h_unicode_alphanumeric :: "nat \<Rightarrow> bool"
  h_keccak256 :: "bytes \<Rightarrow> bytes"

text \<open>The values that Borsh writes: byte vectors and strings within a 32-bit length, account
  identifiers of 32 bytes.\<close>

definition storage_get_request_ok :: "storage_get_request \<Rightarrow> bool" where
  "storage_get_request_ok r \<longleftrightarrow> account_wf (sg_account_id r) \<and> vec_ok (sg_key r)"

definition storage_get_response_ok :: "storage_get_response \<Rightarrow> bool" where
  "storage_get_response_ok r \<longleftrightarrow> (case sg_value r of None \<Rightarrow> True | Some m \<Rightarrow> message_ok m)"

definition storage_set_request_ok :: "storage_set_request \<Rightarrow> bool" where
  "storage_set_request_ok r \<longleftrightarrow> vec_ok (ss_key r) \<and> message_ok (ss_value r)"

definition storage_remove_request_ok :: "storage_remove_request \<Rightarrow> bool" where
  "storage_remove_request_ok r \<longleftrightarrow> vec_ok (sr_key r)"

definition create_account_request_ok :: "create_account_request \<Rightarrow> bool" where
  "create_account_request_ok r \<longleftrightarrow> str_ok (ca_code_id r) \<and> message_ok (ca_init_message r)"

definition create_account_response_ok :: "create_account_response \<Rightarrow> bool" where
  "create_account_response_ok r \<longleftrightarrow> account_wf (ca_new_account_id r) \<and> message_ok (ca_init_response r)"

definition register_account_at_id_request_ok :: "register_account_at_id_request \<Rightarrow> bool" where
  "register_account_at_id_request_ok r \<longleftrightarrow>
     account_wf (ra_account_id r) \<and> str_ok (ra_code_id r) \<and> message_ok (ra_init_message r)"

definition migrate_request_ok :: "migrate_request \<Rightarrow> bool" where
  "migrate_request_ok r \<longleftrightarrow>
     account_wf (mg_account_id r) \<and> str_ok (mg_new_code_id r) \<and> request_ok (mg_execute_message r)"

definition transfer_msg_ok :: "transfer_msg \<Rightarrow> bool" where
  "transfer_msg_ok r \<longleftrightarrow> account_wf (tm_to r)"

definition host_invoke_request :: "host \<Rightarrow> invoke_request borsh" where
  "host_invoke_request H = invoke_request_borsh (h_u32 H) (h_u64 H) (h_vec H)"

text \<open>What the development relies on of Borsh: its round trip on those values, the documented
  little-endian form of a \<open>u32\<close>, the plain bytes of a fixed array, the four bytes of length that a
  string adds, the width of the other integers and the empty form of the unit value.\<close>

definition host_ok :: "host \<Rightarrow> bool" where
  "host_ok H \<longleftrightarrow>
     (\<forall>w rest. deserialize_reader (h_u32 H) (le_bytes 4 w @ rest) = Some (w, rest)) \<and>
     borsh_ok (\<lambda>_. True) (h_u64 H) \<and> borsh_ok (\<lambda>_. True) (h_u128 H) \<and> borsh_ok (\<lambda>_. True) (h_bool H) \<and>
     borsh_ok vec_ok (h_vec H) \<and> borsh_ok str_ok (h_string H) \<and>
     borsh_ok account_wf (h_account_id H) \<and> borsh_ok (\<lambda>_. True) (h_unit H) \<and>
     borsh_ok create_account_request_ok (h_create_account_request H) \<and>
     borsh_ok create_account_response_ok (h_create_account_response H) \<and>
     borsh_ok register_account_at_id_request_ok (h_register_account_at_id_request H) \<and>
     borsh_ok migrate_request_ok (h_migrate_request H (host_invoke_request H)) \<and>
     borsh_ok storage_get_request_ok (h_storage_get_request H) \<and>
     borsh_ok storage_get_response_ok (h_storage_get_response H) \<and>
     borsh_ok storage_set_request_ok (h_storage_set_request H) \<and>
     borsh_ok storage_remove_request_ok (h_storage_remove_request H) \<and>
     borsh_ok transfer_msg_ok (h_transfer_msg H) \<and>
     (\<forall>a. account_wf a \<longrightarrow> serialize (h_account_id H) a = Some a) \<and>
     (\<forall>s b. serialize (h_string H) s = Some b \<longrightarrow> length b = 4 + length s) \<and>
     (\<forall>w b. serialize (h_u64 H) w = Some b \<longrightarrow> length b = 8) \<and>
     (\<forall>w b. serialize (h_u128 H) w = Some b \<longrightarrow> length b = 16) \<and>
     (\<forall>u b. serialize (h_unit H) u = Some b \<longrightarrow> length b = 0)"

lemma host_ok_storage:
  assumes "host_ok H"
  shows "borsh_ok storage_get_request_ok (h_storage_get_request H)"
    "borsh_ok storage_get_response_ok (h_storage_get_response H)"
    "borsh_ok storage_set_request_ok (h_storage_set_request H)"
    "borsh_ok storage_remove_request_ok (h_storage_remove_request H)"
    "borsh_ok (\<lambda>_. True) (h_unit H)"
  using assms by (simp_all add: host_ok_def)

section \<open>Invokable messages\<close>

definition compute_function_id :: "host \<Rightarrow> string \<Rightarrow> u64" where
  "compute_function_id H fn_name =
     (let selector = (of_nat (be_val (take 4 (h_keccak256 H (str_bytes fn_name)))) :: u32)
      in ucast selector)"

definition CreateAccountRequest :: "host \<Rightarrow> create_account_request invokable" where
  "CreateAccountRequest H = \<lparr>FUNCTION_IDENTIFIER = 1, FUNCTION_IDENTIFIER_NAME = ''create_account'',
     msg_codec = h_create_account_request H\<rparr>"

definition RegisterAccountAtIdRequest :: "host \<Rightarrow> register_account_at_id_request invokable" where
  "RegisterAccountAtIdRequest H = \<lparr>FUNCTION_IDENTIFIER = 2,
     FUNCTION_IDENTIFIER_NAME = ''register_account_at_id'',
     msg_codec = h_register_account_at_id_request H\<rparr>"

definition MigrateRequest :: "host \<Rightarrow> migrate_request invokable" where
  "MigrateRequest H = \<lparr>FUNCTION_IDENTIFIER = 3, FUNCTION_IDENTIFIER_NAME = ''migrate'',
     msg_codec = h_migrate_request H (host_invoke_request H)\<rparr>"

definition StorageGetRequest :: "host \<Rightarrow> storage_get_request invokable" where
  "StorageGetRequest H = \<lparr>FUNCTION_IDENTIFIER = 1, FUNCTION_IDENTIFIER_NAME = ''storage_get'',
     msg_codec = h_storage_get_request H\<rparr>"

definition StorageSetRequest :: "host \<Rightarrow> storage_set_request invokable" where
  "StorageSetRequest H = \<lparr>FUNCTION_IDENTIFIER = 1, FUNCTION_IDENTIFIER_NAME = ''storage_set'',
     msg_codec = h_storage_set_request H\<rparr>"

definition StorageRemoveRequest :: "host \<Rightarrow> storage_remove_request invokable" where
  "StorageRemoveRequest H = \<lparr>FUNCTION_IDENTIFIER = 2, FUNCTION_IDENTIFIER_NAME = ''storage_remove'',
     msg_codec = h_storage_remove_request H\<rparr>"

definition TransferMsg :: "host \<Rightarrow> transfer_msg invokable" where
  "TransferMsg H = \<lparr>FUNCTION_IDENTIFIER = compute_function_id H ''transfer'',
     FUNCTION_IDENTIFIER_NAME = ''transfer'', msg_codec = h_transfer_msg H\<rparr>"

lemmas invokable_defs = CreateAccountRequest_def RegisterAccountAtIdRequest_def MigrateRequest_def
  StorageGetRequest_def StorageSetRequest_def StorageRemoveRequest_def TransferMsg_def

section \<open>Account code\<close>

record env_view =
  env_whoami :: account_id
  env_sender :: account_id
  env_funds :: "fungible_asset list"
  env_block :: block_context

text \<open>
  Code with a \<open>&mut dyn EnvironmentQuery\<close> (\<open>qprog\<close>) or a \<open>&mut dyn Environment\<close> (\<open>prog\<close>): it ends with
  a result or unwinds with a panic, or makes one call of the environment and continues with what the
  call returns.
\<close>

datatype 'a qprog =
  QReturn "error_code + 'a"
| QUnwind
| QAsk "env_view \<Rightarrow> 'a qprog"
| QQuery account_id invoke_request "error_code + invoke_response \<Rightarrow> 'a qprog"

datatype 'a prog =
  Return "error_code + 'a"
| Unwind
| Ask "env_view \<Rightarrow> 'a prog"
| DoQuery account_id invoke_request "error_code + invoke_response \<Rightarrow> 'a prog"
| DoExec account_id invoke_request "fungible_asset list" "error_code + invoke_response \<Rightarrow> 'a prog"
| EmitEvent string bytes "error_code + unit \<Rightarrow> 'a prog"
| UniqueId "error_code + bytes \<Rightarrow> 'a prog"

text \<open>Continuing with a result, and with the \<open>?\<close> operator.\<close>

primrec qcatch :: "'a qprog \<Rightarrow> (error_code + 'a \<Rightarrow> 'b qprog) \<Rightarrow> 'b qprog" where
  "qcatch (QReturn r) f = f r"
| "qcatch QUnwind f = QUnwind"
| "qcatch (QAsk k) f = QAsk (\<lambda>v. qcatch (k v) f)"
| "qcatch (QQuery to data k) f = QQuery to data (\<lambda>r. qcatch (k r) f)"

primrec pcatch :: "'a prog \<Rightarrow> (error_code + 'a \<Rightarrow> 'b prog) \<Rightarrow> 'b prog" where
  "pcatch (Return r) f = f r"
| "pcatch Unwind f = Unwind"
| "pcatch (Ask k) f = Ask (\<lambda>v. pcatch (k v) f)"
| "pcatch (DoQuery to data k) f = DoQuery to data (\<lambda>r. pcatch (k r) f)"
| "pcatch (DoExec to data funds k) f = DoExec to data funds (\<lambda>r. pcatch (k r) f)"
| "pcatch (EmitEvent name data k) f = EmitEvent name data (\<lambda>r. pcatch (k r) f)"
| "pcatch (UniqueId k) f = UniqueId (\<lambda>r. pcatch (k r) f)"

definition qbind :: "'a qprog \<Rightarrow> ('a \<Rightarrow> 'b qprog) \<Rightarrow> 'b qprog" where
  "qbind p f = qcatch p (\<lambda>r. case r of Inl e \<Rightarrow> QReturn (Inl e) | Inr a \<Rightarrow> f a)"

definition pbind :: "'a prog \<Rightarrow> ('a \<Rightarrow> 'b prog) \<Rightarrow> 'b prog" where
  "pbind p f = pcatch p (\<lambda>r. case r of Inl e \<Rightarrow> Return (Inl e) | Inr a \<Rightarrow> f a)"

text \<open>Query code run with an \<open>Environment\<close>, which is an \<open>EnvironmentQuery\<close>.\<close>

primrec of_query :: "'a qprog \<Rightarrow> 'a prog" where
  "of_query (QReturn r) = Return r"
| "of_query QUnwind = Unwind"
| "of_query (QAsk k) = Ask (\<lambda>v. of_query (k v))"
| "of_query (QQuery to data k) = DoQuery to data (\<lambda>r. of_query (k r))"

record account_code =
  ac_identifier :: string
  ac_init :: "invoke_request \<Rightarrow> invoke_response prog"
  ac_execute :: "invoke_request \<Rightarrow> invoke_response prog"
  ac_query :: "invoke_request \<Rightarrow> invoke_response qprog"

text \<open>\<open>AccountsCodeStorage::with_code\<close>: the code stored under an identifier, if any, or an error.\<close>

type_synonym account_codes = "string \<Rightarrow> error_code + account_code option"

section \<open>Typed calls\<close>

definition one_coin :: "fungible_asset qprog" where
  "one_coin = QAsk (\<lambda>env. case env_funds env of
     [fa] \<Rightarrow> QReturn (Inr \<lparr>asset_id = asset_id fa, amount = amount fa\<rparr>)
   | _ \<Rightarrow> QReturn (Inl ERR_ONE_COIN))"

definition exec_account ::
    "'q invokable \<Rightarrow> 'r borsh \<Rightarrow> account_id \<Rightarrow> 'q \<Rightarrow> fungible_asset list \<Rightarrow> 'r prog" where
  "exec_account I R target request funds =
     (case invoke_request_new I request of
        Inl e \<Rightarrow> Return (Inl e)
      | Inr invoke_request \<Rightarrow>
          DoExec target invoke_request funds
            (\<lambda>r. Return (bind_result r (response_get R))))"

definition query_account :: "'q invokable \<Rightarrow> 'r borsh \<Rightarrow> account_id \<Rightarrow> 'q \<Rightarrow> 'r qprog" where
  "query_account I R target request =
     (case invoke_request_new I request of
        Inl e \<Rightarrow> QReturn (Inl e)
      | Inr invoke_request \<Rightarrow>
          QQuery target invoke_request (\<lambda>r. QReturn (bind_result r (response_get R))))"

definition create_account_call ::
    "host \<Rightarrow> 'q borsh \<Rightarrow> 'r borsh \<Rightarrow> string \<Rightarrow> 'q \<Rightarrow> fungible_asset list \<Rightarrow> (account_id \<times> 'r) prog" where
  "create_account_call H Q R code_id init_msg funds =
     (case message_new Q init_msg of
        Inl e \<Rightarrow> Return (Inl e)
      | Inr init_message \<Rightarrow>
          pbind (exec_account (CreateAccountRequest H) (h_create_account_response H) RUNTIME_ACCOUNT_ID
                   \<lparr>ca_code_id = code_id, ca_init_message = init_message\<rparr> funds)
            (\<lambda>resp. Return (bind_result (message_get R (ca_init_response resp))
                               (\<lambda>r. Inr (ca_new_account_id resp, r)))))"

definition migrate_account ::
    "host \<Rightarrow> 'q invokable \<Rightarrow> 'r borsh \<Rightarrow> account_id \<Rightarrow> string \<Rightarrow> 'q \<Rightarrow> fungible_asset list \<Rightarrow> 'r prog" where
  "migrate_account H I R target new_account_code migrate_request funds =
     (case bind_result (invoke_request_new I migrate_request)
             (\<lambda>m. invoke_request_new (MigrateRequest H)
                     \<lparr>mg_account_id = target, mg_new_code_id = new_account_code,
                      mg_execute_message = m\<rparr>) of
        Inl e \<Rightarrow> Return (Inl e)
      | Inr invoke_request \<Rightarrow>
          DoExec RUNTIME_ACCOUNT_ID invoke_request funds
            (\<lambda>r. Return (bind_result r (response_get R))))"

definition register_account_at_id_call ::
    "host \<Rightarrow> 'q borsh \<Rightarrow> account_id \<Rightarrow> string \<Rightarrow> 'q \<Rightarrow> unit prog" where
  "register_account_at_id_call H Q account_id code_id init_msg =
     (case message_new Q init_msg of
        Inl e \<Rightarrow> Return (Inl e)
      | Inr init_message \<Rightarrow>
          exec_account (RegisterAccountAtIdRequest H) (h_unit H) RUNTIME_ACCOUNT_ID
            \<lparr>ra_account_id = account_id, ra_code_id = code_id, ra_init_message = init_message\<rparr> [])"

section \<open>Dispatch generated for an account\<close>

text \<open>
  The \<open>account\<close> macro turns each exported function into a match arm: decode the message, refuse
  funds unless the function is payable, run the function, encode its answer; unknown identifiers are
  refused (\<open>crates/app/sdk/macros/src/lib.rs\<close>).
\<close>

definition funds_check :: "bool \<Rightarrow> 'a prog \<Rightarrow> 'a prog" where
  "funds_check payable p =
     (if payable then p
      else Ask (\<lambda>env. if env_funds env \<noteq> [] then Return (Inl ERR_NOT_PAYABLE) else p))"

definition exec_arm ::
    "bool \<Rightarrow> 'm borsh \<Rightarrow> 'r borsh \<Rightarrow> ('m \<Rightarrow> 'r prog) \<Rightarrow> invoke_request \<Rightarrow> invoke_response prog" where
  "exec_arm payable M R f request =
     (case invoke_request_get M request of
        Inl e \<Rightarrow> Return (Inl e)
      | Inr msg \<Rightarrow> funds_check payable (pbind (f msg) (\<lambda>resp. Return (response_new R resp))))"

definition query_arm ::
    "'m borsh \<Rightarrow> 'r borsh \<Rightarrow> ('m \<Rightarrow> 'r qprog) \<Rightarrow> invoke_request \<Rightarrow> invoke_response qprog" where
  "query_arm M R f request =
     (case invoke_request_get M request of
        Inl e \<Rightarrow> QReturn (Inl e)
      | Inr msg \<Rightarrow> qbind (f msg) (\<lambda>resp. QReturn (response_new R resp)))"

fun exec_dispatch ::
    "(u64 \<times> (invoke_request \<Rightarrow> invoke_response prog)) list \<Rightarrow> invoke_request \<Rightarrow> invoke_response prog" where
  "exec_dispatch [] request = Return (Inl ERR_UNKNOWN_FUNCTION)"
| "exec_dispatch ((fn_id, arm) # arms) request =
     (if req_function request = fn_id then arm request else exec_dispatch arms request)"

fun query_dispatch ::
    "(u64 \<times> (invoke_request \<Rightarrow> invoke_response qprog)) list \<Rightarrow> invoke_request \<Rightarrow> invoke_response qprog" where
  "query_dispatch [] request = QReturn (Inl ERR_UNKNOWN_FUNCTION)"
| "query_dispatch ((fn_id, arm) # arms) request =
     (if req_function request = fn_id then arm request else query_dispatch arms request)"

end
