(* ===== verification/Reference_Host.thy ===== *)
theory Reference_Host
  imports Sdk_Env
begin

text \<open>
  A concrete instance of the third-party parameters, on which the hypotheses about them hold: the
  Borsh format as its specification describes it (little-endian integers, 32-bit lengths, fields in
  order, one tag byte for an option), no Unicode letters beyond ASCII, and a stand-in for Keccak-256
  that pads its input.
\<close>

section \<open>Codec combinators\<close>

definition le_codec :: "nat \<Rightarrow> 'a::len word borsh" where
  "le_codec n = \<lparr>serialize = (\<lambda>w. Some (le_bytes n w)),
     deserialize_reader = (\<lambda>r. if length r < n then None
                               else Some (of_nat (le_val (take n r)), drop n r))\<rparr>"

definition fixed_codec :: "nat \<Rightarrow> bytes borsh" where
  "fixed_codec n = \<lparr>serialize = (\<lambda>b. Some b),
     deserialize_reader = (\<lambda>r. if length r < n then None else Some (take n r, drop n r))\<rparr>"

definition vec_codec :: "bytes borsh" where
  "vec_codec = \<lparr>serialize = (\<lambda>b. if length b < 2 ^ 32 then Some (le_bytes 4 (of_nat (length b) :: u32) @ b) else None),
     deserialize_reader = (\<lambda>r. case deserialize_reader (le_codec 4 :: u32 borsh) r of
        None \<Rightarrow> None
      | Some (n, r) \<Rightarrow> if length r < unat n then None else Some (take (unat n) r, drop (unat n) r))\<rparr>"

definition string_codec :: "string borsh" where
  "string_codec = \<lparr>serialize = (\<lambda>s. serialize vec_codec (str_bytes s)),
     deserialize_reader = (\<lambda>r. case deserialize_reader vec_codec r of
        None \<Rightarrow> None
      | Some (b, r) \<Rightarrow> map_option (\<lambda>s. (s, r)) (from_utf8 b))\<rparr>"

definition unit_codec :: "unit borsh" where
  "unit_codec = \<lparr>serialize = (\<lambda>_. Some []), deserialize_reader = (\<lambda>r. Some ((), r))\<rparr>"

definition bool_codec :: "bool borsh" where
  "bool_codec = \<lparr>serialize = (\<lambda>b. Some [if b then 1 else 0]),
     deserialize_reader = (\<lambda>r. case r of
        b # r \<Rightarrow> if b = 0 then Some (False, r) else if b = 1 then Some (True, r) else None
      | [] \<Rightarrow> None)\<rparr>"

definition option_codec :: "'a borsh \<Rightarrow> 'a option borsh" where
  "option_codec B = \<lparr>serialize = (\<lambda>v. case v of None \<Rightarrow> Some [0] | Some x \<Rightarrow> map_option (Cons 1) (serialize B x)),
     deserialize_reader = (\<lambda>r. case r of
        b # r \<Rightarrow> if b = 0 then Some (None, r)
                 else if b = 1 then map_option (\<lambda>(x, r). (Some x, r)) (deserialize_reader B r) else None
      | [] \<Rightarrow> None)\<rparr>"

definition pair_codec :: "'a borsh \<Rightarrow> 'b borsh \<Rightarrow> ('a \<times> 'b) borsh" where
  "pair_codec A B = \<lparr>serialize = (\<lambda>(x, y). case serialize A x of
        None \<Rightarrow> None | Some a \<Rightarrow> map_option (\<lambda>b. a @ b) (serialize B y)),
     deserialize_reader = (\<lambda>r. case deserialize_reader A r of
        None \<Rightarrow> None | Some (x, r) \<Rightarrow> map_option (\<lambda>(y, r). ((x, y), r)) (deserialize_reader B r))\<rparr>"

text \<open>A struct as the tuple of its fields.\<close>

definition struct_codec :: "('a \<Rightarrow> 'b) \<Rightarrow> ('b \<Rightarrow> 'a) \<Rightarrow> 'a borsh \<Rightarrow> 'b borsh" where
  "struct_codec mk sel A = \<lparr>serialize = (\<lambda>x. serialize A (sel x)),
     deserialize_reader = (\<lambda>r. map_option (\<lambda>(x, r). (mk x, r)) (deserialize_reader A r))\<rparr>"

section \<open>Round trips\<close>

lemma borsh_okI:
  "(\<And>x. D x \<Longrightarrow> \<exists>b. serialize B x = Some b \<and> (\<forall>rest. deserialize_reader B (b @ rest) = Some (x, rest))) \<Longrightarrow>
     borsh_ok D B"
  by (simp add: borsh_ok_def)

lemma le_codec_read:
  fixes w :: "'a::len word"
  assumes "(256 :: nat) ^ n = 2 ^ LENGTH('a)"
  shows "deserialize_reader (le_codec n) (le_bytes n w @ rest) = Some (w, rest)"
proof -
  have "unat w mod 256 ^ n = unat w" using unat_lt_exp [of w] assms by simp
  then show ?thesis by (simp add: le_codec_def le_val_le_bytes)
qed

lemma le_codec_ok:
  "(256 :: nat) ^ n = 2 ^ LENGTH('a::len) \<Longrightarrow> borsh_ok (\<lambda>_. True) (le_codec n :: 'a word borsh)"
  by (rule borsh_okI, rule exI, rule conjI, simp add: le_codec_def, simp add: le_codec_read)

lemma fixed_codec_ok: "borsh_ok (\<lambda>b. length b = n) (fixed_codec n)"
  by (rule borsh_okI) (simp add: fixed_codec_def)

lemma vec_codec_ok: "borsh_ok vec_ok vec_codec"
proof (rule borsh_okI)
  fix b assume "vec_ok b"
  then have len: "length b < 2 ^ 32" by (simp add: vec_ok_def)
  then have n: "unat (of_nat (length b) :: u32) = length b" by (simp add: unat_of_nat)
  have read: "deserialize_reader (le_codec 4) (le_bytes 4 w @ rest) = Some (w, rest)" for w :: u32 and rest
    by (rule le_codec_read) simp
  show "\<exists>x. serialize vec_codec b = Some x \<and>
      (\<forall>rest. deserialize_reader vec_codec (x @ rest) = Some (b, rest))"
    using len n by (simp add: vec_codec_def read)
qed

lemma string_codec_ok: "borsh_ok str_ok string_codec"
proof (rule borsh_okI)
  fix s assume "str_ok s"
  then have utf8: "utf8_chars s \<noteq> None" and "vec_ok (str_bytes s)"
    by (auto simp: str_ok_def vec_ok_def str_bytes_def)
  from borsh_okD [OF vec_codec_ok this(2)] obtain b where b: "serialize vec_codec (str_bytes s) = Some b"
    "\<And>rest. deserialize_reader vec_codec (b @ rest) = Some (str_bytes s, rest)" by blast
  then show "\<exists>x. serialize string_codec s = Some x \<and>
      (\<forall>rest. deserialize_reader string_codec (x @ rest) = Some (s, rest))"
    by (simp add: string_codec_def from_utf8_str_bytes [OF utf8])
qed

lemma unit_codec_ok: "borsh_ok (\<lambda>_. True) unit_codec"
  by (rule borsh_okI) (simp add: unit_codec_def)

lemma bool_codec_ok: "borsh_ok (\<lambda>_. True) bool_codec"
  by (rule borsh_okI) (auto simp: bool_codec_def)

lemma option_codec_ok:
  "borsh_ok D B \<Longrightarrow> borsh_ok (\<lambda>v. case v of None \<Rightarrow> True | Some x \<Rightarrow> D x) (option_codec B)"
  unfolding borsh_ok_def option_codec_def by (fastforce split: option.splits)

lemma pair_codec_ok:
  assumes A: "borsh_ok D A" and B: "borsh_ok E B"
  shows "borsh_ok (\<lambda>(x, y). D x \<and> E y) (pair_codec A B)"
proof (rule borsh_okI, clarify)
  fix x y assume "D x" "E y"
  from borsh_okD [OF A this(1)] obtain a where a: "serialize A x = Some a"
    "\<And>rest. deserialize_reader A (a @ rest) = Some (x, rest)" by blast
  from borsh_okD [OF B \<open>E y\<close>] obtain b where b: "serialize B y = Some b"
    "\<And>rest. deserialize_reader B (b @ rest) = Some (y, rest)" by blast
  show "\<exists>c. serialize (pair_codec A B) (x, y) = Some c \<and>
      (\<forall>rest. deserialize_reader (pair_codec A B) (c @ rest) = Some ((x, y), rest))"
    by (simp add: pair_codec_def a b)
qed

lemma struct_codec_ok:
  assumes A: "borsh_ok D A" and inv: "\<And>x. E x \<Longrightarrow> D (sel x) \<and> mk (sel x) = x"
  shows "borsh_ok E (struct_codec mk sel A)"
proof (rule borsh_okI)
  fix x assume "E x"
  with inv have "D (sel x)" "mk (sel x) = x" by auto
  from borsh_okD [OF A this(1)] obtain a where "serialize A (sel x) = Some a"
    "\<And>rest. deserialize_reader A (a @ rest) = Some (sel x, rest)" by blast
  then show "\<exists>c. serialize (struct_codec mk sel A) x = Some c \<and>
      (\<forall>rest. deserialize_reader (struct_codec mk sel A) (c @ rest) = Some (x, rest))"
    using \<open>mk (sel x) = x\<close> by (simp add: struct_codec_def)
qed

section \<open>The instance\<close>

definition account_codec :: "account_id borsh" where
  "account_codec = fixed_codec 32"

definition message_codec :: "message borsh" where
  "message_codec = message_borsh vec_codec"

definition stand_in_keccak256 :: "bytes \<Rightarrow> bytes" where
  "stand_in_keccak256 b = take 32 (b @ replicate 32 0)"

definition reference_host :: host where
  "reference_host =
     \<lparr>h_u32 = le_codec 4, h_u64 = le_codec 8, h_u128 = le_codec 16, h_bool = bool_codec,
      h_vec = vec_codec, h_string = string_codec, h_account_id = account_codec, h_unit = unit_codec,
      h_create_account_request =
        struct_codec (\<lambda>(c, m). \<lparr>ca_code_id = c, ca_init_message = m\<rparr>)
          (\<lambda>r. (ca_code_id r, ca_init_message r)) (pair_codec string_codec message_codec),
      h_create_account_response =
        struct_codec (\<lambda>(a, m). \<lparr>ca_new_account_id = a, ca_init_response = m\<rparr>)
          (\<lambda>r. (ca_new_account_id r, ca_init_response r)) (pair_codec account_codec message_codec),
      h_register_account_at_id_request =
        struct_codec (\<lambda>(a, c, m). \<lparr>ra_account_id = a, ra_code_id = c, ra_init_message = m\<rparr>)
          (\<lambda>r. (ra_account_id r, ra_code_id r, ra_init_message r))
          (pair_codec account_codec (pair_codec string_codec message_codec)),
      h_migrate_request = (\<lambda>I.
        struct_codec (\<lambda>(a, c, m). \<lparr>mg_account_id = a, mg_new_code_id = c, mg_execute_message = m\<rparr>)
          (\<lambda>r. (mg_account_id r, mg_new_code_id r, mg_execute_message r))
          (pair_codec account_codec (pair_codec string_codec I))),
      h_storage_get_request =
        struct_codec (\<lambda>(a, k). \<lparr>sg_account_id = a, sg_key = k\<rparr>) (\<lambda>r. (sg_account_id r, sg_key r))
          (pair_codec account_codec vec_codec),
      h_storage_get_response =
        struct_codec (\<lambda>v. \<lparr>sg_value = v\<rparr>) (\<lambda>r. sg_value r) (option_codec message_codec),
      h_storage_set_request =
        struct_codec (\<lambda>(k, v). \<lparr>ss_key = k, ss_value = v\<rparr>) (\<lambda>r. (ss_key r, ss_value r))
          (pair_codec vec_codec message_codec),
      h_storage_remove_request = struct_codec (\<lambda>k. \<lparr>sr_key = k\<rparr>) (\<lambda>r. sr_key r) vec_codec,
      h_transfer_msg =
        struct_codec (\<lambda>(t, a). \<lparr>tm_to = t, tm_amount = a\<rparr>) (\<lambda>r. (tm_to r, tm_amount r))
          (pair_codec account_codec (le_codec 16)),
      h_unicode_alphanumeric = (\<lambda>_. False),
      h_keccak256 = stand_in_keccak256\<rparr>"

lemma account_codec_ok: "borsh_ok account_wf account_codec"
  using fixed_codec_ok [of 32] by (simp add: account_codec_def)

lemma message_codec_ok: "borsh_ok message_ok message_codec"
  unfolding message_codec_def by (rule message_borsh_ok [OF vec_codec_ok])

lemma invoke_request_codec_ok: "borsh_ok request_ok (host_invoke_request reference_host)"
  unfolding host_invoke_request_def reference_host_def
  by (simp, rule invoke_request_borsh_ok) (simp_all add: le_codec_read le_codec_ok vec_codec_ok)

lemmas part_codecs = account_codec_ok message_codec_ok string_codec_ok vec_codec_ok
  pair_codec_ok option_codec_ok le_codec_ok

lemmas request_domains = create_account_request_ok_def create_account_response_ok_def
  register_account_at_id_request_ok_def migrate_request_ok_def storage_get_request_ok_def
  storage_get_response_ok_def storage_set_request_ok_def storage_remove_request_ok_def
  transfer_msg_ok_def

lemma migrate_codec_ok:
  "borsh_ok request_ok I \<Longrightarrow> borsh_ok migrate_request_ok (h_migrate_request reference_host I)"
  by (simp add: reference_host_def)
    (rule struct_codec_ok, (rule part_codecs | assumption)+, simp add: request_domains)

lemma reference_host_ok: "host_ok reference_host"
  unfolding host_ok_def
proof (intro conjI)
  show "borsh_ok migrate_request_ok (h_migrate_request reference_host (host_invoke_request reference_host))"
    by (rule migrate_codec_ok [OF invoke_request_codec_ok])
  show "borsh_ok create_account_request_ok (h_create_account_request reference_host)"
    "borsh_ok create_account_response_ok (h_create_account_response reference_host)"
    "borsh_ok register_account_at_id_request_ok (h_register_account_at_id_request reference_host)"
    "borsh_ok storage_get_request_ok (h_storage_get_request reference_host)"
    "borsh_ok storage_get_response_ok (h_storage_get_response reference_host)"
    "borsh_ok storage_set_request_ok (h_storage_set_request reference_host)"
    "borsh_ok storage_remove_request_ok (h_storage_remove_request reference_host)"
    by (simp add: reference_host_def, rule struct_codec_ok, (rule part_codecs)+,
        simp add: request_domains)+
  have "borsh_ok (\<lambda>_. True) (le_codec 16 :: u128 borsh)" by (rule le_codec_ok) simp
  note amount = pair_codec_ok [OF account_codec_ok this]
  show "borsh_ok transfer_msg_ok (h_transfer_msg reference_host)"
    by (simp add: reference_host_def) (rule struct_codec_ok [OF amount], simp add: request_domains)
  show "\<forall>a. account_wf a \<longrightarrow> serialize (h_account_id reference_host) a = Some a"
    by (simp add: reference_host_def account_codec_def fixed_codec_def)
  show "\<forall>s b. serialize (h_string reference_host) s = Some b \<longrightarrow> length b = 4 + length s"
    by (auto simp: reference_host_def string_codec_def vec_codec_def str_bytes_def)
  show "\<forall>w b. serialize (h_u64 reference_host) w = Some b \<longrightarrow> length b = 8"
    "\<forall>w b. serialize (h_u128 reference_host) w = Some b \<longrightarrow> length b = 16"
    "\<forall>u b. serialize (h_unit reference_host) u = Some b \<longrightarrow> length b = 0"
    by (auto simp: reference_host_def le_codec_def unit_codec_def)
qed (simp_all add: reference_host_def le_codec_read le_codec_ok bool_codec_ok vec_codec_ok
    string_codec_ok account_codec_ok unit_codec_ok)

end
