(* ===== verification/Core_Theorems.thy ===== *)
theory Core_Theorems
  imports Gas Scope_Validation Reference_Host
begin

text \<open>
  The properties of the small components everything else is built on: gas charges, unique
  identifiers, account identifiers, fungible assets, the codec of invocation requests, and error
  codes.
\<close>

section \<open>Gas\<close>

text \<open>A sequence of charges, stopping at the first that is refused.\<close>

fun consume_all :: "u64 list \<Rightarrow> (gas_counter, error_code, unit) comp" where
  "consume_all [] = ret ()"
| "consume_all (gas # gs) = andThen (consume_gas gas) (\<lambda>_. consume_all gs)"

lemma consume_all_Finite:
  assumes "used \<le> limit" and "limit \<noteq> - 1"
  shows "if unat used + sum_list (map unat gs) \<le> unat limit
    then consume_all gs (Finite limit used cfg) = (Ok (), Finite limit (used + sum_list gs) cfg) \<and>
      unat (used + sum_list gs) = unat used + sum_list (map unat gs)
    else fst (consume_all gs (Finite limit used cfg)) = Err ERR_OUT_OF_GAS \<and>
      gas_ok (snd (consume_all gs (Finite limit used cfg)))"
  using assms
proof (induction gs arbitrary: used)
  case (Cons gas gs)
  show ?case
  proof (cases "unat used + unat gas \<le> unat limit")
    case True
    then have sum: "unat (used + gas) = unat used + unat gas"
      using unat_lt_exp [of limit] by (simp add: unat_word_ariths)
    then have "saturating_add used gas = used + gas"
      using unat_lt_exp [of "used + gas"] by (simp only: word_unat_eq_iff unat_saturating_add)
    with Cons.prems True have "consume_gas gas (Finite limit used cfg) = (Ok (), Finite limit (used + gas) cfg)"
      by (simp only: consume_gas_Finite gas_ok.simps) simp
    then have eqs: "consume_all (gas # gs) (Finite limit used cfg) = consume_all gs (Finite limit (used + gas) cfg)"
      "unat used + sum_list (map unat (gas # gs)) = unat (used + gas) + sum_list (map unat gs)"
      "used + sum_list (gas # gs) = used + gas + sum_list gs"
      using sum by (simp_all add: andThen_def add.assoc del: consume_gas.simps)
    have "used + gas \<le> limit" using True sum by (simp add: word_le_nat_alt)
    from Cons.IH [OF this Cons.prems(2)] show ?thesis unfolding eqs .
  next
    case False
    with Cons.prems have "consume_gas gas (Finite limit used cfg) = (Err ERR_OUT_OF_GAS, Finite limit used cfg)"
      by (simp only: consume_gas_Finite gas_ok.simps) simp
    with False Cons.prems show ?thesis by (simp add: andThen_def del: consume_gas.simps)
  qed
qed (simp add: ret_def word_le_nat_alt)

text \<open>Charges add up. With any limit but the largest 64-bit value, a sequence of charges on a fresh
  counter goes through exactly when their sum over the naturals is within the limit, and the counter
  then shows that sum; otherwise the counter runs out of gas and still shows no more than the limit.\<close>

theorem charges_add_up:
  assumes "limit \<noteq> - 1"
  shows "(fst (consume_all gs (gas_finite limit cfg)) = Ok () \<longleftrightarrow> sum_list (map unat gs) \<le> unat limit) \<and>
    (sum_list (map unat gs) \<le> unat limit \<longrightarrow>
       unat (gas_used (snd (consume_all gs (gas_finite limit cfg)))) = sum_list (map unat gs)) \<and>
    (\<not> sum_list (map unat gs) \<le> unat limit \<longrightarrow>
       fst (consume_all gs (gas_finite limit cfg)) = Err ERR_OUT_OF_GAS \<and>
       gas_ok (snd (consume_all gs (gas_finite limit cfg))))"
  using consume_all_Finite [of 0 limit gs cfg] assms by (simp add: gas_finite_def split: if_splits)

theorem charges_add_up_witness:
  "fst (consume_all [40, 60] (gas_finite 100 storage_gas_config_default)) = Ok () \<and>
   fst (consume_all [40, 61] (gas_finite 100 storage_gas_config_default)) = Err ERR_OUT_OF_GAS"
  using charges_add_up [of 100 "[40, 60]" storage_gas_config_default]
    charges_add_up [of 100 "[40, 61]" storage_gas_config_default] by simp

section \<open>Identifiers\<close>

text \<open>Within one execution scope, different counter values give different 32-byte identifiers.\<close>

theorem unique_ids_distinct:
  assumes "scope_wf sc" and "unique_id sc n = Inr a" and "unique_id sc m = Inr b" and "n \<noteq> m"
  shows "a \<noteq> b \<and> length a = 32 \<and> length b = 32"
  using assms unique_id_inject [of sc n a m] length_unique_id [of sc] by blast

theorem unique_ids_distinct_witness:
  "\<exists>a b. unique_id (TransactionScope (replicate 32 7)) 1 = Inr a \<and>
     unique_id (TransactionScope (replicate 32 7)) 65535 = Inr b \<and> a \<noteq> b"
proof -
  obtain a b where ids: "unique_id (TransactionScope (replicate 32 7)) 1 = Inr a"
    "unique_id (TransactionScope (replicate 32 7)) 65535 = Inr b"
    by (simp add: MAX_OBJECTS_PER_TRANSACTION_def)
  moreover have "scope_wf (TransactionScope (replicate 32 7))" by simp
  ultimately show ?thesis using unique_ids_distinct [of "TransactionScope (replicate 32 7)" 1 a 65535 b] by simp
qed

text \<open>\<open>AccountId::increase\<close> adds one to the 256-bit number an identifier stands for, wrapping at the
  end, so that no identifier is handed out twice before all have been.\<close>

theorem account_increase_adds_one:
  assumes "account_wf a"
  shows "account_wf (account_increase a) \<and> be_val (account_increase a) = (be_val a + 1) mod 2 ^ 256"
  using assms be_val_account_increase account_wf_increase by blast

lemma be_val_all_ones: "be_val (replicate n 255) + 1 = 256 ^ n"
proof (induction n)
  case (Suc n)
  have "replicate (Suc n) (255 :: u8) = replicate n 255 @ [255]" by (simp add: replicate_append_same)
  then have "be_val (replicate (Suc n) 255) = be_val (replicate n 255) * 256 + 255" by (simp only: be_val_snoc) simp
  with Suc show ?case by simp
qed simp

theorem account_increase_adds_one_witness:
  "be_val (account_increase (account_from_u64 65535)) = 65536 \<and>
   be_val (account_increase (replicate 32 255)) = 0"
proof -
  have "be_val (replicate 32 (255 :: u8)) = 2 ^ 256 - 1" using be_val_all_ones [of 32] by simp
  then show ?thesis
    using account_increase_adds_one [of "account_from_u64 65535"] account_increase_adds_one [of "replicate 32 255"]
    by simp
qed

section \<open>Fungible assets\<close>

text \<open>\<open>increase\<close> and \<open>decrease\<close> undo each other, and \<open>increase\<close> succeeds exactly on the same asset
  without overflow of 128 bits.\<close>

theorem fungible_asset_arithmetic:
  "(fungible_increase a b = Inr c) = (fungible_decrease c b = Inr a) \<and>
   ((\<exists>d. fungible_increase a b = Inr d) = (asset_id a = asset_id b \<and> unat (amount a) + unat (amount b) < 2 ^ 128))"
  using fungible_increase_decrease [of a b c] fungible_decrease_increase [of c b a]
  by (auto simp: fungible_increase_def checked_add_def ok_or_def bind_result_def)

section \<open>Requests\<close>

text \<open>The hand-written codec of \<open>InvokeRequest\<close> reads back what it wrote, and leaves what follows it
  unread, given that the codecs of its parts do.\<close>

theorem invoke_request_roundtrip:
  assumes "\<And>w rest. deserialize_reader U32 (le_bytes 4 w @ rest) = Some (w, rest)"
    and "borsh_ok (\<lambda>_. True) U" and "borsh_ok vec_ok V" and "request_ok r"
  shows "\<exists>b. invoke_request_serialize U V r = Some b \<and>
    (\<forall>rest. invoke_request_deserialize U32 U V (b @ rest) = Some (r, rest))"
proof -
  obtain b where "serialize (invoke_request_borsh U32 U V) r = Some b"
    "\<And>rest. deserialize_reader (invoke_request_borsh U32 U V) (b @ rest) = Some (r, rest)"
    using borsh_okD [OF invoke_request_borsh_ok [OF assms(1-3)] assms(4)] by metis
  then show ?thesis by (simp add: invoke_request_borsh_def)
qed

theorem invoke_request_roundtrip_witness:
  "\<exists>b. invoke_request_serialize (le_codec 8) vec_codec
         \<lparr>human_name = ''send'', req_function = 77, req_message = OwnedBytes [1, 2, 3]\<rparr> = Some b \<and>
     invoke_request_deserialize (le_codec 4) (le_codec 8) vec_codec (b @ [9]) =
       Some (\<lparr>human_name = ''send'', req_function = 77, req_message = OwnedBytes [1, 2, 3]\<rparr>, [9])"
proof -
  have u32: "deserialize_reader (le_codec 4) (le_bytes 4 w @ rest) = Some (w, rest)" for w :: u32 and rest
    by (rule le_codec_read) simp
  have u64: "borsh_ok (\<lambda>_. True) (le_codec 8 :: u64 borsh)" by (rule le_codec_ok) simp
  have "request_ok \<lparr>human_name = ''send'', req_function = 77, req_message = OwnedBytes [1, 2, 3]\<rparr>"
    by (simp add: request_ok_def str_ok_def utf8_chars_def vec_ok_def)
  from invoke_request_roundtrip [OF u32 u64 vec_codec_ok this] show ?thesis by blast
qed

section \<open>Error codes\<close>

text \<open>The namespace byte of an error code does not separate crates. Every constant made by
  \<open>define_error!\<close> carries the namespace of the crate that defines the macro, so constants of different
  crates with the same local identifier are one code: running out of gas, an account that does not
  exist, an encoding error and a missing key of a collection cannot be told apart.\<close>

theorem error_codes_collide:
  "(define_error a = define_error b) = (a AND 0xFF = b AND 0xFF) \<and>
   ERR_OUT_OF_GAS = ERR_ACCOUNT_DOES_NOT_EXIST \<and> ERR_OUT_OF_GAS = ERR_ENCODING \<and>
   ERR_OUT_OF_GAS = ERR_NOT_FOUND \<and> ERR_TOO_MANY_OBJECTS = ERR_UNAUTHORIZED"
  by (simp add: define_error_eq_iff stf_error_defs ERR_ENCODING_def ERR_NOT_FOUND_def ERR_UNAUTHORIZED_def)

end
