(* ===== verification/Exec_State.thy ===== *)
theory Exec_State
  imports Gas
begin

text \<open>
  The checkpointed overlay of the state transition function
  (\<open>crates/app/stf/src/execution_state.rs\<close>): reads fall through the overlay to a read-only store,
  writes are recorded in an undo log, and a checkpoint can be restored by popping it. The overlay is
  a hash map; \<open>usize\<close> counters are natural numbers.
\<close>

type_synonym readonly_kv = "bytes \<Rightarrow> error_code + bytes option"

definition MAX_OVERLAY_ENTRIES :: nat where "MAX_OVERLAY_ENTRIES = 100000"
definition MAX_EVENTS_PER_EXECUTION :: nat where "MAX_EVENTS_PER_EXECUTION = 10000"
definition MAX_STORAGE_KEY_SIZE :: nat where "MAX_STORAGE_KEY_SIZE = 254"
definition MAX_KEY_SIZE :: nat where "MAX_KEY_SIZE = MAX_STORAGE_KEY_SIZE"
definition MAX_VALUE_SIZE :: nat where "MAX_VALUE_SIZE = 1024 * 1024"

record execution_metrics =
  storage_reads :: u64
  storage_writes :: u64
  events_emitted :: u64
  checkpoints :: u64
  restores :: u64
  overlay_len_max :: nat
  undo_log_len_max :: nat

definition metrics_default :: execution_metrics where
  "metrics_default = \<lparr>storage_reads = 0, storage_writes = 0, events_emitted = 0, checkpoints = 0,
     restores = 0, overlay_len_max = 0, undo_log_len_max = 0\<rparr>"

definition metrics_delta :: "execution_metrics \<Rightarrow> execution_metrics \<Rightarrow> execution_metrics" where
  "metrics_delta self before =
     \<lparr>storage_reads = saturating_sub (storage_reads self) (storage_reads before),
      storage_writes = saturating_sub (storage_writes self) (storage_writes before),
      events_emitted = saturating_sub (events_emitted self) (events_emitted before),
      checkpoints = saturating_sub (checkpoints self) (checkpoints before),
      restores = saturating_sub (restores self) (restores before),
      overlay_len_max = overlay_len_max self - overlay_len_max before,
      undo_log_len_max = undo_log_len_max self - undo_log_len_max before\<rparr>"

definition inc_storage_reads :: "execution_metrics \<Rightarrow> execution_metrics" where
  "inc_storage_reads m = m\<lparr>storage_reads := storage_reads m + 1\<rparr>"

definition inc_storage_writes :: "execution_metrics \<Rightarrow> execution_metrics" where
  "inc_storage_writes m = m\<lparr>storage_writes := storage_writes m + 1\<rparr>"

definition inc_events :: "execution_metrics \<Rightarrow> execution_metrics" where
  "inc_events m = m\<lparr>events_emitted := events_emitted m + 1\<rparr>"

definition inc_checkpoints :: "execution_metrics \<Rightarrow> execution_metrics" where
  "inc_checkpoints m = m\<lparr>checkpoints := checkpoints m + 1\<rparr>"

definition inc_restores :: "execution_metrics \<Rightarrow> execution_metrics" where
  "inc_restores m = m\<lparr>restores := restores m + 1\<rparr>"

definition update_overlay_max :: "nat \<Rightarrow> execution_metrics \<Rightarrow> execution_metrics" where
  "update_overlay_max value m = (if value > overlay_len_max m then m\<lparr>overlay_len_max := value\<rparr> else m)"

definition update_undo_log_max :: "nat \<Rightarrow> execution_metrics \<Rightarrow> execution_metrics" where
  "update_undo_log_max value m = (if value > undo_log_len_max m then m\<lparr>undo_log_len_max := value\<rparr> else m)"

section \<open>Undoing one change\<close>

type_synonym overlay_map = "(bytes, message option) hashmap"

datatype state_change =
  SetChange bytes bool "message option option"
| RemoveChange bytes bool "message option option"

fun revert :: "state_change \<Rightarrow> overlay_map \<Rightarrow> overlay_map" where
  "revert (SetChange key had_overlay_entry previous_overlay_value) overlay =
     (if had_overlay_entry
      then (case previous_overlay_value of
              Some prev_value \<Rightarrow> hm_insert key prev_value overlay
            | None \<Rightarrow> overlay)
      else hm_remove key overlay)"
| "revert (RemoveChange key had_overlay_entry previous_overlay_value) overlay =
     (if had_overlay_entry
      then (case previous_overlay_value of
              Some prev_value \<Rightarrow> hm_insert key prev_value overlay
            | None \<Rightarrow> overlay)
      else hm_remove key overlay)"

record checkpoint_t =
  undo_log_index :: nat
  events_index :: nat
  unique_objects_created :: u64

record exec_state =
  base_storage :: readonly_kv
  overlay :: overlay_map
  undo_log :: "state_change list"
  events :: "event list"
  unique_objects :: u64
  metrics :: execution_metrics

section \<open>Operations\<close>

definition exec_state_new :: "readonly_kv \<Rightarrow> exec_state" where
  "exec_state_new base = \<lparr>base_storage = base, overlay = [], undo_log = [], events = [],
     unique_objects = 0, metrics = metrics_default\<rparr>"

definition emit_event :: "event \<Rightarrow> (exec_state, error_code, unit) comp" where
  "emit_event ev s =
     (if length (events s) \<ge> MAX_EVENTS_PER_EXECUTION then (Err ERR_TOO_MANY_EVENTS, s)
      else (Ok (), s\<lparr>events := events s @ [ev], metrics := inc_events (metrics s)\<rparr>))"

definition pop_events :: "exec_state \<Rightarrow> event list \<times> exec_state" where
  "pop_events s = (if events s = [] then ([], s) else (events s, s\<lparr>events := []\<rparr>))"

definition next_unique_object_id :: "exec_state \<Rightarrow> u64 \<times> exec_state" where
  "next_unique_object_id s =
     (let n = unique_objects s + 1 in (n, s\<lparr>unique_objects := n\<rparr>))"

definition created_unique_objects :: "exec_state \<Rightarrow> u64" where
  "created_unique_objects s = unique_objects s"

definition metrics_snapshot :: "exec_state \<Rightarrow> execution_metrics" where
  "metrics_snapshot s = metrics s"

definition get_overlay_ref :: "bytes \<Rightarrow> exec_state \<Rightarrow> message option option" where
  "get_overlay_ref key s = hm_get (overlay s) key"

definition get :: "bytes \<Rightarrow> (exec_state, error_code, message option) comp" where
  "get key s =
     (let s = s\<lparr>metrics := inc_storage_reads (metrics s)\<rparr> in
      case hm_get (overlay s) key of
        Some (Some msg) \<Rightarrow> (Ok (Some msg), s)
      | Some None \<Rightarrow> (Ok None, s)
      | None \<Rightarrow>
          (case base_storage s key of
             Inl e \<Rightarrow> (Err e, s)
           | Inr value \<Rightarrow> (Ok (map_option message_from_bytes value), s)))"

text \<open>What follows a change of the overlay: the undo record and the metrics.\<close>

definition record_change :: "state_change \<Rightarrow> exec_state \<Rightarrow> exec_state" where
  "record_change c s =
     (let log = undo_log s @ [c] in
      s\<lparr>undo_log := log,
        metrics := update_overlay_max (length (overlay s))
                     (update_undo_log_max (length log) (inc_storage_writes (metrics s)))\<rparr>)"

definition set_op :: "bytes \<Rightarrow> message \<Rightarrow> (exec_state, error_code, unit) comp" where
  "set_op key value s =
     (if length key > MAX_KEY_SIZE then (Err ERR_KEY_TOO_LARGE, s)
      else if message_len value > MAX_VALUE_SIZE then (Err ERR_VALUE_TOO_LARGE, s)
      else case hm_get (overlay s) key of
        Some previous \<Rightarrow>
          (Ok (), record_change (SetChange key True (Some previous))
                    (s\<lparr>overlay := hm_insert key (Some value) (overlay s)\<rparr>))
      | None \<Rightarrow>
          (if length (overlay s) \<ge> MAX_OVERLAY_ENTRIES then (Err ERR_OVERLAY_SIZE_EXCEEDED, s)
           else (Ok (), record_change (SetChange key False None)
                          (s\<lparr>overlay := hm_insert key (Some value) (overlay s)\<rparr>))))"

definition remove_op :: "bytes \<Rightarrow> (exec_state, error_code, unit) comp" where
  "remove_op key s =
     (if length key > MAX_KEY_SIZE then (Err ERR_KEY_TOO_LARGE, s)
      else case hm_get (overlay s) key of
        Some previous \<Rightarrow>
          (Ok (), record_change (RemoveChange key True (Some previous))
                    (s\<lparr>overlay := hm_insert key None (overlay s)\<rparr>))
      | None \<Rightarrow>
          (if length (overlay s) \<ge> MAX_OVERLAY_ENTRIES then (Err ERR_OVERLAY_SIZE_EXCEEDED, s)
           else (Ok (), record_change (RemoveChange key False None)
                          (s\<lparr>overlay := hm_insert key None (overlay s)\<rparr>))))"

definition checkpoint :: "exec_state \<Rightarrow> checkpoint_t \<times> exec_state" where
  "checkpoint s =
     (\<lparr>undo_log_index = length (undo_log s), events_index = length (events s),
       unique_objects_created = unique_objects s\<rparr>,
      s\<lparr>metrics := inc_checkpoints (metrics s)\<rparr>)"

text \<open>The loop of \<open>restore\<close>: pop the last change and revert it until the log has the length the
  checkpoint recorded.\<close>

function restore_loop :: "nat \<Rightarrow> state_change list \<Rightarrow> overlay_map \<Rightarrow> state_change list \<times> overlay_map" where
  "restore_loop idx log ov =
     (if length log > idx then restore_loop idx (butlast log) (revert (last log) ov)
      else (log, ov))"
  by pat_completeness auto
termination
  by (relation "measure (\<lambda>(idx, log, ov). length log)") auto

declare restore_loop.simps [simp del]

definition restore :: "checkpoint_t \<Rightarrow> (exec_state, error_code, unit) comp" where
  "restore cp s =
     (if undo_log_index cp > length (undo_log s) \<or> events_index cp > length (events s)
      then (Err ERR_INVALID_CHECKPOINT, s)
      else let (log, ov) = restore_loop (undo_log_index cp) (undo_log s) (overlay s) in
        (Ok (), s\<lparr>overlay := ov, undo_log := log, events := take (events_index cp) (events s),
                  unique_objects := unique_objects_created cp,
                  metrics := inc_restores (metrics s)\<rparr>))"

section \<open>Batches\<close>

datatype batch_op = BatchSet message | BatchRemove

record batch_operation =
  bo_key :: bytes
  bo_operation :: batch_op

fun batch_validate :: "overlay_map \<Rightarrow> nat \<Rightarrow> batch_operation list \<Rightarrow> error_code + nat" where
  "batch_validate ov new_keys_count [] = Inr new_keys_count"
| "batch_validate ov new_keys_count (op # ops) =
     (if length (bo_key op) > MAX_KEY_SIZE then Inl ERR_KEY_TOO_LARGE
      else let new_keys_count = (if hm_get ov (bo_key op) = None then new_keys_count + 1
                                 else new_keys_count) in
        case bo_operation op of
          BatchSet value \<Rightarrow>
            (if message_len value > MAX_VALUE_SIZE then Inl ERR_VALUE_TOO_LARGE
             else batch_validate ov new_keys_count ops)
        | BatchRemove \<Rightarrow> batch_validate ov new_keys_count ops)"

definition batch_step :: "batch_operation \<Rightarrow> exec_state \<Rightarrow> exec_state" where
  "batch_step op s =
     (let key = bo_key op;
          had_overlay_entry = (hm_get (overlay s) key \<noteq> None);
          previous_overlay_value = (if had_overlay_entry then hm_get (overlay s) key else None)
      in case bo_operation op of
           BatchSet value \<Rightarrow>
             s\<lparr>undo_log := undo_log s @ [SetChange key had_overlay_entry previous_overlay_value],
               overlay := hm_insert key (Some value) (overlay s),
               metrics := inc_storage_writes (metrics s)\<rparr>
         | BatchRemove \<Rightarrow>
             s\<lparr>undo_log := undo_log s @ [RemoveChange key had_overlay_entry previous_overlay_value],
               overlay := hm_insert key None (overlay s),
               metrics := inc_storage_writes (metrics s)\<rparr>)"

definition apply_batch :: "batch_operation list \<Rightarrow> (exec_state, error_code, unit) comp" where
  "apply_batch operations s =
     (case batch_validate (overlay s) 0 operations of
        Inl e \<Rightarrow> (Err e, s)
      | Inr new_keys_count \<Rightarrow>
          if length (overlay s) + new_keys_count > MAX_OVERLAY_ENTRIES
          then (Err ERR_OVERLAY_SIZE_EXCEEDED, s)
          else let s' = fold batch_step operations s in
            (Ok (), s'\<lparr>metrics := update_overlay_max (length (overlay s'))
                                  (update_undo_log_max (length (undo_log s')) (metrics s'))\<rparr>))"

section \<open>The changes of a finished execution\<close>

datatype core_state_change = CSet (cs_key: bytes) bytes | CRemove (cs_key: bytes)

fun change_key :: "core_state_change \<Rightarrow> bytes" where
  "change_key (CSet key value) = key"
| "change_key (CRemove key) = key"

fun to_core_change :: "bytes \<times> message option \<Rightarrow> error_code + core_state_change" where
  "to_core_change (key, Some value) =
     bind_result (message_into_bytes value) (\<lambda>value. Inr (CSet key value))"
| "to_core_change (key, None) = Inr (CRemove key)"

fun collect_result :: "('e + 'a) list \<Rightarrow> 'e + 'a list" where
  "collect_result [] = Inr []"
| "collect_result (r # rs) =
     bind_result r (\<lambda>a. bind_result (collect_result rs) (\<lambda>as. Inr (a # as)))"

definition into_changes :: "exec_state \<Rightarrow> error_code + core_state_change list" where
  "into_changes s =
     bind_result (collect_result (map to_core_change (overlay s)))
       (\<lambda>changes. Inr (sort_key change_key changes))"

text \<open>The view of the state as a read-only store.\<close>

definition exec_state_kv_get :: "bytes \<Rightarrow> (exec_state, error_code, bytes option) comp" where
  "exec_state_kv_get key =
     andThen (get key) (\<lambda>v. case v of
        None \<Rightarrow> ret None
      | Some m \<Rightarrow> andThen (lift_result (message_into_bytes m)) (\<lambda>b. ret (Some b)))"

section \<open>Well-formed states\<close>

text \<open>Keys are distinct and short, values are short, the two security limits hold, and the recorded
  maxima bound the current sizes.\<close>

definition entry_ok :: "bytes \<times> message option \<Rightarrow> bool" where
  "entry_ok e \<longleftrightarrow> length (fst e) \<le> MAX_KEY_SIZE \<and>
     (case snd e of None \<Rightarrow> True | Some v \<Rightarrow> message_len v \<le> MAX_VALUE_SIZE)"

definition overlay_wf :: "overlay_map \<Rightarrow> bool" where
  "overlay_wf ov \<longleftrightarrow> hm_wf ov \<and> length ov \<le> MAX_OVERLAY_ENTRIES \<and> (\<forall>e \<in> set ov. entry_ok e)"

definition exec_state_wf :: "exec_state \<Rightarrow> bool" where
  "exec_state_wf s \<longleftrightarrow> overlay_wf (overlay s) \<and> length (events s) \<le> MAX_EVENTS_PER_EXECUTION"

definition maxima_ok :: "exec_state \<Rightarrow> bool" where
  "maxima_ok s \<longleftrightarrow> length (overlay s) \<le> overlay_len_max (metrics s) \<and>
     length (undo_log s) \<le> undo_log_len_max (metrics s)"

lemma set_hm_insert: "set (hm_insert k v m) \<subseteq> insert (k, v) (set m)"
  by (induction m) auto

lemma overlay_wf_insert:
  "overlay_wf ov \<Longrightarrow> entry_ok (k, v) \<Longrightarrow> hm_get ov k \<noteq> None \<or> length ov < MAX_OVERLAY_ENTRIES \<Longrightarrow>
     overlay_wf (hm_insert k v ov)"
  using set_hm_insert [of k v ov] by (auto simp: overlay_wf_def length_hm_insert)

lemma record_change_simps [simp]:
  "base_storage (record_change c s) = base_storage s" "overlay (record_change c s) = overlay s"
  "undo_log (record_change c s) = undo_log s @ [c]" "events (record_change c s) = events s"
  "unique_objects (record_change c s) = unique_objects s"
  by (simp_all add: record_change_def Let_def)

lemma exec_state_new_wf: "exec_state_wf (exec_state_new base)" "maxima_ok (exec_state_new base)"
  by (simp_all add: exec_state_wf_def exec_state_new_def overlay_wf_def maxima_ok_def)

lemma exec_state_wf_metrics [simp]: "exec_state_wf (s\<lparr>metrics := m\<rparr>) = exec_state_wf s"
  by (simp add: exec_state_wf_def)

lemma exec_state_wf_get: "exec_state_wf s \<Longrightarrow> exec_state_wf (snd (get key s))"
  by (auto simp: get_def Let_def exec_state_wf_def split: option.splits sum.splits)

lemma exec_state_wf_set: "exec_state_wf s \<Longrightarrow> exec_state_wf (snd (set_op key value s))"
  by (auto simp: set_op_def exec_state_wf_def entry_ok_def split: option.splits
      intro!: overlay_wf_insert)

lemma exec_state_wf_remove: "exec_state_wf s \<Longrightarrow> exec_state_wf (snd (remove_op key s))"
  by (auto simp: remove_op_def exec_state_wf_def entry_ok_def split: option.splits
      intro!: overlay_wf_insert)

lemma exec_state_wf_emit: "exec_state_wf s \<Longrightarrow> exec_state_wf (snd (emit_event ev s))"
  by (auto simp: emit_event_def exec_state_wf_def)

lemma exec_state_wf_unique [simp]: "exec_state_wf (snd (next_unique_object_id s)) = exec_state_wf s"
  by (simp add: next_unique_object_id_def exec_state_wf_def Let_def)

lemma exec_state_wf_pop: "exec_state_wf s \<Longrightarrow> exec_state_wf (snd (pop_events s))"
  by (simp add: pop_events_def exec_state_wf_def)

lemma maxima_ok_record_change:
  "length (overlay s) \<le> Suc (overlay_len_max (metrics s)) \<Longrightarrow>
   length (undo_log s) \<le> undo_log_len_max (metrics s) \<Longrightarrow> maxima_ok (record_change c s)"
  by (simp add: maxima_ok_def record_change_def Let_def update_overlay_max_def
      update_undo_log_max_def inc_storage_writes_def)

section \<open>The logical contents\<close>

definition logical_get :: "exec_state \<Rightarrow> bytes \<Rightarrow> error_code + message option" where
  "logical_get s key =
     (case hm_get (overlay s) key of
        Some v \<Rightarrow> Inr v
      | None \<Rightarrow> bind_result (base_storage s key) (\<lambda>v. Inr (map_option message_from_bytes v)))"

lemma logical_get_metrics [simp]: "logical_get (s\<lparr>metrics := m\<rparr>) = logical_get s"
  by (rule ext) (simp add: logical_get_def split: option.splits)

lemma get_logical:
  "get key s = (of_result (logical_get s key), s\<lparr>metrics := inc_storage_reads (metrics s)\<rparr>)"
  by (auto simp: get_def logical_get_def Let_def bind_result_def split: option.splits sum.splits)

lemma set_op_cases:
  "set_op key value s =
     (if length key > MAX_KEY_SIZE then (Err ERR_KEY_TOO_LARGE, s)
      else if message_len value > MAX_VALUE_SIZE then (Err ERR_VALUE_TOO_LARGE, s)
      else if hm_get (overlay s) key = None \<and> length (overlay s) \<ge> MAX_OVERLAY_ENTRIES
      then (Err ERR_OVERLAY_SIZE_EXCEEDED, s)
      else (Ok (), record_change (SetChange key (hm_get (overlay s) key \<noteq> None) (hm_get (overlay s) key))
                     (s\<lparr>overlay := hm_insert key (Some value) (overlay s)\<rparr>)))"
  by (auto simp: set_op_def split: option.splits)

lemma remove_op_cases:
  "remove_op key s =
     (if length key > MAX_KEY_SIZE then (Err ERR_KEY_TOO_LARGE, s)
      else if hm_get (overlay s) key = None \<and> length (overlay s) \<ge> MAX_OVERLAY_ENTRIES
      then (Err ERR_OVERLAY_SIZE_EXCEEDED, s)
      else (Ok (), record_change (RemoveChange key (hm_get (overlay s) key \<noteq> None) (hm_get (overlay s) key))
                     (s\<lparr>overlay := hm_insert key None (overlay s)\<rparr>)))"
  by (auto simp: remove_op_def split: option.splits)

lemma set_op_logical:
  "set_op key value s = (Ok (), s') \<Longrightarrow> logical_get s' = (logical_get s)(key := Inr (Some value))"
  by (rule ext) (auto simp: set_op_cases logical_get_def split: if_splits option.splits)

lemma remove_op_logical:
  "remove_op key s = (Ok (), s') \<Longrightarrow> logical_get s' = (logical_get s)(key := Inr None)"
  by (rule ext) (auto simp: remove_op_cases logical_get_def split: if_splits option.splits)

lemma set_op_Err: "set_op key value s = (r, s') \<Longrightarrow> r \<noteq> Ok () \<Longrightarrow> s' = s \<and> (\<exists>e. r = Err e)"
  by (auto simp: set_op_cases split: if_splits)

lemma remove_op_Err: "remove_op key s = (r, s') \<Longrightarrow> r \<noteq> Ok () \<Longrightarrow> s' = s \<and> (\<exists>e. r = Err e)"
  by (auto simp: remove_op_cases split: if_splits)

section \<open>Rolling back\<close>

text \<open>\<open>rollbackable s s'\<close>: \<open>s'\<close> came from \<open>s\<close> by logged changes, so that undoing the part of the log
  that \<open>s\<close> does not have gives back exactly the overlay of \<open>s\<close>.\<close>

definition rollbackable :: "exec_state \<Rightarrow> exec_state \<Rightarrow> bool" where
  "rollbackable s s' \<longleftrightarrow>
     base_storage s' = base_storage s \<and>
     (\<exists>log. undo_log s' = undo_log s @ log \<and> foldr revert log (overlay s') = overlay s) \<and>
     (\<exists>evs. events s' = events s @ evs)"

lemma rollbackable_refl [simp]: "rollbackable s s"
  by (simp add: rollbackable_def)

lemma rollbackable_trans: "rollbackable a b \<Longrightarrow> rollbackable b c \<Longrightarrow> rollbackable a c"
  unfolding rollbackable_def by (elim conjE exE) (intro conjI exI, auto)

lemma rollbackable_metrics [simp]: "rollbackable s (s'\<lparr>metrics := m\<rparr>) = rollbackable s s'"
  by (simp add: rollbackable_def)

lemma rollbackable_get [simp]: "rollbackable s (snd (get key s))"
  by (simp add: get_logical)

lemma rollbackable_set [simp]: "rollbackable s (snd (set_op key value s))"
  by (cases "hm_get (overlay s) key")
    (auto simp: set_op_def rollbackable_def hm_insert_same hm_remove_insert_fresh)

lemma rollbackable_remove [simp]: "rollbackable s (snd (remove_op key s))"
  by (cases "hm_get (overlay s) key")
    (auto simp: remove_op_def rollbackable_def hm_insert_same hm_remove_insert_fresh)

lemma rollbackable_emit [simp]: "rollbackable s (snd (emit_event ev s))"
  by (simp add: emit_event_def rollbackable_def)

lemma rollbackable_unique [simp]: "rollbackable s (snd (next_unique_object_id s))"
  by (simp add: next_unique_object_id_def rollbackable_def Let_def)

lemma restore_loop_append: "restore_loop (length log) (log @ rest) ov = (log, foldr revert rest ov)"
  by (induction rest arbitrary: ov rule: rev_induct)
    (simp_all add: restore_loop.simps [of _ _ ov for ov] butlast_append)

text \<open>Restoring gives back every field of the checkpointed state but the metrics.\<close>

lemma restore_checkpoint:
  assumes "rollbackable s s'"
  shows "restore (fst (checkpoint s)) s' =
    (Ok (), s\<lparr>metrics := inc_restores (metrics s')\<rparr>)"
proof -
  from assms obtain log evs where log: "undo_log s' = undo_log s @ log"
    "foldr revert log (overlay s') = overlay s" and evs: "events s' = events s @ evs"
    and base: "base_storage s' = base_storage s" unfolding rollbackable_def by blast
  show ?thesis
    by (simp add: restore_def checkpoint_def log evs base restore_loop_append)
qed

section \<open>A batch and its operations one by one\<close>

definition apply_one :: "batch_operation \<Rightarrow> (exec_state, error_code, unit) comp" where
  "apply_one op = (case bo_operation op of
     BatchSet value \<Rightarrow> set_op (bo_key op) value | BatchRemove \<Rightarrow> remove_op (bo_key op))"

fun apply_sequentially :: "batch_operation list \<Rightarrow> (exec_state, error_code, unit) comp" where
  "apply_sequentially [] = ret ()"
| "apply_sequentially (op # ops) = andThen (apply_one op) (\<lambda>_. apply_sequentially ops)"

definition bump_maxima :: "exec_state \<Rightarrow> exec_state" where
  "bump_maxima s = s\<lparr>metrics := update_overlay_max (length (overlay s))
                                  (update_undo_log_max (length (undo_log s)) (metrics s))\<rparr>"

lemma update_overlay_max_eq: "update_overlay_max v m = m\<lparr>overlay_len_max := max (overlay_len_max m) v\<rparr>"
  by (cases m) (simp add: update_overlay_max_def max_def)

lemma update_undo_log_max_eq: "update_undo_log_max v m = m\<lparr>undo_log_len_max := max (undo_log_len_max m) v\<rparr>"
  by (cases m) (simp add: update_undo_log_max_def max_def)

lemma bump_maxima_id: "maxima_ok s \<Longrightarrow> bump_maxima s = s"
  by (cases s) (simp add: bump_maxima_def maxima_ok_def update_overlay_max_def update_undo_log_max_def)

lemma apply_one_bump:
  assumes "length (bo_key op) \<le> MAX_KEY_SIZE"
    and "case bo_operation op of BatchSet v \<Rightarrow> message_len v \<le> MAX_VALUE_SIZE | BatchRemove \<Rightarrow> True"
    and "hm_get (overlay s) (bo_key op) = None \<Longrightarrow> length (overlay s) < MAX_OVERLAY_ENTRIES"
  shows "apply_one op (bump_maxima s) = (Ok (), bump_maxima (batch_step op s))"
proof (cases s)
  case (fields base ov log evs uniq m)
  then show ?thesis using assms
    by (cases "bo_operation op"; cases "hm_get ov (bo_key op)"; cases m)
      (auto simp: apply_one_def batch_step_def bump_maxima_def set_op_def remove_op_def
        record_change_def Let_def update_overlay_max_eq update_undo_log_max_eq
        inc_storage_writes_def length_hm_insert max_def)
qed

lemma batch_validate_ge: "batch_validate ov n ops = Inr m \<Longrightarrow> n \<le> m"
  by (induction ov n ops rule: batch_validate.induct)
    (auto simp: Let_def split: if_splits batch_op.splits dest: Suc_leD)

lemma overlay_batch_step:
  "\<exists>v. overlay (batch_step op s) = hm_insert (bo_key op) v (overlay s)"
  by (auto simp: batch_step_def Let_def split: batch_op.splits)

lemma apply_sequentially_fold:
  "batch_validate ov n ops = Inr m \<Longrightarrow> length (overlay s) + (m - n) \<le> MAX_OVERLAY_ENTRIES \<Longrightarrow>
     dom (map_of ov) \<subseteq> dom (map_of (overlay s)) \<Longrightarrow>
     apply_sequentially ops (bump_maxima s) = (Ok (), bump_maxima (fold batch_step ops s))"
proof (induction ov n ops arbitrary: s rule: batch_validate.induct)
  case (1 ov n)
  then show ?case by (simp add: ret_def)
next
  case (2 ov n op ops)
  let ?n = "if hm_get ov (bo_key op) = None then n + 1 else n"
  obtain v where v: "overlay (batch_step op s) = hm_insert (bo_key op) v (overlay s)"
    using overlay_batch_step by blast
  from "2.prems"(1) have ok: "length (bo_key op) \<le> MAX_KEY_SIZE"
    "case bo_operation op of BatchSet v \<Rightarrow> message_len v \<le> MAX_VALUE_SIZE | BatchRemove \<Rightarrow> True"
    and rest: "batch_validate ov ?n ops = Inr m"
    by (auto simp: Let_def split: if_splits batch_op.splits)
  from batch_validate_ge [OF rest] have le: "?n \<le> m" .
  have fresh: "hm_get (overlay s) (bo_key op) = None \<Longrightarrow> hm_get ov (bo_key op) = None"
    using "2.prems"(3) by (metis domIff subsetD)
  with "2.prems"(2) le have one:
    "apply_one op (bump_maxima s) = (Ok (), bump_maxima (batch_step op s))"
    by (intro apply_one_bump [OF ok]) auto
  have "length (overlay (batch_step op s)) + (m - ?n) \<le> MAX_OVERLAY_ENTRIES"
    using "2.prems"(2) le fresh by (auto simp: v length_hm_insert split: if_splits)
  moreover have "dom (map_of ov) \<subseteq> dom (map_of (overlay (batch_step op s)))"
    using "2.prems"(3) by (auto simp: v)
  ultimately have "apply_sequentially ops (bump_maxima (batch_step op s)) =
      (Ok (), bump_maxima (fold batch_step ops (batch_step op s)))"
    using "2.IH" [OF _ refl] ok(1) ok(2) rest
    by (cases "bo_operation op") (auto simp: not_less)
  then show ?case by (simp add: andThen_def one)
qed

section \<open>The order of the changes\<close>

fun core_of :: "bytes \<times> message option \<Rightarrow> core_state_change" where
  "core_of (key, Some (OwnedBytes b)) = CSet key b"
| "core_of (key, None) = CRemove key"

lemma collect_result_map_Inr: "collect_result (map (\<lambda>x. Inr (f x)) xs) = Inr (map f xs)"
  by (induction xs) simp_all

lemma to_core_change_core_of: "to_core_change = (\<lambda>e. Inr (core_of e))"
proof (rule ext)
  show "to_core_change e = Inr (core_of e)" for e by (cases e rule: core_of.cases) simp_all
qed

lemma change_key_core_of [simp]: "change_key (core_of e) = fst e"
  by (cases e rule: core_of.cases) simp_all

lemma into_changes_eq: "into_changes s = Inr (sort_key change_key (map core_of (overlay s)))"
  by (simp add: into_changes_def to_core_change_core_of collect_result_map_Inr)

lemma into_changes_sorted:
  assumes "hm_wf (overlay s)" and "into_changes s = Inr cs"
  shows "sorted (map change_key cs)" "distinct (map change_key cs)"
    "set cs = core_of ` set (overlay s)"
proof -
  have cs: "cs = sort_key change_key (map core_of (overlay s))"
    using assms(2) by (simp add: into_changes_eq)
  show "sorted (map change_key cs)" "set cs = core_of ` set (overlay s)" by (simp_all add: cs)
  have "map change_key (map core_of (overlay s)) = map fst (overlay s)" by (simp add: comp_def)
  with assms(1) have "distinct (map change_key (map core_of (overlay s)))" by metis
  then show "distinct (map change_key cs)" unfolding cs
    by (metis distinct_map distinct_sort set_sort)
qed

lemma map_of_eq_set_eq:
  "hm_wf xs \<Longrightarrow> hm_wf ys \<Longrightarrow> map_of xs = map_of ys \<Longrightarrow> set xs = set ys"
  by (metis map_of_inject_set)

text \<open>The list does not depend on the hash map's iteration order, only on the map.\<close>

lemma into_changes_order_independent:
  assumes wf: "hm_wf (overlay s)" "hm_wf (overlay t)" and eq: "map_of (overlay s) = map_of (overlay t)"
  shows "into_changes s = into_changes t"
proof -
  obtain cs ds where cs: "into_changes s = Inr cs" and ds: "into_changes t = Inr ds"
    by (simp add: into_changes_eq)
  note s = into_changes_sorted [OF wf(1) cs] and t = into_changes_sorted [OF wf(2) ds]
  have "set cs = set ds" using map_of_eq_set_eq [OF wf eq] s(3) t(3) by simp
  moreover have "inj_on change_key (set cs \<union> set ds)"
    using s(2) calculation by (simp add: distinct_map)
  ultimately have "cs = ds" using map_sorted_distinct_set_unique [of change_key cs ds] s t by blast
  with cs ds show ?thesis by simp
qed

text \<open>Applying the changes to the contents of the base store gives the logical contents.\<close>

fun apply_change :: "core_state_change \<Rightarrow> (bytes \<rightharpoonup> bytes) \<Rightarrow> (bytes \<rightharpoonup> bytes)" where
  "apply_change (CSet key value) m = m(key \<mapsto> value)"
| "apply_change (CRemove key) m = m(key := None)"

lemma apply_change_other: "change_key c \<noteq> k \<Longrightarrow> apply_change c m k = m k"
  by (cases c) simp_all

lemma fold_apply_change_other: "k \<notin> change_key ` set cs \<Longrightarrow> fold apply_change cs m k = m k"
  by (induction cs arbitrary: m) (auto simp: apply_change_other)

lemma fold_apply_change:
  "distinct (map change_key cs) \<Longrightarrow> c \<in> set cs \<Longrightarrow>
     fold apply_change cs m (change_key c) = (case c of CSet k v \<Rightarrow> Some v | CRemove k \<Rightarrow> None)"
proof (induction cs arbitrary: m)
  case (Cons d cs)
  show ?case
  proof (cases "c = d")
    case True
    with Cons.prems(1) have "change_key c \<notin> change_key ` set cs" by simp
    from fold_apply_change_other [OF this, of "apply_change d m"] True show ?thesis
      by (cases d) simp_all
  qed (use Cons in auto)
qed simp

lemma into_changes_apply:
  assumes wf: "hm_wf (overlay s)" and base: "base_storage s = (\<lambda>k. Inr (m k))"
    and cs: "into_changes s = Inr cs"
  shows "logical_get s k = Inr (map_option message_from_bytes (fold apply_change cs m k))"
proof (cases "hm_get (overlay s) k")
  case None
  note sorted = into_changes_sorted [OF wf cs]
  have "k \<notin> change_key ` set cs" using None by (auto simp: sorted(3) image_image hm_get_None_iff)
  then show ?thesis using None base by (simp add: logical_get_def fold_apply_change_other)
next
  case (Some v)
  note sorted = into_changes_sorted [OF wf cs]
  from Some have "core_of (k, v) \<in> set cs" by (auto simp: sorted(3) dest: map_of_SomeD)
  from fold_apply_change [OF sorted(2) this, of m] Some show ?thesis
    by (cases "(k, v)" rule: core_of.cases) (simp_all add: logical_get_def message_from_bytes_def)
qed

section \<open>Sequences of operations\<close>

text \<open>What a caller can do with a state between a checkpoint and its restore, errors included: reads,
  writes, batches, events, identifiers, and inner checkpoints that are kept or restored.\<close>

datatype state_op =
  OpGet bytes
| OpSet bytes message
| OpRemove bytes
| OpBatch "batch_operation list"
| OpEmit event
| OpUnique
| OpKeep "state_op list"
| OpUndo "state_op list"

fun run_op :: "state_op \<Rightarrow> exec_state \<Rightarrow> exec_state"
  and run_ops :: "state_op list \<Rightarrow> exec_state \<Rightarrow> exec_state" where
  "run_op (OpGet k) s = snd (get k s)"
| "run_op (OpSet k v) s = snd (set_op k v s)"
| "run_op (OpRemove k) s = snd (remove_op k s)"
| "run_op (OpBatch ops) s = snd (apply_batch ops s)"
| "run_op (OpEmit ev) s = snd (emit_event ev s)"
| "run_op OpUnique s = snd (next_unique_object_id s)"
| "run_op (OpKeep ops) s = run_ops ops (snd (checkpoint s))"
| "run_op (OpUndo ops) s =
     (case checkpoint s of (cp, s') \<Rightarrow> snd (restore cp (run_ops ops s')))"
| "run_ops [] s = s"
| "run_ops (op # ops) s = run_ops ops (run_op op s)"

lemma rollbackable_batch_step: "rollbackable s (batch_step op s)"
  by (cases "hm_get (overlay s) (bo_key op)"; cases "bo_operation op")
    (auto simp: batch_step_def Let_def rollbackable_def hm_insert_same hm_remove_insert_fresh)

lemma rollbackable_fold_batch: "rollbackable s (fold batch_step ops s)"
  by (induction ops arbitrary: s) (auto intro: rollbackable_trans rollbackable_batch_step)

lemma rollbackable_batch: "rollbackable s (snd (apply_batch ops s))"
  by (auto simp: apply_batch_def Let_def rollbackable_fold_batch split: sum.splits)

lemma rollbackable_checkpoint: "rollbackable s (snd (checkpoint s))"
  by (simp add: checkpoint_def)

lemma restore_after:
  assumes "checkpoint s = (cp, s')" and "rollbackable s' t"
  shows "restore cp t = (Ok (), s\<lparr>metrics := inc_restores (metrics t)\<rparr>)"
  using restore_checkpoint [of s t] rollbackable_trans [OF rollbackable_checkpoint] assms
  by (metis fst_conv snd_conv)

lemma rollbackable_run: "rollbackable s (run_op op s)" "rollbackable s (run_ops ops s)"
proof (induction op s and ops s rule: run_op_run_ops.induct)
  case (7 ops s)
  then show ?case using rollbackable_trans [OF rollbackable_checkpoint] by simp
next
  case (8 ops s)
  obtain cp s' where cp: "checkpoint s = (cp, s')" by fastforce
  from restore_after [OF cp "8.IH" [OF cp [symmetric]]] cp show ?case by simp
qed (auto simp: rollbackable_batch intro: rollbackable_trans)

lemma exec_state_wf_batch: "exec_state_wf s \<Longrightarrow> exec_state_wf (snd (apply_batch ops s))"
proof (cases "apply_batch ops s")
  fix r s'
  assume wf: "exec_state_wf s" and ab: "apply_batch ops s = (r, s')"
  show ?thesis
  proof (cases "r = Ok ()")
    case False
    with ab have "s' = s" by (auto simp: apply_batch_def Let_def split: sum.splits if_splits)
    with wf ab show ?thesis by simp
  next
    case True
    then obtain m where v: "batch_validate (overlay s) 0 ops = Inr m"
      "length (overlay s) + m \<le> MAX_OVERLAY_ENTRIES" "s' = bump_maxima (fold batch_step ops s)"
      using ab by (auto simp: apply_batch_def bump_maxima_def Let_def split: sum.splits if_splits)
    from apply_sequentially_fold [OF v(1)] v(2,3)
    have seq: "apply_sequentially ops (bump_maxima s) = (Ok (), s')" by simp
    have one: "exec_state_wf t \<Longrightarrow> exec_state_wf (snd (apply_one op t))" for op t
      by (simp add: apply_one_def exec_state_wf_set exec_state_wf_remove split: batch_op.splits)
    have "exec_state_wf t \<Longrightarrow> exec_state_wf (snd (apply_sequentially ops t))" for t
    proof (induction ops arbitrary: t)
      case (Cons op ops)
      then show ?case using one [of t op]
        by (auto simp: andThen_def split: prod.splits outcome.splits)
    qed (simp add: ret_def)
    from this [of "bump_maxima s"] wf seq ab show ?thesis by (simp add: bump_maxima_def)
  qed
qed

lemma exec_state_wf_run:
  "exec_state_wf s \<Longrightarrow> exec_state_wf (run_op op s)" "exec_state_wf s \<Longrightarrow> exec_state_wf (run_ops ops s)"
proof (induction op s and ops s rule: run_op_run_ops.induct)
  case (7 ops s)
  then show ?case by (simp add: checkpoint_def)
next
  case (8 ops s)
  obtain cp s' where cp: "checkpoint s = (cp, s')" by fastforce
  from restore_after [OF cp rollbackable_run(2)] cp "8.prems" show ?case by simp
qed (auto simp: exec_state_wf_get exec_state_wf_set exec_state_wf_remove exec_state_wf_emit exec_state_wf_batch)

section \<open>Properties\<close>

text \<open>C2. Restoring a checkpoint succeeds and brings back the overlay, the undo log, the events and the
  identifier counter exactly as they were, whatever operations, batches and inner checkpoints came in
  between; only the metrics keep counting.\<close>

theorem restore_undoes_everything:
  "restore (fst (checkpoint s)) (run_ops ops (snd (checkpoint s))) =
     (Ok (), s\<lparr>metrics := inc_restores (metrics (run_ops ops (snd (checkpoint s))))\<rparr>)"
  by (rule restore_after [OF prod.collapse [symmetric] rollbackable_run(2)])

text \<open>C6. The security limits of an execution hold after any sequence of operations from a fresh state:
  distinct overlay keys, at most 100,000 of them and 10,000 events, keys of at most 254 bytes and
  values of at most one megabyte.\<close>

theorem limits_always_hold: "exec_state_wf (run_ops ops (exec_state_new base))"
  by (rule exec_state_wf_run(2) [OF exec_state_new_wf(1)])

text \<open>C3. A successful write is what the next read returns and leaves every other key alone; a
  successful removal reads as absent; a refused operation changes nothing.\<close>

theorem overlay_refines_map:
  "(case set_op key value s of
      (Ok _, s') \<Rightarrow> logical_get s' = (logical_get s)(key := Inr (Some value))
    | (_, s') \<Rightarrow> s' = s) \<and>
   (case remove_op key s of
      (Ok _, s') \<Rightarrow> logical_get s' = (logical_get s)(key := Inr None)
    | (_, s') \<Rightarrow> s' = s) \<and>
   fst (get k s) = of_result (logical_get s k) \<and> logical_get (snd (get k s)) = logical_get s"
  using set_op_logical [of key "value" s] set_op_Err [of key "value" s]
    remove_op_logical [of key s] remove_op_Err [of key s]
  by (auto simp: get_logical split: prod.splits outcome.splits)

text \<open>C4. A batch that is accepted leaves exactly the state that its operations leave one by one, undo
  records and metrics included.\<close>

theorem apply_batch_sequential:
  assumes "maxima_ok s" and "apply_batch ops s = (Ok (), s')"
  shows "apply_sequentially ops s = (Ok (), s')"
proof -
  from assms(2) obtain m where "batch_validate (overlay s) 0 ops = Inr m"
    "length (overlay s) + m \<le> MAX_OVERLAY_ENTRIES" "s' = bump_maxima (fold batch_step ops s)"
    by (auto simp: apply_batch_def bump_maxima_def Let_def split: sum.splits if_splits)
  with apply_sequentially_fold [of "overlay s" 0 ops m s] show ?thesis
    by (simp add: bump_maxima_id [OF assms(1)])
qed

theorem apply_batch_sequential_witness:
  "apply_sequentially [\<lparr>bo_key = [1], bo_operation = BatchSet (OwnedBytes [7])\<rparr>,
       \<lparr>bo_key = [1], bo_operation = BatchRemove\<rparr>] (exec_state_new (\<lambda>_. Inr None)) =
     (Ok (), snd (apply_batch [\<lparr>bo_key = [1], bo_operation = BatchSet (OwnedBytes [7])\<rparr>,
       \<lparr>bo_key = [1], bo_operation = BatchRemove\<rparr>] (exec_state_new (\<lambda>_. Inr None))))"
  by (rule apply_batch_sequential)
    (simp_all add: maxima_ok_def exec_state_new_def metrics_default_def apply_batch_def
      MAX_KEY_SIZE_def MAX_STORAGE_KEY_SIZE_def MAX_VALUE_SIZE_def MAX_OVERLAY_ENTRIES_def Let_def)

text \<open>C5. The changes of an execution come out sorted by key without repetitions, do not depend on the
  iteration order of the overlay's hash map, and applied to the contents of the base store give the
  contents that the execution saw.\<close>

theorem into_changes_deterministic:
  assumes "hm_wf (overlay s)" and "hm_wf (overlay t)" and "map_of (overlay s) = map_of (overlay t)"
    and "base_storage s = (\<lambda>k. Inr (m k))"
  shows "into_changes s = into_changes t \<and>
    (\<exists>cs. into_changes s = Inr cs \<and> sorted (map change_key cs) \<and> distinct (map change_key cs) \<and>
      (\<forall>k. logical_get s k = Inr (map_option message_from_bytes (fold apply_change cs m k))))"
proof -
  obtain cs where cs: "into_changes s = Inr cs" by (simp add: into_changes_eq)
  from into_changes_order_independent [OF assms(1-3)] into_changes_sorted [OF assms(1) cs]
    into_changes_apply [OF assms(1,4) cs] cs show ?thesis by blast
qed

definition example_state :: exec_state where
  "example_state = (exec_state_new (\<lambda>k. Inr (if k = [3] then Some [9] else None)))
     \<lparr>overlay := [([2], Some (OwnedBytes [5])), ([1], None)]\<rparr>"

theorem into_changes_deterministic_witness:
  "into_changes example_state = into_changes (example_state\<lparr>overlay := rev (overlay example_state)\<rparr>) \<and>
   into_changes example_state = Inr [CRemove [1], CSet [2] [5]] \<and>
   logical_get example_state [3] = Inr (Some (OwnedBytes [9]))"
proof -
  let ?t = "example_state\<lparr>overlay := rev (overlay example_state)\<rparr>"
  have eq: "into_changes example_state = Inr [CRemove [1], CSet [2] [5]]"
    by (simp add: into_changes_eq example_state_def exec_state_new_def)
  have "map_of (overlay example_state) = map_of (overlay ?t)"
    by (rule ext) (simp add: example_state_def)
  with into_changes_deterministic [of example_state ?t "\<lambda>k. if k = [3] then Some [9] else None"] eq
  show ?thesis
    by (auto simp: example_state_def exec_state_new_def logical_get_def message_from_bytes_def)
qed

end
