(* ===== verification/Invoker.thy ===== *)
theory Invoker
  imports Exec_State Scope_Validation Sdk_Env
begin

text \<open>
  The invoker (\<open>crates/app/stf/src/invoker.rs\<close>), the handlers of the runtime and storage accounts
  (\<open>handlers.rs\<close>) and the account registry (\<open>runtime_api_impl.rs\<close>). The part of an \<open>Invoker\<close> that a
  call copies is the record \<open>ctx\<close>; what it borrows mutably is the \<open>world\<close>. A call that reaches the
  code of another account runs that account's tree with the same handlers at the next depth; the
  fuel of \<open>do_exec\<close> and \<open>do_query\<close> counts these nested calls.
\<close>

section \<open>State\<close>

record ctx =
  whoami :: account_id
  sender :: account_id
  funds :: "fungible_asset list"
  scope :: execution_scope
  call_depth :: u16
  block :: block_context

record world =
  w_state :: exec_state
  w_gas :: gas_counter

definition MAX_CALL_DEPTH :: u16 where "MAX_CALL_DEPTH = 64"

definition view_of :: "ctx \<Rightarrow> env_view" where
  "view_of c = \<lparr>env_whoami = whoami c, env_sender = sender c, env_funds = funds c, env_block = block c\<rparr>"

definition on_state :: "(exec_state, error_code, 'a) comp \<Rightarrow> (world, error_code, 'a) comp" where
  "on_state m w = (case m (w_state w) of (r, s) \<Rightarrow> (r, w\<lparr>w_state := s\<rparr>))"

definition on_gas :: "(gas_counter, error_code, 'a) comp \<Rightarrow> (world, error_code, 'a) comp" where
  "on_gas m w = (case m (w_gas w) of (r, g) \<Rightarrow> (r, w\<lparr>w_gas := g\<rparr>))"

text \<open>A call whose result, error or not, is handed to the code that made it.\<close>

definition attempt :: "('s, 'e, 'a) comp \<Rightarrow> ('e + 'a \<Rightarrow> ('s, 'e, 'b) comp) \<Rightarrow> ('s, 'e, 'b) comp" where
  "attempt m f s =
     (case m s of
        (Ok a, s') \<Rightarrow> f (Inr a) s'
      | (Err e, s') \<Rightarrow> f (Inl e) s'
      | (Panic, s') \<Rightarrow> (Panic, s')
      | (OutOfFuel, s') \<Rightarrow> (OutOfFuel, s'))"

definition unwind :: "('s, 'e, 'a) comp" where
  "unwind s = (Panic, s)"

section \<open>Contexts\<close>

definition new_for_end_block :: "block_context \<Rightarrow> ctx" where
  "new_for_end_block b = \<lparr>whoami = RUNTIME_ACCOUNT_ID, sender = account_invalid, funds = [],
     scope = EndBlock (bc_height b), call_depth = 0, block = b\<rparr>"

definition new_for_begin_block :: "block_context \<Rightarrow> ctx" where
  "new_for_begin_block b = \<lparr>whoami = RUNTIME_ACCOUNT_ID, sender = account_invalid, funds = [],
     scope = BeginBlock (bc_height b), call_depth = 0, block = b\<rparr>"

definition new_for_query_with_context ::
    "account_id \<Rightarrow> account_id \<Rightarrow> fungible_asset list \<Rightarrow> block_context \<Rightarrow> ctx" where
  "new_for_query_with_context recipient from fs b = \<lparr>whoami = recipient, sender = from, funds = fs,
     scope = QueryScope, call_depth = 0, block = b\<rparr>"

definition new_for_query :: "account_id \<Rightarrow> ctx" where
  "new_for_query recipient =
     new_for_query_with_context recipient RUNTIME_ACCOUNT_ID [] block_context_default"

definition new_for_validate_tx :: "bytes \<Rightarrow> block_context \<Rightarrow> ctx" where
  "new_for_validate_tx tx_identifier b = \<lparr>whoami = account_invalid, sender = RUNTIME_ACCOUNT_ID,
     funds = [], scope = TransactionScope tx_identifier, call_depth = 0, block = b\<rparr>"

definition branch_query :: "ctx \<Rightarrow> account_id \<Rightarrow> ctx" where
  "branch_query c who = c\<lparr>whoami := who, sender := RUNTIME_ACCOUNT_ID, funds := [],
     call_depth := saturating_add (call_depth c) 1\<rparr>"

definition branch_exec :: "ctx \<Rightarrow> account_id \<Rightarrow> fungible_asset list \<Rightarrow> ctx" where
  "branch_exec c to fs = c\<lparr>whoami := to, sender := whoami c, funds := fs,
     call_depth := saturating_add (call_depth c) 1\<rparr>"

definition into_new_exec :: "ctx \<Rightarrow> account_id \<Rightarrow> ctx" where
  "into_new_exec c new_sender = c\<lparr>whoami := new_sender, sender := account_invalid, funds := []\<rparr>"

section \<open>The account registry\<close>

definition INITIAL_ACCOUNT_NUMBER :: u64 where "INITIAL_ACCOUNT_NUMBER = 65535"

definition get_account_code_identifier_for_account_key :: "account_id \<Rightarrow> bytes" where
  "get_account_code_identifier_for_account_key account = ACCOUNT_IDENTIFIER_PREFIX # account"

definition get_account_code_identifier_for_account ::
    "host \<Rightarrow> account_id \<Rightarrow> (exec_state, error_code, string option) comp" where
  "get_account_code_identifier_for_account H account =
     andThen (get (get_account_code_identifier_for_account_key account))
       (\<lambda>code_id. case code_id of
          None \<Rightarrow> ret None
        | Some code_id \<Rightarrow>
            andThen (lift_result (message_get (h_string H) code_id)) (\<lambda>s. ret (Some s)))"

definition set_account_code_identifier_for_account ::
    "host \<Rightarrow> account_id \<Rightarrow> string \<Rightarrow> (exec_state, error_code, unit) comp" where
  "set_account_code_identifier_for_account H account account_identifier =
     andThen (lift_result (message_new (h_string H) account_identifier))
       (set_op (get_account_code_identifier_for_account_key account))"

definition next_account_number :: "host \<Rightarrow> (exec_state, error_code, account_id) comp" where
  "next_account_number H =
     (let key = [ACCOUNT_IDENTIFIER_SINGLETON_PREFIX] in
      andThen (get key) (\<lambda>v.
      andThen (lift_result (case v of
                 None \<Rightarrow> Inr (account_from_u64 INITIAL_ACCOUNT_NUMBER)
               | Some msg \<Rightarrow> message_get (h_account_id H) msg)) (\<lambda>last.
      andThen (lift_result (message_new (h_account_id H) (account_increase last))) (\<lambda>m.
      andThen (set_op key m) (\<lambda>_.
      ret last)))))"

section \<open>Storage and runtime handlers\<close>

definition storage_key :: "account_id \<Rightarrow> bytes \<Rightarrow> bytes" where
  "storage_key account key = ACCOUNT_STORAGE_PREFIX # account @ key"

definition handle_system_query :: "invoke_request \<Rightarrow> (world, error_code, invoke_response) comp" where
  "handle_system_query request = fail ERR_UNKNOWN_FUNCTION"

definition handle_storage_query :: "host \<Rightarrow> invoke_request \<Rightarrow> (world, error_code, invoke_response) comp" where
  "handle_storage_query H request =
     (if req_function request = FUNCTION_IDENTIFIER (StorageGetRequest H) then
        andThen (lift_result (invoke_request_get (h_storage_get_request H) request)) (\<lambda>storage_get.
        let key = storage_key (sg_account_id storage_get) (sg_key storage_get) in
        andThen (on_state (get key)) (\<lambda>value.
        andThen (on_gas (consume_get_gas key value)) (\<lambda>_.
        lift_result (response_new (h_storage_get_response H) \<lparr>sg_value = value\<rparr>))))
      else fail ERR_UNKNOWN_FUNCTION)"

definition handle_storage_exec ::
    "host \<Rightarrow> ctx \<Rightarrow> invoke_request \<Rightarrow> (world, error_code, invoke_response) comp" where
  "handle_storage_exec H c request =
     (if req_function request = FUNCTION_IDENTIFIER (StorageSetRequest H) then
        andThen (lift_result (invoke_request_get (h_storage_set_request H) request)) (\<lambda>storage_set.
        let key = storage_key (whoami c) (ss_key storage_set) in
        andThen (on_gas (consume_set_gas key (ss_value storage_set))) (\<lambda>_.
        andThen (on_state (set_op key (ss_value storage_set))) (\<lambda>_.
        lift_result (response_new (h_unit H) ()))))
      else if req_function request = FUNCTION_IDENTIFIER (StorageRemoveRequest H) then
        andThen (lift_result (invoke_request_get (h_storage_remove_request H) request)) (\<lambda>storage_remove.
        let key = storage_key (whoami c) (sr_key storage_remove) in
        andThen (on_gas (consume_remove_gas key)) (\<lambda>_.
        andThen (on_state (remove_op key)) (\<lambda>_.
        lift_result (response_new (h_unit H) ()))))
      else fail ERR_UNKNOWN_FUNCTION)"

section \<open>Running account code\<close>

definition invoker_emit_event :: "ctx \<Rightarrow> string \<Rightarrow> bytes \<Rightarrow> (world, error_code, unit) comp" where
  "invoker_emit_event c name data =
     andThen (lift_result (validate_event name data)) (\<lambda>_.
     on_state (emit_event \<lparr>ev_source = whoami c, ev_name = name,
                           ev_contents = message_from_bytes data\<rparr>))"

definition invoker_unique_id :: "ctx \<Rightarrow> (world, error_code, bytes) comp" where
  "invoker_unique_id c w =
     (case next_unique_object_id (w_state w) of
        (counter, s) \<Rightarrow> (of_result (unique_id (scope c) counter), w\<lparr>w_state := s\<rparr>))"

type_synonym query_handler = "ctx \<Rightarrow> account_id \<Rightarrow> invoke_request \<Rightarrow> (world, error_code, invoke_response) comp"
type_synonym exec_handler =
  "ctx \<Rightarrow> account_id \<Rightarrow> invoke_request \<Rightarrow> fungible_asset list \<Rightarrow> (world, error_code, invoke_response) comp"

primrec run_query :: "query_handler \<Rightarrow> ctx \<Rightarrow> 'a qprog \<Rightarrow> (world, error_code, 'a) comp" where
  "run_query qu c (QReturn r) = lift_result r"
| "run_query qu c QUnwind = unwind"
| "run_query qu c (QAsk k) = run_query qu c (k (view_of c))"
| "run_query qu c (QQuery to data k) = attempt (qu c to data) (\<lambda>r. run_query qu c (k r))"

primrec run :: "exec_handler \<Rightarrow> query_handler \<Rightarrow> ctx \<Rightarrow> 'a prog \<Rightarrow> (world, error_code, 'a) comp" where
  "run ex qu c (Return r) = lift_result r"
| "run ex qu c Unwind = unwind"
| "run ex qu c (Ask k) = run ex qu c (k (view_of c))"
| "run ex qu c (DoQuery to data k) = attempt (qu c to data) (\<lambda>r. run ex qu c (k r))"
| "run ex qu c (DoExec to data fs k) = attempt (ex c to data fs) (\<lambda>r. run ex qu c (k r))"
| "run ex qu c (EmitEvent name data k) =
     attempt (invoker_emit_event c name data) (\<lambda>r. run ex qu c (k r))"
| "run ex qu c (UniqueId k) = attempt (invoker_unique_id c) (\<lambda>r. run ex qu c (k r))"

text \<open>\<open>account_codes.with_code(code_id, |code| ...)\<close> where a missing code is an error.\<close>

definition with_code ::
    "account_codes \<Rightarrow> string \<Rightarrow> (account_code \<Rightarrow> (world, error_code, 'a) comp) \<Rightarrow> (world, error_code, 'a) comp" where
  "with_code A code_id f =
     andThen (lift_result (A code_id)) (\<lambda>code. case code of
        Some code \<Rightarrow> f code
      | None \<Rightarrow> fail ERR_CODE_NOT_FOUND)"

definition account_code_of :: "host \<Rightarrow> account_id \<Rightarrow> (world, error_code, string) comp" where
  "account_code_of H account =
     andThen (on_state (get_account_code_identifier_for_account H account))
       (\<lambda>code_id. lift_result (ok_or ERR_ACCOUNT_DOES_NOT_EXIST code_id))"

section \<open>Queries\<close>

definition do_query_with :: "host \<Rightarrow> account_codes \<Rightarrow> query_handler \<Rightarrow> query_handler" where
  "do_query_with H A qu c to data =
     (if to = RUNTIME_ACCOUNT_ID then handle_system_query data
      else if to = STORAGE_ACCOUNT_ID then handle_storage_query H data
      else andThen (account_code_of H to) (\<lambda>code_id.
        let invoker = branch_query c to in
        with_code A code_id (\<lambda>code. run_query qu invoker (ac_query code data))))"

primrec do_query :: "host \<Rightarrow> account_codes \<Rightarrow> nat \<Rightarrow> query_handler" where
  "do_query H A 0 = (\<lambda>c to data w. (OutOfFuel, w))"
| "do_query H A (Suc n) = do_query_with H A (do_query H A n)"

section \<open>Executions\<close>

definition create_account ::
    "host \<Rightarrow> account_codes \<Rightarrow> exec_handler \<Rightarrow> query_handler \<Rightarrow> ctx \<Rightarrow> string \<Rightarrow> message \<Rightarrow>
       fungible_asset list \<Rightarrow> (world, error_code, account_id \<times> message) comp" where
  "create_account H A ex qu c code_id msg fs =
     andThen (lift_result (validate_code_id (h_unicode_alphanumeric H) code_id)) (\<lambda>_.
     andThen (on_state (next_account_number H)) (\<lambda>new_account_id.
     andThen (on_state (set_account_code_identifier_for_account H new_account_id code_id)) (\<lambda>_.
     let req = invoke_request_new_from_message ''init'' 0 msg in
     andThen (account_code_of H new_account_id) (\<lambda>stored_code_id.
     let invoker = branch_exec c new_account_id fs in
     andThen (with_code A stored_code_id (\<lambda>code. run ex qu invoker (ac_init code req))) (\<lambda>init_resp.
     ret (new_account_id, response_into_inner init_resp))))))"

definition register_account_at_id ::
    "host \<Rightarrow> account_codes \<Rightarrow> exec_handler \<Rightarrow> query_handler \<Rightarrow> ctx \<Rightarrow> account_id \<Rightarrow> string \<Rightarrow> message \<Rightarrow>
       (world, error_code, unit) comp" where
  "register_account_at_id H A ex qu c account code_id init_msg =
     andThen (on_state (get_account_code_identifier_for_account H account)) (\<lambda>existing.
     if existing \<noteq> None then ret ()
     else
       andThen (lift_result (validate_code_id (h_unicode_alphanumeric H) code_id)) (\<lambda>_.
       let key = ACCOUNT_IDENTIFIER_PREFIX # account in
       andThen (lift_result (message_new (h_string H) code_id)) (\<lambda>code_id_msg.
       andThen (on_gas (consume_set_gas key code_id_msg)) (\<lambda>_.
       andThen (on_state (set_op key code_id_msg)) (\<lambda>_.
       let req = invoke_request_new_from_message ''init'' 0 init_msg;
           invoker = branch_exec c account [] in
       with_code A code_id (\<lambda>code.
         andThen (run ex qu invoker (ac_init code req)) (\<lambda>_. ret ())))))))"

definition handle_system_exec ::
    "host \<Rightarrow> account_codes \<Rightarrow> exec_handler \<Rightarrow> query_handler \<Rightarrow> ctx \<Rightarrow> invoke_request \<Rightarrow>
       fungible_asset list \<Rightarrow> (world, error_code, invoke_response) comp" where
  "handle_system_exec H A ex qu c request fs =
     (if req_function request = FUNCTION_IDENTIFIER (CreateAccountRequest H) then
        andThen (lift_result (invoke_request_get (h_create_account_request H) request)) (\<lambda>req.
        andThen (create_account H A ex qu c (ca_code_id req) (ca_init_message req) fs)
          (\<lambda>(new_account_id, init_response).
        lift_result (response_new (h_create_account_response H)
          \<lparr>ca_new_account_id = new_account_id, ca_init_response = init_response\<rparr>)))
      else if req_function request = FUNCTION_IDENTIFIER (RegisterAccountAtIdRequest H) then
        andThen (lift_result (invoke_request_get (h_register_account_at_id_request H) request)) (\<lambda>req.
        andThen (register_account_at_id H A ex qu c (ra_account_id req) (ra_code_id req)
                   (ra_init_message req)) (\<lambda>_.
        lift_result (response_new (h_unit H) ())))
      else if req_function request = FUNCTION_IDENTIFIER (MigrateRequest H) then
        (let invoker = branch_exec c RUNTIME_ACCOUNT_ID [] in
         andThen (lift_result (invoke_request_get (h_migrate_request H (host_invoke_request H)) request)) (\<lambda>req.
         if mg_account_id req \<noteq> sender invoker then fail ERR_UNAUTHORIZED
         else
           andThen (account_code_of H (mg_account_id req)) (\<lambda>current_code_id.
           andThen (lift_result (A (mg_new_code_id req))) (\<lambda>code.
           if code = None then fail ERR_CODE_NOT_FOUND
           else if current_code_id = mg_new_code_id req then fail ERR_SAME_CODE_MIGRATION
           else
             andThen (on_state (set_account_code_identifier_for_account H (mg_account_id req)
                                  (mg_new_code_id req))) (\<lambda>_.
             ex invoker (mg_account_id req) (mg_execute_message req) fs)))))
      else fail ERR_UNKNOWN_FUNCTION)"

definition exec_without_transfers ::
    "host \<Rightarrow> account_codes \<Rightarrow> exec_handler \<Rightarrow> query_handler \<Rightarrow> exec_handler" where
  "exec_without_transfers H A ex qu c to data fs =
     (if to = RUNTIME_ACCOUNT_ID then handle_system_exec H A ex qu c data fs
      else if to = STORAGE_ACCOUNT_ID then handle_storage_exec H c data
      else andThen (account_code_of H to) (\<lambda>code_id.
        let invoker = branch_exec c to fs in
        with_code A code_id (\<lambda>code. run ex qu invoker (ac_execute code data))))"

primrec transfer_all ::
    "host \<Rightarrow> account_codes \<Rightarrow> exec_handler \<Rightarrow> query_handler \<Rightarrow> ctx \<Rightarrow> account_id \<Rightarrow>
       fungible_asset list \<Rightarrow> (world, error_code, unit) comp" where
  "transfer_all H A ex qu c to [] = ret ()"
| "transfer_all H A ex qu c to (asset # assets) =
     andThen (lift_result (invoke_request_new (TransferMsg H) \<lparr>tm_to = to, tm_amount = amount asset\<rparr>)) (\<lambda>req.
     andThen (exec_without_transfers H A ex qu c (asset_id asset) req []) (\<lambda>_.
     transfer_all H A ex qu c to assets))"

definition handle_transfers ::
    "host \<Rightarrow> account_codes \<Rightarrow> exec_handler \<Rightarrow> query_handler \<Rightarrow> ctx \<Rightarrow> account_id \<Rightarrow>
       fungible_asset list \<Rightarrow> (world, error_code, unit) comp" where
  "handle_transfers H A ex qu c to fs =
     (if fs = [] then ret ()
      else if to = STORAGE_ACCOUNT_ID then fail ERR_FUNDS_TO_SYSTEM_ACCOUNT
      else transfer_all H A ex qu c to fs)"

text \<open>\<open>do_exec\<close> takes a checkpoint before any state change and restores it on every error; a restore that
  failed would panic.\<close>

definition restore_or_panic :: "checkpoint_t \<Rightarrow> error_code \<Rightarrow> (world, error_code, 'a) comp" where
  "restore_or_panic cp e w =
     (case restore cp (w_state w) of
        (Ok _, s) \<Rightarrow> (Err e, w\<lparr>w_state := s\<rparr>)
      | (_, s) \<Rightarrow> (Panic, w\<lparr>w_state := s\<rparr>))"

definition do_exec_with :: "host \<Rightarrow> account_codes \<Rightarrow> exec_handler \<Rightarrow> query_handler \<Rightarrow> exec_handler" where
  "do_exec_with H A ex qu c to data fs w =
     (if call_depth c \<ge> MAX_CALL_DEPTH then (Err ERR_CALL_DEPTH_EXCEEDED, w)
      else case checkpoint (w_state w) of
        (cp, s) \<Rightarrow>
          (case handle_transfers H A ex qu c to fs (w\<lparr>w_state := s\<rparr>) of
             (Err transfer_err, w') \<Rightarrow> restore_or_panic cp transfer_err w'
           | (Panic, w') \<Rightarrow> (Panic, w')
           | (OutOfFuel, w') \<Rightarrow> (OutOfFuel, w')
           | (Ok _, w') \<Rightarrow>
               (case exec_without_transfers H A ex qu c to data fs w' of
                  (Err e, w'') \<Rightarrow> restore_or_panic cp e w''
                | (r, w'') \<Rightarrow> (r, w''))))"

primrec do_exec :: "host \<Rightarrow> account_codes \<Rightarrow> nat \<Rightarrow> exec_handler" where
  "do_exec H A 0 = (\<lambda>c to data fs w. (OutOfFuel, w))"
| "do_exec H A (Suc n) = do_exec_with H A (do_exec H A n) (do_query H A n)"

definition invoker_gas_used :: "world \<Rightarrow> u64" where
  "invoker_gas_used w = gas_used (w_gas w)"

section \<open>Running composed code\<close>

lemma attempt_assoc: "attempt (attempt m f) g = attempt m (\<lambda>r. attempt (f r) g)"
  by (rule ext) (auto simp: attempt_def split: prod.splits outcome.splits)

lemma attempt_lift_result: "attempt (lift_result r) f = f r"
  by (rule ext) (cases r, simp_all add: attempt_def lift_result_def)

lemma attempt_unwind: "attempt unwind f = unwind"
  by (rule ext) (simp add: attempt_def unwind_def)

lemma attempt_andThen:
  "attempt m (\<lambda>r. case r of Inl e \<Rightarrow> lift_result (Inl e) | Inr a \<Rightarrow> f a) = andThen m f"
  by (rule ext) (auto simp: attempt_def andThen_def lift_result_def split: prod.splits outcome.splits)

lemma run_pcatch: "run ex qu c (pcatch p f) = attempt (run ex qu c p) (\<lambda>r. run ex qu c (f r))"
  by (induction p) (simp_all add: attempt_lift_result attempt_unwind attempt_assoc)

lemma run_pbind: "run ex qu c (pbind p f) = andThen (run ex qu c p) (\<lambda>a. run ex qu c (f a))"
proof -
  have "run ex qu c (case r of Inl e \<Rightarrow> Return (Inl e) | Inr a \<Rightarrow> f a) =
      (case r of Inl e \<Rightarrow> lift_result (Inl e) | Inr a \<Rightarrow> run ex qu c (f a))" for r
    by (cases r) simp_all
  then show ?thesis by (simp add: pbind_def run_pcatch attempt_andThen)
qed

lemma run_query_qcatch: "run_query qu c (qcatch p f) = attempt (run_query qu c p) (\<lambda>r. run_query qu c (f r))"
  by (induction p) (simp_all add: attempt_lift_result attempt_unwind attempt_assoc)

lemma run_query_qbind: "run_query qu c (qbind p f) = andThen (run_query qu c p) (\<lambda>a. run_query qu c (f a))"
proof -
  have "run_query qu c (case r of Inl e \<Rightarrow> QReturn (Inl e) | Inr a \<Rightarrow> f a) =
      (case r of Inl e \<Rightarrow> lift_result (Inl e) | Inr a \<Rightarrow> run_query qu c (f a))" for r
    by (cases r) simp_all
  then show ?thesis by (simp add: qbind_def run_query_qcatch attempt_andThen)
qed

lemma run_of_query: "run ex qu c (of_query p) = run_query qu c p"
  by (induction p) simp_all

end
