(* ===== verification/Invoker_Relations.thy ===== *)
theory Invoker_Relations
  imports Invoker
begin

text \<open>
  What every run of the invoker keeps. The locale \<open>world_relation\<close> states what a relation between the
  world before and after must satisfy at the primitive operations of the execution state and the gas
  counter; inside it the relation is carried through every handler, through account code, and
  through \<open>do_query\<close> and \<open>do_exec\<close> at every fuel. It is interpreted three times: for the undo log, for
  gas and for the limits of the execution state.
\<close>

section \<open>Sequencing\<close>

lemma keeps_attempt:
  assumes trans: "\<And>a b c. R a b \<Longrightarrow> R b c \<Longrightarrow> R a c"
    and m: "keeps R m" and f: "\<And>r. keeps R (f r)"
  shows "keeps R (attempt m f)"
proof (rule keepsI)
  fix s
  obtain r s' where ms: "m s = (r, s')" by (cases "m s")
  from keepsD [OF m, of s] ms have Rs: "R s s'" by simp
  show "R s (snd (attempt m f s))"
    using trans [OF Rs keepsD [OF f]] Rs by (cases r) (simp_all add: attempt_def ms)
qed

lemma snd_on_state: "snd (on_state m w) = w\<lparr>w_state := snd (m (w_state w))\<rparr>"
  by (simp add: on_state_def split: prod.splits)

lemma snd_on_gas: "snd (on_gas m w) = w\<lparr>w_gas := snd (m (w_gas w))\<rparr>"
  by (simp add: on_gas_def split: prod.splits)

lemma on_state_andThen: "on_state (andThen m f) = andThen (on_state m) (\<lambda>a. on_state (f a))"
  by (rule ext) (auto simp: on_state_def andThen_def split: prod.splits outcome.splits)

lemma on_state_basic:
  "on_state (ret a) = ret a" "on_state (lift_result r) = lift_result r"
  by (rule ext, simp add: on_state_def ret_def lift_result_def)+

section \<open>Relations kept by reads\<close>

locale read_relation =
  fixes R :: "world \<Rightarrow> world \<Rightarrow> bool"
  assumes R_refl: "R w w"
    and R_trans: "R w w' \<Longrightarrow> R w' w'' \<Longrightarrow> R w w''"
    and R_metrics: "R w (w\<lparr>w_state := (w_state w)\<lparr>metrics := m\<rparr>\<rparr>)"
    and R_gas: "R w (w\<lparr>w_gas := snd (consume_gas g (w_gas w))\<rparr>)"
begin

lemma kr_andThen: "keeps R m \<Longrightarrow> (\<And>a. keeps R (f a)) \<Longrightarrow> keeps R (andThen m f)"
  using keeps_andThen [of R] R_trans by blast

lemma kr_attempt: "keeps R m \<Longrightarrow> (\<And>a. keeps R (f a)) \<Longrightarrow> keeps R (attempt m f)"
  using keeps_attempt [of R] R_trans by blast

lemma kr_basic: "keeps R (ret a)" "keeps R (fail e)" "keeps R (lift_result r)" "keeps R unwind"
  by (simp_all add: keeps_def ret_def fail_def lift_result_def unwind_def R_refl)

lemma kr_get: "keeps R (on_state (get k))"
  by (rule keepsI) (simp add: snd_on_state get_logical R_metrics)

lemma kr_gas:
  "keeps R (on_gas (consume_get_gas k ov))" "keeps R (on_gas (consume_set_gas k v))"
  "keeps R (on_gas (consume_remove_gas k))"
proof -
  show "keeps R (on_gas (consume_get_gas k ov))"
    by (rule keepsI) (metis consume_get_gas_eq snd_on_gas R_gas)
  show "keeps R (on_gas (consume_set_gas k v))"
    by (rule keepsI) (metis consume_set_gas_eq snd_on_gas R_gas)
  show "keeps R (on_gas (consume_remove_gas k))"
    by (rule keepsI) (metis consume_remove_gas_eq snd_on_gas R_gas)
qed

lemmas kr_reads = kr_basic kr_get kr_gas

lemma kr_get_code: "keeps R (on_state (get_account_code_identifier_for_account H a))"
  unfolding get_account_code_identifier_for_account_def
  by (auto simp: on_state_andThen on_state_basic split: option.splits intro!: kr_andThen kr_reads)

lemma kr_account_code_of: "keeps R (account_code_of H a)"
  unfolding account_code_of_def by (intro kr_andThen kr_get_code kr_reads)

lemma kr_with_code: "(\<And>code. keeps R (f code)) \<Longrightarrow> keeps R (with_code A cid f)"
  unfolding with_code_def by (auto split: option.splits intro!: kr_andThen kr_reads)

lemma kr_system_query: "keeps R (handle_system_query req)"
  unfolding handle_system_query_def by (rule kr_basic)

lemma kr_storage_query: "keeps R (handle_storage_query H req)"
  unfolding handle_storage_query_def by (auto simp: Let_def intro!: kr_andThen kr_reads)

lemma kr_run_query:
  "(\<And>c to data. keeps R (qu c to data)) \<Longrightarrow> keeps R (run_query qu c p)"
  by (induction p) (auto intro!: kr_reads kr_attempt)

lemma kr_do_query: "keeps R (do_query H A n c to data)"
proof (induction n arbitrary: c to data)
  case (Suc n)
  then show ?case
    by (auto simp: do_query_with_def Let_def
        intro!: kr_system_query kr_storage_query kr_andThen kr_account_code_of kr_with_code kr_run_query)
qed (simp add: keeps_def R_refl)

end

section \<open>Relations kept by every run\<close>

locale world_relation = read_relation +
  assumes R_rollback: "R w w' \<Longrightarrow> rollbackable (w_state w) (w_state w')"
    and R_set: "R w (w\<lparr>w_state := snd (set_op k v (w_state w))\<rparr>)"
    and R_remove: "R w (w\<lparr>w_state := snd (remove_op k (w_state w))\<rparr>)"
    and R_emit: "R w (w\<lparr>w_state := snd (emit_event ev (w_state w))\<rparr>)"
    and R_unique: "R w (w\<lparr>w_state := snd (next_unique_object_id (w_state w))\<rparr>)"
    and R_restore: "R w w' \<Longrightarrow> R w (w'\<lparr>w_state := (w_state w)\<lparr>metrics := m\<rparr>\<rparr>)"
begin

lemma kr_set: "keeps R (on_state (set_op k v))"
  by (rule keepsI) (simp add: snd_on_state R_set)

lemma kr_remove: "keeps R (on_state (remove_op k))"
  by (rule keepsI) (simp add: snd_on_state R_remove)

lemma kr_emit: "keeps R (on_state (emit_event ev))"
  by (rule keepsI) (simp add: snd_on_state R_emit)

lemmas kr_prims = kr_reads kr_set kr_remove kr_emit

lemma kr_set_code: "keeps R (on_state (set_account_code_identifier_for_account H a s))"
  unfolding set_account_code_identifier_for_account_def
  by (auto simp: on_state_andThen on_state_basic intro!: kr_andThen kr_prims)

lemma kr_next_account: "keeps R (on_state (next_account_number H))"
  unfolding next_account_number_def
  by (auto simp: on_state_andThen on_state_basic Let_def intro!: kr_andThen kr_prims)

lemma kr_storage_exec: "keeps R (handle_storage_exec H c req)"
  unfolding handle_storage_exec_def by (auto simp: Let_def intro!: kr_andThen kr_prims)

lemma kr_emit_event: "keeps R (invoker_emit_event c name data)"
  unfolding invoker_emit_event_def by (intro kr_andThen kr_prims)

lemma kr_unique_id: "keeps R (invoker_unique_id c)"
  by (rule keepsI) (use R_unique in \<open>auto simp: invoker_unique_id_def split: prod.splits, metis snd_conv\<close>)

lemma kr_run:
  "(\<And>c to data fs. keeps R (ex c to data fs)) \<Longrightarrow> (\<And>c to data. keeps R (qu c to data)) \<Longrightarrow>
     keeps R (run ex qu c p)"
  by (induction p) (auto intro!: kr_prims kr_attempt kr_emit_event kr_unique_id)

lemma kr_create_account:
  "(\<And>c to data fs. keeps R (ex c to data fs)) \<Longrightarrow> (\<And>c to data. keeps R (qu c to data)) \<Longrightarrow>
     keeps R (create_account H A ex qu c code_id msg fs)"
  unfolding create_account_def Let_def
  by (intro kr_andThen kr_prims kr_next_account kr_set_code kr_account_code_of kr_with_code kr_run)

lemma kr_register:
  "(\<And>c to data fs. keeps R (ex c to data fs)) \<Longrightarrow> (\<And>c to data. keeps R (qu c to data)) \<Longrightarrow>
     keeps R (register_account_at_id H A ex qu c a code_id msg)"
  unfolding register_account_at_id_def Let_def
  by (auto intro!: kr_andThen kr_prims kr_get_code kr_with_code kr_run)

lemma kr_system_exec:
  assumes ex: "\<And>c to data fs. keeps R (ex c to data fs)" and qu: "\<And>c to data. keeps R (qu c to data)"
  shows "keeps R (handle_system_exec H A ex qu c req fs)"
  using kr_create_account [of ex qu] kr_register [of ex qu] ex qu
  unfolding handle_system_exec_def Let_def
  by (auto split: prod.splits intro!: kr_andThen kr_prims kr_account_code_of kr_set_code)

lemma kr_exec_without_transfers:
  assumes ex: "\<And>c to data fs. keeps R (ex c to data fs)" and qu: "\<And>c to data. keeps R (qu c to data)"
  shows "keeps R (exec_without_transfers H A ex qu c to data fs)"
  using kr_run [of ex qu] ex qu unfolding exec_without_transfers_def Let_def
  by (auto intro!: kr_system_exec kr_storage_exec kr_andThen kr_account_code_of kr_with_code)

lemma kr_handle_transfers:
  assumes ex: "\<And>c to data fs. keeps R (ex c to data fs)" and qu: "\<And>c to data. keeps R (qu c to data)"
  shows "keeps R (handle_transfers H A ex qu c to fs)"
proof -
  have "keeps R (transfer_all H A ex qu c to fs)"
    by (induction fs) (auto intro!: kr_prims kr_andThen kr_exec_without_transfers ex qu)
  then show ?thesis by (simp add: handle_transfers_def kr_prims)
qed

text \<open>The restore of \<open>do_exec\<close> succeeds, and brings the whole state back but for the metrics.\<close>

lemma restore_or_panic_eq:
  assumes cp: "checkpoint (w_state w) = (cp, s)" and R: "R (w\<lparr>w_state := s\<rparr>) w'"
  shows "restore_or_panic cp e w' =
    (Err e, w'\<lparr>w_state := (w_state w)\<lparr>metrics := inc_restores (metrics (w_state w'))\<rparr>\<rparr>)"
proof -
  from R_rollback [OF R] cp have "rollbackable (w_state w) (w_state w')"
    by (auto simp: checkpoint_def rollbackable_def)
  from restore_checkpoint [OF this] cp show ?thesis by (simp add: restore_or_panic_def)
qed

lemma R_checkpoint: "checkpoint (w_state w) = (cp, s) \<Longrightarrow> R w (w\<lparr>w_state := s\<rparr>)"
  using R_metrics by (auto simp: checkpoint_def)

lemma kr_restore:
  assumes cp: "checkpoint (w_state w) = (cp, s)" and R: "R (w\<lparr>w_state := s\<rparr>) w'"
  shows "R w (snd (restore_or_panic cp e w'))"
  using R_restore [OF R_trans [OF R_checkpoint [OF cp] R]]
  by (simp add: restore_or_panic_eq [OF cp R])

lemma kr_do_exec_with:
  assumes ex: "\<And>c to data fs. keeps R (ex c to data fs)" and qu: "\<And>c to data. keeps R (qu c to data)"
  shows "keeps R (do_exec_with H A ex qu c to data fs)"
proof (rule keepsI)
  fix w :: world
  let ?w = "w\<lparr>w_state := snd (checkpoint (w_state w))\<rparr>"
  have start: "R w ?w" unfolding checkpoint_def using R_metrics by simp
  have transfers: "R ?w (snd (handle_transfers H A ex qu c to fs ?w))"
    using keepsD [OF kr_handle_transfers [OF ex qu]] .
  have exec: "R ?w (snd (exec_without_transfers H A ex qu c to data fs
      (snd (handle_transfers H A ex qu c to fs ?w))))"
    using R_trans [OF transfers keepsD [OF kr_exec_without_transfers [OF ex qu]]] .
  show "R w (snd (do_exec_with H A ex qu c to data fs w))"
    using R_refl R_trans [OF start transfers] R_trans [OF start exec] transfers exec
    by (auto simp: do_exec_with_def kr_restore split: prod.splits outcome.splits)
qed

lemma kr_do_exec: "keeps R (do_exec H A n c to data fs)"
proof (induction n arbitrary: c to data fs)
  case (Suc n)
  then show ?case by (auto intro!: kr_do_exec_with kr_do_query)
qed (simp add: keeps_def R_refl)

text \<open>An execution that returns an error leaves the whole state as it was, but for the metrics.\<close>

lemma do_exec_with_Err:
  assumes ex: "\<And>c to data fs. keeps R (ex c to data fs)" and qu: "\<And>c to data. keeps R (qu c to data)"
    and err: "do_exec_with H A ex qu c to data fs w = (Err e, w')"
  shows "\<exists>m. w_state w' = (w_state w)\<lparr>metrics := m\<rparr>"
proof (cases "MAX_CALL_DEPTH \<le> call_depth c")
  case True
  with err have "w_state w' = (w_state w)\<lparr>metrics := metrics (w_state w)\<rparr>" by (simp add: do_exec_with_def)
  then show ?thesis by blast
next
  case False
  obtain cp s where cp: "checkpoint (w_state w) = (cp, s)" by (cases "checkpoint (w_state w)")
  let ?w = "w\<lparr>w_state := s\<rparr>"
  have transfers: "R ?w (snd (handle_transfers H A ex qu c to fs ?w))"
    using keepsD [OF kr_handle_transfers [OF ex qu]] .
  have exec: "R ?w (snd (exec_without_transfers H A ex qu c to data fs
      (snd (handle_transfers H A ex qu c to fs ?w))))"
    using R_trans [OF transfers keepsD [OF kr_exec_without_transfers [OF ex qu]]] .
  note restored = restore_or_panic_eq [OF cp]
  show ?thesis using err False transfers exec
    by (auto simp: do_exec_with_def cp restored split: prod.splits outcome.splits)
qed

lemma do_exec_Err:
  "do_exec H A n c to data fs w = (Err e, w') \<Longrightarrow> \<exists>m. w_state w' = (w_state w)\<lparr>metrics := m\<rparr>"
  by (cases n) (auto dest: do_exec_with_Err [OF kr_do_exec kr_do_query])

end

section \<open>The relations\<close>

interpretation reads: read_relation "\<lambda>w w'. \<exists>m. w_state w' = (w_state w)\<lparr>metrics := m\<rparr>"
proof
  fix w w' w'' :: world
  show "\<exists>m. w_state w = (w_state w)\<lparr>metrics := m\<rparr>" by (intro exI [of _ "metrics (w_state w)"]) simp
  assume "\<exists>m. w_state w' = (w_state w)\<lparr>metrics := m\<rparr>" "\<exists>m. w_state w'' = (w_state w')\<lparr>metrics := m\<rparr>"
  then show "\<exists>m. w_state w'' = (w_state w)\<lparr>metrics := m\<rparr>" by auto
next
  fix w :: world and m
  show "\<exists>ma. w_state (w\<lparr>w_state := (w_state w)\<lparr>metrics := m\<rparr>\<rparr>) = (w_state w)\<lparr>metrics := ma\<rparr>" by auto
next
  fix w :: world and g
  show "\<exists>m. w_state (w\<lparr>w_gas := snd (consume_gas g (w_gas w))\<rparr>) = (w_state w)\<lparr>metrics := m\<rparr>"
    by (intro exI [of _ "metrics (w_state w)"]) simp
qed

interpretation undo: world_relation "\<lambda>w w'. rollbackable (w_state w) (w_state w')"
  by unfold_locales (auto intro: rollbackable_trans)

definition gas_relation :: "world \<Rightarrow> world \<Rightarrow> bool" where
  "gas_relation w w' \<longleftrightarrow> rollbackable (w_state w) (w_state w') \<and> gas_le (w_gas w) (w_gas w') \<and>
     (gas_ok (w_gas w) \<longrightarrow> gas_ok (w_gas w'))"

interpretation gas: world_relation gas_relation
  by unfold_locales (auto simp: gas_relation_def intro: rollbackable_trans gas_le_trans)

definition limits_relation :: "world \<Rightarrow> world \<Rightarrow> bool" where
  "limits_relation w w' \<longleftrightarrow> rollbackable (w_state w) (w_state w') \<and>
     (exec_state_wf (w_state w) \<longrightarrow> exec_state_wf (w_state w'))"

interpretation limits: world_relation limits_relation
  by unfold_locales (auto simp: limits_relation_def exec_state_wf_set exec_state_wf_remove
      exec_state_wf_emit intro: rollbackable_trans)

end
