(* ===== verification/Invoker_Outcomes.thy ===== *)
theory Invoker_Outcomes
  imports Invoker_Relations
begin

text \<open>
  Which outcomes a run of the invoker can have: it panics only where account code panics, it ends
  within a fuel bounded by the call-depth limit as long as queries end, and its result does not
  depend on the fuel once that is enough.
\<close>

section \<open>Outcomes other than a result\<close>

datatype abnormal = Panicked | Exhausted

fun abnormal_of :: "('e, 'a) outcome \<Rightarrow> abnormal option" where
  "abnormal_of (Ok a) = None"
| "abnormal_of (Err e) = None"
| "abnormal_of Panic = Some Panicked"
| "abnormal_of OutOfFuel = Some Exhausted"

definition never :: "abnormal \<Rightarrow> ('s, 'e, 'a) comp \<Rightarrow> bool" where
  "never x m \<longleftrightarrow> (\<forall>s. abnormal_of (fst (m s)) \<noteq> Some x)"

lemma neverD: "never x m \<Longrightarrow> abnormal_of (fst (m s)) \<noteq> Some x"
  by (simp add: never_def)

lemma never_Panic: "never Panicked m \<Longrightarrow> fst (m s) \<noteq> Panic"
  by (auto dest: neverD [of _ m s])

lemma never_OutOfFuel: "never Exhausted m \<Longrightarrow> fst (m s) \<noteq> OutOfFuel"
  by (auto dest: neverD [of _ m s])

lemma never_andThen: "never x m \<Longrightarrow> (\<And>a. never x (f a)) \<Longrightarrow> never x (andThen m f)"
  unfolding never_def andThen_def
  by (auto split: prod.splits outcome.splits) (metis fst_conv abnormal_of.simps)+

lemma never_attempt: "never x m \<Longrightarrow> (\<And>a. never x (f a)) \<Longrightarrow> never x (attempt m f)"
  unfolding never_def attempt_def
  by (auto split: prod.splits outcome.splits) (metis fst_conv abnormal_of.simps)+

lemma abnormal_of_result [simp]: "abnormal_of (of_result r) = None"
  by (cases r) simp_all

lemma never_basic: "never x (ret a)" "never x (fail e)" "never x (lift_result r)"
  by (simp_all add: never_def ret_def fail_def lift_result_def)

lemma never_on_state: "never x m \<Longrightarrow> never x (on_state m)"
  by (simp add: never_def on_state_def split: prod.splits) (metis fst_conv)

lemma never_get: "never x (get k)"
  by (simp add: never_def get_logical)

lemma never_set: "never x (set_op k v)"
  by (simp add: never_def set_op_cases)

lemma never_remove: "never x (remove_op k)"
  by (simp add: never_def remove_op_cases)

lemma never_emit: "never x (emit_event ev)"
  by (simp add: never_def emit_event_def)

lemma abnormal_consume_gas: "abnormal_of (fst (consume_gas g gc)) = None"
  using consume_gas_cases [of g gc] by (metis abnormal_of.simps(1,2))

lemma never_gas:
  "never x (on_gas (consume_get_gas k ov))" "never x (on_gas (consume_set_gas k v))"
  "never x (on_gas (consume_remove_gas k))"
proof -
  have gas: "never x (on_gas m)" if "\<And>gc. \<exists>g. m gc = consume_gas g gc"
    for m :: "(gas_counter, error_code, unit) comp"
    unfolding never_def on_gas_def
    using that abnormal_consume_gas by (metis (mono_tags, lifting) case_prod_beta fst_conv option.distinct(1))
  show "never x (on_gas (consume_get_gas k ov))" by (rule gas) (rule consume_get_gas_eq)
  show "never x (on_gas (consume_set_gas k v))" by (rule gas) (rule consume_set_gas_eq)
  show "never x (on_gas (consume_remove_gas k))" by (rule gas) (rule consume_remove_gas_eq)
qed

lemmas never_prims = never_basic never_gas
  never_on_state [OF never_get] never_on_state [OF never_set] never_on_state [OF never_remove]
  never_on_state [OF never_emit]

section \<open>Handlers\<close>

lemma never_get_code: "never x (on_state (get_account_code_identifier_for_account H a))"
  unfolding get_account_code_identifier_for_account_def
  by (auto split: option.splits intro!: never_on_state never_andThen never_get never_basic)

lemma never_set_code: "never x (on_state (set_account_code_identifier_for_account H a s))"
  unfolding set_account_code_identifier_for_account_def
  by (auto intro!: never_on_state never_andThen never_set never_basic)

lemma never_next_account: "never x (on_state (next_account_number H))"
  unfolding next_account_number_def Let_def
  by (intro never_on_state never_andThen never_get never_set never_basic)

lemma never_account_code_of: "never x (account_code_of H a)"
  unfolding account_code_of_def by (intro never_andThen never_get_code never_prims)

lemma never_with_code:
  "(\<And>code. A cid = Inr (Some code) \<Longrightarrow> never x (f code)) \<Longrightarrow> never x (with_code A cid f)"
  by (cases "A cid"; cases "projr (A cid)")
    (auto simp: never_def with_code_def andThen_def lift_result_def fail_def split: option.splits)

lemma never_storage_query: "never x (handle_storage_query H req)"
  unfolding handle_storage_query_def by (auto simp: Let_def intro!: never_andThen never_prims)

lemma never_storage_exec: "never x (handle_storage_exec H c req)"
  unfolding handle_storage_exec_def by (auto simp: Let_def intro!: never_andThen never_prims)

lemma never_emit_event: "never x (invoker_emit_event c name data)"
  unfolding invoker_emit_event_def by (intro never_andThen never_prims)

lemma never_unique_id: "never x (invoker_unique_id c)"
  by (simp add: never_def invoker_unique_id_def split: prod.splits)

section \<open>Account code\<close>

text \<open>Code that does not panic of itself, whatever the environment answers.\<close>

primrec qno_unwind :: "'a qprog \<Rightarrow> bool" where
  "qno_unwind (QReturn r) \<longleftrightarrow> True"
| "qno_unwind QUnwind \<longleftrightarrow> False"
| "qno_unwind (QAsk k) \<longleftrightarrow> (\<forall>v. qno_unwind (k v))"
| "qno_unwind (QQuery to data k) \<longleftrightarrow> (\<forall>r. qno_unwind (k r))"

primrec no_unwind :: "'a prog \<Rightarrow> bool" where
  "no_unwind (Return r) \<longleftrightarrow> True"
| "no_unwind Unwind \<longleftrightarrow> False"
| "no_unwind (Ask k) \<longleftrightarrow> (\<forall>v. no_unwind (k v))"
| "no_unwind (DoQuery to data k) \<longleftrightarrow> (\<forall>r. no_unwind (k r))"
| "no_unwind (DoExec to data fs k) \<longleftrightarrow> (\<forall>r. no_unwind (k r))"
| "no_unwind (EmitEvent name data k) \<longleftrightarrow> (\<forall>r. no_unwind (k r))"
| "no_unwind (UniqueId k) \<longleftrightarrow> (\<forall>r. no_unwind (k r))"

definition codes_no_unwind :: "account_codes \<Rightarrow> bool" where
  "codes_no_unwind A \<longleftrightarrow> (\<forall>cid code req. A cid = Inr (Some code) \<longrightarrow>
     no_unwind (ac_init code req) \<and> no_unwind (ac_execute code req) \<and> qno_unwind (ac_query code req))"

text \<open>What a run must know of the stored codes to avoid an outcome.\<close>

definition codes_avoid :: "abnormal \<Rightarrow> account_codes \<Rightarrow> bool" where
  "codes_avoid x A \<longleftrightarrow> x = Panicked \<longrightarrow> codes_no_unwind A"

lemma never_run_query:
  "(x = Panicked \<longrightarrow> qno_unwind p) \<Longrightarrow> (\<And>to data. never x (qu c to data)) \<Longrightarrow>
     never x (run_query qu c p)"
proof (induction p)
  case QUnwind
  then show ?case by (cases x) (auto simp: never_def unwind_def)
qed (auto intro!: never_basic never_attempt)

lemma never_run:
  "(x = Panicked \<longrightarrow> no_unwind p) \<Longrightarrow> (\<And>to data fs. never x (ex c to data fs)) \<Longrightarrow>
     (\<And>to data. never x (qu c to data)) \<Longrightarrow> never x (run ex qu c p)"
proof (induction p)
  case Unwind
  then show ?case by (cases x) (auto simp: never_def unwind_def)
qed (auto intro!: never_basic never_attempt never_emit_event never_unique_id)

lemma never_do_query_with:
  assumes codes: "codes_avoid x A" and qu: "\<And>c to data. never x (qu c to data)"
  shows "never x (do_query_with H A qu c to data)"
  using codes unfolding do_query_with_def handle_system_query_def Let_def
  by (auto intro!: never_basic never_storage_query never_andThen never_account_code_of
      never_with_code never_run_query qu simp: codes_avoid_def codes_no_unwind_def)

text \<open>The handlers that an execution in context \<open>c\<close> calls are those of its branches.\<close>

definition callees_never :: "abnormal \<Rightarrow> exec_handler \<Rightarrow> query_handler \<Rightarrow> ctx \<Rightarrow> bool" where
  "callees_never x ex qu c \<longleftrightarrow>
     (\<forall>a fs to data fs'. never x (ex (branch_exec c a fs) to data fs')) \<and>
     (\<forall>a fs to data. never x (qu (branch_exec c a fs) to data))"

lemma never_run_branch:
  "callees_never x ex qu c \<Longrightarrow> (x = Panicked \<longrightarrow> no_unwind p) \<Longrightarrow>
     never x (run ex qu (branch_exec c a fs) p)"
  by (rule never_run) (auto simp: callees_never_def)

lemma never_exec_without_transfers:
  assumes codes: "codes_avoid x A" and callees: "callees_never x ex qu c"
  shows "never x (exec_without_transfers H A ex qu c to data fs)"
proof -
  have init: "never x (run ex qu (branch_exec c a gs) (ac_init code req))"
    and exec: "never x (run ex qu (branch_exec c a gs) (ac_execute code req))"
    if "A cid = Inr (Some code)" for a gs cid code req
    using that codes never_run_branch [OF callees]
    by (auto simp: codes_avoid_def codes_no_unwind_def)
  have create: "never x (create_account H A ex qu c cid msg gs)" for cid msg gs
    unfolding create_account_def Let_def
    by (auto intro!: never_andThen never_prims never_next_account never_set_code
        never_account_code_of never_with_code init)
  have register: "never x (register_account_at_id H A ex qu c a cid msg)" for a cid msg
    unfolding register_account_at_id_def Let_def
    by (auto intro!: never_andThen never_prims never_get_code never_with_code init)
  have system: "never x (handle_system_exec H A ex qu c data fs)"
    using callees create register unfolding handle_system_exec_def Let_def
    by (auto split: prod.splits simp: callees_never_def
        intro!: never_andThen never_prims never_account_code_of never_set_code)
  then show ?thesis unfolding exec_without_transfers_def Let_def
    by (auto intro!: never_storage_exec never_andThen never_account_code_of never_with_code exec)
qed

lemma never_handle_transfers:
  assumes "codes_avoid x A" and "callees_never x ex qu c"
  shows "never x (handle_transfers H A ex qu c to fs)"
proof -
  have "never x (transfer_all H A ex qu c to fs)"
    by (induction fs) (auto intro!: never_basic never_andThen never_exec_without_transfers assms)
  then show ?thesis by (simp add: handle_transfers_def never_basic)
qed

lemma never_do_exec_with:
  assumes codes: "codes_avoid x A" and callees: "call_depth c < MAX_CALL_DEPTH \<Longrightarrow> callees_never x ex qu c"
    and ex: "\<And>c to data fs. keeps (\<lambda>w w'. rollbackable (w_state w) (w_state w')) (ex c to data fs)"
    and qu: "\<And>c to data. keeps (\<lambda>w w'. rollbackable (w_state w) (w_state w')) (qu c to data)"
  shows "never x (do_exec_with H A ex qu c to data fs)"
  unfolding never_def
proof
  fix w :: world
  show "abnormal_of (fst (do_exec_with H A ex qu c to data fs w)) \<noteq> Some x"
  proof (cases "call_depth c < MAX_CALL_DEPTH")
    case True
    obtain cp s where cp: "checkpoint (w_state w) = (cp, s)" by (cases "checkpoint (w_state w)")
    let ?w = "w\<lparr>w_state := s\<rparr>"
    have transfers: "rollbackable (w_state ?w) (w_state (snd (handle_transfers H A ex qu c to fs ?w)))"
      using keepsD [OF undo.kr_handle_transfers [OF ex qu]] .
    have exec: "rollbackable (w_state ?w) (w_state (snd (exec_without_transfers H A ex qu c to data fs
        (snd (handle_transfers H A ex qu c to fs ?w)))))"
      using rollbackable_trans [OF transfers keepsD [OF undo.kr_exec_without_transfers [OF ex qu]]] .
    note restored = undo.restore_or_panic_eq [OF cp]
    show ?thesis
      using True transfers exec neverD [OF never_handle_transfers [OF codes callees [OF True]]]
        neverD [OF never_exec_without_transfers [OF codes callees [OF True]]]
      by (auto simp: do_exec_with_def cp restored split: prod.splits outcome.splits)
         (metis fst_conv abnormal_of.simps)+
  qed (simp add: do_exec_with_def not_less)
qed

section \<open>Panics\<close>

lemma never_Panicked_do_query: "codes_no_unwind A \<Longrightarrow> never Panicked (do_query H A n c to data)"
proof (induction n arbitrary: c to data)
  case (Suc n)
  then show ?case by (auto intro!: never_do_query_with simp: codes_avoid_def)
qed (simp add: never_def)

lemma never_Panicked_do_exec: "codes_no_unwind A \<Longrightarrow> never Panicked (do_exec H A n c to data fs)"
proof (induction n arbitrary: c to data fs)
  case (Suc n)
  then show ?case
    by (auto intro!: never_do_exec_with never_Panicked_do_query undo.kr_do_exec undo.kr_do_query
        simp: codes_avoid_def callees_never_def)
qed (simp add: never_def)

section \<open>Fuel\<close>

lemma never_Exhausted_do_query_more:
  "(\<And>c to data. never Exhausted (do_query H A q c to data)) \<Longrightarrow> q \<le> n \<Longrightarrow>
     never Exhausted (do_query H A n c to data)"
proof (induction n arbitrary: c to data)
  case (Suc n)
  show ?case
  proof (cases "q = Suc n")
    case False
    with Suc have "never Exhausted (do_query H A n c to data)" for c to data by simp
    then show ?thesis by (auto intro!: never_do_query_with simp: codes_avoid_def)
  qed (use Suc.prems(1) in simp)
qed simp

lemma call_depth_branch:
  "call_depth c < MAX_CALL_DEPTH \<Longrightarrow> unat (call_depth (branch_exec c a fs)) = Suc (unat (call_depth c))"
  by (simp add: branch_exec_def rust_int MAX_CALL_DEPTH_def word_less_nat_alt)

text \<open>With queries that end within fuel \<open>q\<close>, an execution at depth \<open>d\<close> ends within fuel
  \<open>q + 1 + (64 - d)\<close>: the depth limit bounds the nesting.\<close>

lemma never_Exhausted_do_exec:
  assumes q: "\<And>c to data. never Exhausted (do_query H A q c to data)"
  shows "n \<ge> q + 1 + (64 - unat (call_depth c)) \<Longrightarrow> never Exhausted (do_exec H A n c to data fs)"
proof (induction n arbitrary: c to data fs)
  case (Suc n)
  have "callees_never Exhausted (do_exec H A n) (do_query H A n) c" if "call_depth c < MAX_CALL_DEPTH"
  proof -
    from that have "unat (call_depth c) < 64" by (simp add: MAX_CALL_DEPTH_def word_less_nat_alt)
    with Suc.prems have "q \<le> n" "q + 1 + (64 - Suc (unat (call_depth c))) \<le> n" by simp_all
    with Suc.IH never_Exhausted_do_query_more [OF q] call_depth_branch [OF that] show ?thesis
      by (simp add: callees_never_def)
  qed
  then show ?case
    by (auto intro!: never_do_exec_with undo.kr_do_exec undo.kr_do_query simp: codes_avoid_def)
qed simp

text \<open>Queries that only read storage end at once.\<close>

primrec leaf_query :: "'a qprog \<Rightarrow> bool" where
  "leaf_query (QReturn r) \<longleftrightarrow> True"
| "leaf_query QUnwind \<longleftrightarrow> True"
| "leaf_query (QAsk k) \<longleftrightarrow> (\<forall>v. leaf_query (k v))"
| "leaf_query (QQuery to data k) \<longleftrightarrow>
     (to = RUNTIME_ACCOUNT_ID \<or> to = STORAGE_ACCOUNT_ID) \<and> (\<forall>r. leaf_query (k r))"

definition leaf_codes :: "account_codes \<Rightarrow> bool" where
  "leaf_codes A \<longleftrightarrow> (\<forall>cid code req. A cid = Inr (Some code) \<longrightarrow> leaf_query (ac_query code req))"

lemma never_Exhausted_leaf: "leaf_query p \<Longrightarrow> never Exhausted (run_query (do_query H A (Suc n)) c p)"
proof (induction p)
  case QUnwind
  then show ?case by (simp add: never_def unwind_def)
next
  case (QQuery to data k)
  then have "never Exhausted (do_query H A (Suc n) c to data)"
    by (auto simp: do_query_with_def handle_system_query_def intro!: never_basic never_storage_query)
  with QQuery show ?case by (auto simp del: do_query.simps intro!: never_attempt)
qed (auto intro!: never_basic)

lemma never_Exhausted_leaf_codes: "leaf_codes A \<Longrightarrow> never Exhausted (do_query H A 2 c to data)"
proof -
  assume leaf: "leaf_codes A"
  have two: "do_query H A 2 = do_query_with H A (do_query H A (Suc 0))" by (simp add: numeral_2_eq_2)
  show ?thesis unfolding two do_query_with_def handle_system_query_def Let_def
    using leaf unfolding leaf_codes_def
    by (auto simp del: do_query.simps intro!: never_basic never_storage_query never_andThen
        never_account_code_of never_with_code never_Exhausted_leaf)
qed

section \<open>More fuel\<close>

definition fuel_le :: "('s, 'e, 'a) comp \<Rightarrow> ('s, 'e, 'a) comp \<Rightarrow> bool" where
  "fuel_le m m' \<longleftrightarrow> (\<forall>s. fst (m s) \<noteq> OutOfFuel \<longrightarrow> m' s = m s)"

lemma fuel_le_refl [simp]: "fuel_le m m"
  by (simp add: fuel_le_def)

lemma fuel_leD: "fuel_le m m' \<Longrightarrow> m s = (r, s') \<Longrightarrow> r \<noteq> OutOfFuel \<Longrightarrow> m' s = (r, s')"
  by (simp add: fuel_le_def)

lemma fuel_le_andThen: "fuel_le m m' \<Longrightarrow> (\<And>a. fuel_le (f a) (f' a)) \<Longrightarrow> fuel_le (andThen m f) (andThen m' f')"
  unfolding fuel_le_def andThen_def
  by (auto split: prod.splits outcome.splits)

lemma fuel_le_attempt: "fuel_le m m' \<Longrightarrow> (\<And>a. fuel_le (f a) (f' a)) \<Longrightarrow> fuel_le (attempt m f) (attempt m' f')"
  unfolding fuel_le_def attempt_def
  by (auto split: prod.splits outcome.splits)

lemma fuel_le_with_code: "(\<And>code. fuel_le (f code) (f' code)) \<Longrightarrow> fuel_le (with_code A cid f) (with_code A cid f')"
  unfolding with_code_def by (auto split: option.splits intro!: fuel_le_andThen fuel_le_refl)

lemma fuel_le_run_query:
  "(\<And>c to data. fuel_le (qu c to data) (qu' c to data)) \<Longrightarrow> fuel_le (run_query qu c p) (run_query qu' c p)"
  by (induction p) (auto intro!: fuel_le_refl fuel_le_attempt)

lemma fuel_le_run:
  "(\<And>c to data fs. fuel_le (ex c to data fs) (ex' c to data fs)) \<Longrightarrow>
   (\<And>c to data. fuel_le (qu c to data) (qu' c to data)) \<Longrightarrow> fuel_le (run ex qu c p) (run ex' qu' c p)"
  by (induction p) (auto intro!: fuel_le_refl fuel_le_attempt)

lemma fuel_le_do_query: "fuel_le (do_query H A n c to data) (do_query H A (Suc n) c to data)"
proof (induction n arbitrary: c to data)
  case (Suc n)
  then show ?case unfolding do_query.simps(2) [of H A "Suc n"] do_query.simps(2) [of H A n]
    by (auto simp: do_query_with_def Let_def simp del: do_query.simps
        intro!: fuel_le_refl fuel_le_andThen fuel_le_with_code fuel_le_run_query)
qed (simp add: fuel_le_def)

lemma fuel_le_exec_without_transfers:
  assumes ex: "\<And>c to data fs. fuel_le (ex c to data fs) (ex' c to data fs)"
    and qu: "\<And>c to data. fuel_le (qu c to data) (qu' c to data)"
  shows "fuel_le (exec_without_transfers H A ex qu c to data fs) (exec_without_transfers H A ex' qu' c to data fs)"
proof -
  note run = fuel_le_run [of ex ex' qu qu', OF ex qu]
  have "fuel_le (create_account H A ex qu c cid m gs) (create_account H A ex' qu' c cid m gs)" for cid m gs
    unfolding create_account_def Let_def
    by (intro fuel_le_refl fuel_le_andThen fuel_le_with_code run)
  moreover have "fuel_le (register_account_at_id H A ex qu c a cid m) (register_account_at_id H A ex' qu' c a cid m)"
    for a cid m unfolding register_account_at_id_def Let_def
    by (auto intro!: fuel_le_refl fuel_le_andThen fuel_le_with_code run)
  ultimately have "fuel_le (handle_system_exec H A ex qu c data fs) (handle_system_exec H A ex' qu' c data fs)"
    using ex unfolding handle_system_exec_def Let_def
    by (auto split: prod.splits intro!: fuel_le_andThen)
  then show ?thesis unfolding exec_without_transfers_def Let_def
    by (auto intro!: fuel_le_refl fuel_le_andThen fuel_le_with_code run)
qed

lemma fuel_le_handle_transfers:
  assumes ex: "\<And>c to data fs. fuel_le (ex c to data fs) (ex' c to data fs)"
    and qu: "\<And>c to data. fuel_le (qu c to data) (qu' c to data)"
  shows "fuel_le (handle_transfers H A ex qu c to fs) (handle_transfers H A ex' qu' c to fs)"
proof -
  have "fuel_le (transfer_all H A ex qu c to fs) (transfer_all H A ex' qu' c to fs)"
    by (induction fs)
      (auto intro!: fuel_le_refl fuel_le_andThen fuel_le_exec_without_transfers ex qu)
  then show ?thesis by (simp add: handle_transfers_def fuel_le_refl)
qed

lemma fuel_le_do_exec_with:
  assumes ex: "\<And>c to data fs. fuel_le (ex c to data fs) (ex' c to data fs)"
    and qu: "\<And>c to data. fuel_le (qu c to data) (qu' c to data)"
  shows "fuel_le (do_exec_with H A ex qu c to data fs) (do_exec_with H A ex' qu' c to data fs)"
  using fuel_le_handle_transfers [OF ex qu] fuel_le_exec_without_transfers [OF ex qu]
  unfolding fuel_le_def do_exec_with_def
  by (auto split: prod.splits outcome.splits)

lemma fuel_le_do_exec: "fuel_le (do_exec H A n c to data fs) (do_exec H A (Suc n) c to data fs)"
proof (induction n arbitrary: c to data fs)
  case (Suc n)
  then show ?case unfolding do_exec.simps(2) [of H A "Suc n"] do_exec.simps(2) [of H A n]
    by (auto simp del: do_exec.simps do_query.simps intro!: fuel_le_do_exec_with fuel_le_do_query)
qed (simp add: fuel_le_def)

lemma do_exec_more_fuel:
  assumes "do_exec H A n c to data fs w = (r, w')" and "r \<noteq> OutOfFuel"
  shows "do_exec H A (n + k) c to data fs w = (r, w')"
proof (induction k)
  case (Suc k)
  from fuel_leD [OF fuel_le_do_exec Suc assms(2)] show ?case by simp
qed (use assms in simp)

lemma do_query_more_fuel:
  assumes "do_query H A n c to data w = (r, w')" and "r \<noteq> OutOfFuel"
  shows "do_query H A (n + k) c to data w = (r, w')"
proof (induction k)
  case (Suc k)
  from fuel_leD [OF fuel_le_do_query Suc assms(2)] show ?case by simp
qed (use assms in simp)

section \<open>Queries have no depth limit\<close>

text \<open>An account whose query asks itself the same again. Each nested query finds the account's code,
  because queries leave the contents of the state alone.\<close>

definition self_query_code :: "account_id \<Rightarrow> account_code" where
  "self_query_code a = \<lparr>ac_identifier = ''Loop'', ac_init = (\<lambda>req. Return (Inl ERR_UNKNOWN_FUNCTION)),
     ac_execute = (\<lambda>req. Return (Inl ERR_UNKNOWN_FUNCTION)),
     ac_query = (\<lambda>req. QQuery a req (\<lambda>r. QReturn r))\<rparr>"

lemma account_code_of_eq:
  "account_code_of H a w =
     (of_result (bind_result (logical_get (w_state w) (get_account_code_identifier_for_account_key a)) (\<lambda>v.
        case v of None \<Rightarrow> Inl ERR_ACCOUNT_DOES_NOT_EXIST | Some m \<Rightarrow> message_get (h_string H) m)),
      w\<lparr>w_state := (w_state w)\<lparr>metrics := inc_storage_reads (metrics (w_state w))\<rparr>\<rparr>)"
proof (cases "logical_get (w_state w) (get_account_code_identifier_for_account_key a)")
  case (Inr v)
  then show ?thesis
    by (cases v; cases "message_get (h_string H) (the v)")
      (auto simp: account_code_of_def get_account_code_identifier_for_account_def andThen_def on_state_def
        get_logical lift_result_def ret_def)
qed (auto simp: account_code_of_def get_account_code_identifier_for_account_def andThen_def on_state_def
    get_logical lift_result_def ret_def)

lemma do_query_self_loop:
  assumes sys: "a \<noteq> RUNTIME_ACCOUNT_ID" "a \<noteq> STORAGE_ACCOUNT_ID"
    and code: "A cid = Inr (Some (self_query_code a))"
    and stored: "logical_get (w_state w) (get_account_code_identifier_for_account_key a) = Inr (Some m)"
      "message_get (h_string H) m = Inr cid"
  shows "fst (do_query H A n c a req w) = OutOfFuel"
  using stored
proof (induction n arbitrary: c w)
  case (Suc n)
  let ?w = "w\<lparr>w_state := (w_state w)\<lparr>metrics := inc_storage_reads (metrics (w_state w))\<rparr>\<rparr>"
  have "account_code_of H a w = (Ok cid, ?w)" using Suc.prems by (simp add: account_code_of_eq)
  moreover have "fst (do_query H A n (branch_query c a) a req ?w) = OutOfFuel"
    by (rule Suc.IH) (use Suc.prems in simp_all)
  ultimately show ?case using sys code
    by (auto simp: do_query_with_def andThen_def with_code_def lift_result_def self_query_code_def
        attempt_def split: prod.splits)
qed simp

end
