(* ===== verification/Stf.thy ===== *)
theory Stf
  imports Invoker_Outcomes
begin

text \<open>
  The state transition function (\<open>crates/app/stf/src/lib.rs\<close>) over the traits of
  \<open>crates/app/sdk/stf_traits/src/lib.rs\<close>: the phases of a transaction, blocks with their gas limit,
  simulation and queries. A transaction, a block and the four handlers of an \<open>Stf\<close> are records whose
  fields are the trait methods; methods that take an environment are trees of environment calls.
  Operations return the state they leave and \<open>Panic\<close> or \<open>OutOfFuel\<close> where account code panics or the
  fuel for nested calls runs out. The clock readings of \<open>apply_block_with_metrics\<close> are arguments.
\<close>

section \<open>Transactions, blocks and handlers\<close>

record sender_bootstrap =
  sb_account_code_id :: string
  sb_init_message :: message

record tx =
  tx_sender :: account_id
  tx_recipient :: account_id
  tx_request :: invoke_request
  tx_gas_limit :: u64
  tx_funds :: "fungible_asset list"
  tx_compute_identifier :: bytes
  tx_resolve_sender_account :: "account_id prog"
  tx_resolve_recipient_account :: "account_id prog"
  tx_sender_bootstrap :: "sender_bootstrap option"
  tx_after_sender_bootstrap :: "account_id \<Rightarrow> unit prog"

text \<open>A transaction with the trait's default methods.\<close>

definition default_tx :: "account_id \<Rightarrow> account_id \<Rightarrow> invoke_request \<Rightarrow> u64 \<Rightarrow> fungible_asset list \<Rightarrow> bytes \<Rightarrow> tx" where
  "default_tx from to req limit fs ident =
     \<lparr>tx_sender = from, tx_recipient = to, tx_request = req, tx_gas_limit = limit, tx_funds = fs,
      tx_compute_identifier = ident, tx_resolve_sender_account = Return (Inr from),
      tx_resolve_recipient_account = Return (Inr to), tx_sender_bootstrap = None,
      tx_after_sender_bootstrap = (\<lambda>_. Return (Inr ()))\<rparr>"

record blk =
  blk_context :: block_context
  blk_txs :: "tx list"
  blk_gas_limit :: u64

record stf =
  begin_blocker :: "blk \<Rightarrow> unit prog"
  end_blocker :: "unit prog"
  tx_validator :: "tx \<Rightarrow> unit prog"
  post_tx_handler :: "tx \<Rightarrow> u64 \<Rightarrow> error_code + invoke_response \<Rightarrow> unit prog"
  stf_gas_config :: storage_gas_config

record tx_result =
  tr_events :: "event list"
  tr_gas_used :: u64
  tr_response :: "error_code + invoke_response"

record block_result =
  begin_block_events :: "event list"
  tx_results :: "tx_result list"
  end_block_events :: "event list"
  br_gas_used :: u64
  txs_skipped :: nat

record query_context =
  qc_gas_limit :: "u64 option"
  qc_sender :: account_id
  qc_funds :: "fungible_asset list"
  qc_block :: block_context

section \<open>The phases of a transaction\<close>

definition run_in :: "host \<Rightarrow> account_codes \<Rightarrow> nat \<Rightarrow> ctx \<Rightarrow> 'a prog \<Rightarrow> (world, error_code, 'a) comp" where
  "run_in H A n c p = run (do_exec H A n) (do_query H A n) c p"

definition discard_events :: "(world, error_code, unit) comp" where
  "discard_events w = (Ok (), w\<lparr>w_state := snd (pop_events (w_state w))\<rparr>)"

definition resolve_sender_phase ::
    "host \<Rightarrow> account_codes \<Rightarrow> nat \<Rightarrow> tx \<Rightarrow> block_context \<Rightarrow> (world, error_code, account_id) comp" where
  "resolve_sender_phase H A n tx b = run_in H A n (new_for_begin_block b) (tx_resolve_sender_account tx)"

definition bootstrap_sender_phase ::
    "host \<Rightarrow> account_codes \<Rightarrow> nat \<Rightarrow> tx \<Rightarrow> account_id \<Rightarrow> block_context \<Rightarrow> (world, error_code, unit) comp" where
  "bootstrap_sender_phase H A n tx resolved_sender b =
     (case tx_sender_bootstrap tx of
        None \<Rightarrow> ret ()
      | Some bootstrap \<Rightarrow>
          let reg_ctx = new_for_begin_block b in
          andThen (register_account_at_id H A (do_exec H A n) (do_query H A n) reg_ctx resolved_sender
                     (sb_account_code_id bootstrap) (sb_init_message bootstrap)) (\<lambda>_.
          andThen (run_in H A n reg_ctx (tx_after_sender_bootstrap tx resolved_sender)) (\<lambda>_.
          discard_events)))"

definition validate_tx_phase ::
    "host \<Rightarrow> account_codes \<Rightarrow> nat \<Rightarrow> stf \<Rightarrow> tx \<Rightarrow> ctx \<Rightarrow> (world, error_code, unit) comp" where
  "validate_tx_phase H A n S tx c = run_in H A n c (tx_validator S tx)"

definition execute_tx_phase ::
    "host \<Rightarrow> account_codes \<Rightarrow> nat \<Rightarrow> stf \<Rightarrow> tx \<Rightarrow> ctx \<Rightarrow> account_id \<Rightarrow> (world, error_code, invoke_response) comp" where
  "execute_tx_phase H A n S tx c resolved_sender =
     (let exec_ctx = into_new_exec c resolved_sender in
      andThen (run_in H A n exec_ctx (tx_resolve_recipient_account tx)) (\<lambda>recipient.
      attempt (do_exec H A n exec_ctx recipient (tx_request tx) (tx_funds tx)) (\<lambda>response w.
      andThen (run_in H A n exec_ctx (post_tx_handler S tx (invoker_gas_used w) response))
        (\<lambda>_. lift_result response) w)))"

definition tx_error_result :: "world \<Rightarrow> error_code \<Rightarrow> tx_result \<times> exec_state" where
  "tx_error_result w err =
     (case pop_events (w_state w) of
        (evs, s) \<Rightarrow> (\<lparr>tr_events = evs, tr_gas_used = gas_used (w_gas w), tr_response = Inl err\<rparr>, s))"

text \<open>The phases in order; the first error ends the transaction with \<open>tx_error_result\<close>, and so does
  an error of the last one.\<close>

definition tx_phases ::
    "host \<Rightarrow> account_codes \<Rightarrow> nat \<Rightarrow> stf \<Rightarrow> tx \<Rightarrow> block_context \<Rightarrow> (world, error_code, invoke_response) comp" where
  "tx_phases H A n S tx b =
     andThen (resolve_sender_phase H A n tx b) (\<lambda>resolved_sender.
     andThen (bootstrap_sender_phase H A n tx resolved_sender b) (\<lambda>_.
     let validation_ctx = new_for_validate_tx (tx_compute_identifier tx) b in
     andThen (validate_tx_phase H A n S tx validation_ctx) (\<lambda>_.
     execute_tx_phase H A n S tx validation_ctx resolved_sender)))"

definition apply_tx ::
    "host \<Rightarrow> account_codes \<Rightarrow> nat \<Rightarrow> stf \<Rightarrow> tx \<Rightarrow> storage_gas_config \<Rightarrow> block_context \<Rightarrow>
       (exec_state, error_code, tx_result) comp" where
  "apply_tx H A n S tx cfg b state =
     (let gas_counter = Finite (tx_gas_limit tx) 0 cfg in
      case tx_phases H A n S tx b \<lparr>w_state = state, w_gas = gas_counter\<rparr> of
        (Ok response, w) \<Rightarrow>
          (case pop_events (w_state w) of
             (evs, s) \<Rightarrow>
               (Ok \<lparr>tr_events = evs, tr_gas_used = gas_used (w_gas w), tr_response = Inr response\<rparr>, s))
      | (Err err, w) \<Rightarrow> (case tx_error_result w err of (r, s) \<Rightarrow> (Ok r, s))
      | (Panic, w) \<Rightarrow> (Panic, w_state w)
      | (OutOfFuel, w) \<Rightarrow> (OutOfFuel, w_state w))"

section \<open>Blocks\<close>

text \<open>A handler that returns nothing: its result is dropped, a panic is not.\<close>

definition run_blocker :: "host \<Rightarrow> account_codes \<Rightarrow> nat \<Rightarrow> ctx \<Rightarrow> unit prog \<Rightarrow> (exec_state, error_code, event list) comp" where
  "run_blocker H A n c p state =
     (case run_in H A n c p \<lparr>w_state = state, w_gas = Infinite\<rparr> of
        (Panic, w) \<Rightarrow> (Panic, w_state w)
      | (OutOfFuel, w) \<Rightarrow> (OutOfFuel, w_state w)
      | (_, w) \<Rightarrow> (case pop_events (w_state w) of (evs, s) \<Rightarrow> (Ok evs, s)))"

definition do_begin_block :: "host \<Rightarrow> account_codes \<Rightarrow> nat \<Rightarrow> stf \<Rightarrow> blk \<Rightarrow> (exec_state, error_code, event list) comp" where
  "do_begin_block H A n S b = run_blocker H A n (new_for_begin_block (blk_context b)) (begin_blocker S b)"

definition do_end_block :: "host \<Rightarrow> account_codes \<Rightarrow> nat \<Rightarrow> stf \<Rightarrow> block_context \<Rightarrow> (exec_state, error_code, event list) comp" where
  "do_end_block H A n S b = run_blocker H A n (new_for_end_block b) (end_blocker S)"

text \<open>The loop over the transactions: the results so far, the cumulative gas and the number skipped.
  \<open>txs_len\<close> is \<open>txs.len()\<close>.\<close>

fun apply_txs ::
    "host \<Rightarrow> account_codes \<Rightarrow> nat \<Rightarrow> stf \<Rightarrow> block_context \<Rightarrow> u64 \<Rightarrow> nat \<Rightarrow> tx list \<Rightarrow>
       tx_result list \<times> u64 \<times> nat \<Rightarrow> (exec_state, error_code, tx_result list \<times> u64 \<times> nat) comp" where
  "apply_txs H A n S b block_gas_limit txs_len [] (results, cumulative_gas, skipped) s =
     (Ok (results, cumulative_gas, skipped), s)"
| "apply_txs H A n S b block_gas_limit txs_len (tx # txs) (results, cumulative_gas, skipped) s =
     (if saturating_add cumulative_gas (tx_gas_limit tx) > block_gas_limit
      then apply_txs H A n S b block_gas_limit txs_len txs (results, cumulative_gas, skipped + 1) s
      else case apply_tx H A n S tx (stf_gas_config S) b s of
        (Ok result, s) \<Rightarrow>
          (let cumulative_gas = saturating_add cumulative_gas (tr_gas_used result);
               results = results @ [result]
           in if cumulative_gas \<ge> block_gas_limit
              then (Ok (results, cumulative_gas, skipped + (txs_len - length results)), s)
              else apply_txs H A n S b block_gas_limit txs_len txs (results, cumulative_gas, skipped) s)
      | (Err e, s) \<Rightarrow> (Err e, s)
      | (Panic, s) \<Rightarrow> (Panic, s)
      | (OutOfFuel, s) \<Rightarrow> (OutOfFuel, s))"

definition apply_block ::
    "host \<Rightarrow> account_codes \<Rightarrow> nat \<Rightarrow> stf \<Rightarrow> blk \<Rightarrow> (exec_state, error_code, block_result) comp" where
  "apply_block H A n S b =
     andThen (do_begin_block H A n S b) (\<lambda>begin_events.
     andThen (apply_txs H A n S (blk_context b) (blk_gas_limit b) (length (blk_txs b)) (blk_txs b) ([], 0, 0))
       (\<lambda>(results, cumulative_gas, skipped).
     andThen (do_end_block H A n S (blk_context b)) (\<lambda>end_events.
     ret \<lparr>begin_block_events = begin_events, tx_results = results, end_block_events = end_events,
          br_gas_used = cumulative_gas, txs_skipped = skipped\<rparr>)))"

text \<open>The execution of a block starts from an empty overlay over the store.\<close>

definition apply_block_on ::
    "host \<Rightarrow> account_codes \<Rightarrow> nat \<Rightarrow> stf \<Rightarrow> readonly_kv \<Rightarrow> blk \<Rightarrow> (error_code, block_result) outcome \<times> exec_state" where
  "apply_block_on H A n S storage b = apply_block H A n S b (exec_state_new storage)"

section \<open>Blocks with metrics\<close>

record tx_execution_metrics =
  txm_index :: u64
  txm_duration_ns :: u64
  txm_gas_used :: u64
  txm_storage_reads :: u64
  txm_storage_writes :: u64
  txm_events_emitted :: u64
  txm_checkpoints :: u64
  txm_restores :: u64
  txm_overlay_len_max :: nat
  txm_undo_log_len_max :: nat

definition tx_metrics_from_delta :: "u64 \<Rightarrow> u64 \<Rightarrow> u64 \<Rightarrow> execution_metrics \<Rightarrow> tx_execution_metrics" where
  "tx_metrics_from_delta index duration_ns gas delta =
     \<lparr>txm_index = index, txm_duration_ns = duration_ns, txm_gas_used = gas,
      txm_storage_reads = storage_reads delta, txm_storage_writes = storage_writes delta,
      txm_events_emitted = events_emitted delta, txm_checkpoints = checkpoints delta,
      txm_restores = restores delta, txm_overlay_len_max = overlay_len_max delta,
      txm_undo_log_len_max = undo_log_len_max delta\<rparr>"

record block_execution_metrics =
  bm_begin_block_ns :: u64
  bm_end_block_ns :: u64
  bm_total_ns :: u64
  bm_storage_reads :: u64
  bm_storage_writes :: u64
  bm_events_emitted :: u64
  bm_checkpoints :: u64
  bm_restores :: u64
  bm_overlay_len_max :: nat
  bm_undo_log_len_max :: nat
  bm_txs :: "tx_execution_metrics list"

definition block_metrics_from_delta ::
    "u64 \<Rightarrow> u64 \<Rightarrow> u64 \<Rightarrow> execution_metrics \<Rightarrow> tx_execution_metrics list \<Rightarrow> block_execution_metrics" where
  "block_metrics_from_delta begin_block_ns end_block_ns tot delta txs =
     \<lparr>bm_begin_block_ns = begin_block_ns, bm_end_block_ns = end_block_ns, bm_total_ns = tot,
      bm_storage_reads = storage_reads delta, bm_storage_writes = storage_writes delta,
      bm_events_emitted = events_emitted delta, bm_checkpoints = checkpoints delta,
      bm_restores = restores delta, bm_overlay_len_max = overlay_len_max delta,
      bm_undo_log_len_max = undo_log_len_max delta, bm_txs = txs\<rparr>"

record clock_readings =
  begin_ns :: u64
  tx_ns :: "nat \<Rightarrow> u64"
  end_ns :: u64
  total_ns :: u64

fun apply_txs_with_metrics ::
    "host \<Rightarrow> account_codes \<Rightarrow> nat \<Rightarrow> stf \<Rightarrow> block_context \<Rightarrow> u64 \<Rightarrow> nat \<Rightarrow> (nat \<Rightarrow> u64) \<Rightarrow> nat \<Rightarrow> tx list \<Rightarrow>
       tx_result list \<times> u64 \<times> nat \<Rightarrow> tx_execution_metrics list \<Rightarrow>
       (exec_state, error_code, (tx_result list \<times> u64 \<times> nat) \<times> tx_execution_metrics list) comp" where
  "apply_txs_with_metrics H A n S b block_gas_limit txs_len dur index [] (results, cumulative_gas, skipped) ms s =
     (Ok ((results, cumulative_gas, skipped), ms), s)"
| "apply_txs_with_metrics H A n S b block_gas_limit txs_len dur index (tx # txs) (results, cumulative_gas, skipped) ms s =
     (if saturating_add cumulative_gas (tx_gas_limit tx) > block_gas_limit
      then apply_txs_with_metrics H A n S b block_gas_limit txs_len dur (index + 1) txs
             (results, cumulative_gas, skipped + 1) ms s
      else case apply_tx H A n S tx (stf_gas_config S) b s of
        (Ok result, s') \<Rightarrow>
          (let delta = metrics_delta (metrics_snapshot s') (metrics_snapshot s);
               ms = ms @ [tx_metrics_from_delta (of_nat index) (dur index) (tr_gas_used result) delta];
               cumulative_gas = saturating_add cumulative_gas (tr_gas_used result);
               results = results @ [result]
           in if cumulative_gas \<ge> block_gas_limit
              then (Ok ((results, cumulative_gas, skipped + (txs_len - length results)), ms), s')
              else apply_txs_with_metrics H A n S b block_gas_limit txs_len dur (index + 1) txs
                     (results, cumulative_gas, skipped) ms s')
      | (Err e, s') \<Rightarrow> (Err e, s')
      | (Panic, s') \<Rightarrow> (Panic, s')
      | (OutOfFuel, s') \<Rightarrow> (OutOfFuel, s'))"

definition apply_block_with_metrics ::
    "host \<Rightarrow> account_codes \<Rightarrow> nat \<Rightarrow> stf \<Rightarrow> clock_readings \<Rightarrow> blk \<Rightarrow>
       (exec_state, error_code, block_result \<times> block_execution_metrics) comp" where
  "apply_block_with_metrics H A n S clock b s0 =
     andThen (do_begin_block H A n S b) (\<lambda>begin_events.
     andThen (apply_txs_with_metrics H A n S (blk_context b) (blk_gas_limit b) (length (blk_txs b))
                (tx_ns clock) 0 (blk_txs b) ([], 0, 0) [])
       (\<lambda>((results, cumulative_gas, skipped), tx_metrics).
     andThen (do_end_block H A n S (blk_context b)) (\<lambda>end_events s.
     (Ok (\<lparr>begin_block_events = begin_events, tx_results = results, end_block_events = end_events,
            br_gas_used = cumulative_gas, txs_skipped = skipped\<rparr>,
          block_metrics_from_delta (begin_ns clock) (end_ns clock) (total_ns clock)
            (metrics_delta (metrics_snapshot s) (metrics_snapshot s0)) tx_metrics), s)))) s0"

section \<open>System execution, queries and simulation\<close>

definition system_exec_ctx ::
    "host \<Rightarrow> account_codes \<Rightarrow> nat \<Rightarrow> readonly_kv \<Rightarrow> ctx \<Rightarrow> 'r prog \<Rightarrow> (error_code, 'r \<times> exec_state) outcome" where
  "system_exec_ctx H A n storage c action =
     (case run_in H A n c action \<lparr>w_state = exec_state_new storage, w_gas = Infinite\<rparr> of
        (Ok resp, w) \<Rightarrow> Ok (resp, snd (pop_events (w_state w)))
      | (Err e, w) \<Rightarrow> Err e
      | (Panic, w) \<Rightarrow> Panic
      | (OutOfFuel, w) \<Rightarrow> OutOfFuel)"

definition system_exec ::
    "host \<Rightarrow> account_codes \<Rightarrow> nat \<Rightarrow> readonly_kv \<Rightarrow> block_context \<Rightarrow> 'r prog \<Rightarrow> (error_code, 'r \<times> exec_state) outcome" where
  "system_exec H A n storage b action = system_exec_ctx H A n storage (new_for_begin_block b) action"

definition system_exec_as ::
    "host \<Rightarrow> account_codes \<Rightarrow> nat \<Rightarrow> readonly_kv \<Rightarrow> block_context \<Rightarrow> account_id \<Rightarrow> 'r prog \<Rightarrow>
       (error_code, 'r \<times> exec_state) outcome" where
  "system_exec_as H A n storage b impersonate action =
     system_exec_ctx H A n storage ((new_for_begin_block b)\<lparr>whoami := impersonate\<rparr>) action"

definition stf_query ::
    "host \<Rightarrow> account_codes \<Rightarrow> nat \<Rightarrow> readonly_kv \<Rightarrow> 'm invokable \<Rightarrow> account_id \<Rightarrow> 'm \<Rightarrow> gas_counter \<Rightarrow>
       (error_code, invoke_response) outcome" where
  "stf_query H A n storage I to req gc =
     (case invoke_request_new I req of
        Inl e \<Rightarrow> Err e
      | Inr request \<Rightarrow>
          fst (do_query H A n (new_for_query to) to request \<lparr>w_state = exec_state_new storage, w_gas = gc\<rparr>))"

definition query_invoke_request ::
    "host \<Rightarrow> account_codes \<Rightarrow> nat \<Rightarrow> stf \<Rightarrow> readonly_kv \<Rightarrow> account_id \<Rightarrow> invoke_request \<Rightarrow> query_context \<Rightarrow>
       (error_code, tx_result) outcome" where
  "query_invoke_request H A n S storage to request context =
     (let gas_counter = (case qc_gas_limit context of
                           Some limit \<Rightarrow> gas_finite limit (stf_gas_config S)
                         | None \<Rightarrow> gas_infinite);
          c = new_for_query_with_context to (qc_sender context) (qc_funds context) (qc_block context)
      in case do_query H A n c to request \<lparr>w_state = exec_state_new storage, w_gas = gas_counter\<rparr> of
           (Ok r, w) \<Rightarrow> Ok \<lparr>tr_events = fst (pop_events (w_state w)), tr_gas_used = gas_used (w_gas w),
                            tr_response = Inr r\<rparr>
         | (Err e, w) \<Rightarrow> Ok \<lparr>tr_events = fst (pop_events (w_state w)), tr_gas_used = gas_used (w_gas w),
                             tr_response = Inl e\<rparr>
         | (Panic, w) \<Rightarrow> Panic
         | (OutOfFuel, w) \<Rightarrow> OutOfFuel)"

definition simulate_transaction ::
    "host \<Rightarrow> account_codes \<Rightarrow> nat \<Rightarrow> stf \<Rightarrow> readonly_kv \<Rightarrow> tx \<Rightarrow> block_context \<Rightarrow> (error_code, tx_result) outcome" where
  "simulate_transaction H A n S storage tx b =
     fst (apply_tx H A n S tx (stf_gas_config S) b (exec_state_new storage))"

definition stf_run ::
    "host \<Rightarrow> account_codes \<Rightarrow> nat \<Rightarrow> readonly_kv \<Rightarrow> account_id \<Rightarrow> 'r qprog \<Rightarrow> (error_code, 'r) outcome" where
  "stf_run H A n storage account_id handle =
     fst (run_query (do_query H A n) (new_for_query account_id) handle
            \<lparr>w_state = exec_state_new storage, w_gas = Infinite\<rparr>)"

section \<open>Batch signature verification\<close>

record signature_verification_result =
  sv_index :: nat
  sv_result :: "error_code + unit"

text \<open>The parallel map of \<open>rayon\<close> collects in order.\<close>

definition verify_signatures_parallel ::
    "'t list \<Rightarrow> ('t \<Rightarrow> error_code + unit) \<Rightarrow> signature_verification_result list" where
  "verify_signatures_parallel txs verify_signature =
     map (\<lambda>(index, tx). \<lparr>sv_index = index, sv_result = verify_signature tx\<rparr>) (enumerate 0 txs)"

fun filter_valid_signatures ::
    "'t list \<Rightarrow> signature_verification_result list \<Rightarrow> 't list \<times> nat list" where
  "filter_valid_signatures (tx # txs) (result # results) =
     (let (valid_txs, indices) = filter_valid_signatures txs results in
      if sv_result result = Inr () then (tx # valid_txs, sv_index result # indices)
      else (valid_txs, indices))"
| "filter_valid_signatures _ _ = ([], [])"

end
