(* ===== verification/Stf_Props.thy ===== *)
theory Stf_Props
  imports Stf
begin

text \<open>
  What the state transition function keeps: gas bounds of transactions and blocks, the limits of the
  execution state, the accounting of skipped transactions, and the agreement of the two block
  functions.
\<close>

section \<open>Phases\<close>

lemma keeps_mono: "keeps R m \<Longrightarrow> (\<And>a b. R a b \<Longrightarrow> Q a b) \<Longrightarrow> keeps Q m"
  by (simp add: keeps_def)

definition phase_relation :: "world \<Rightarrow> world \<Rightarrow> bool" where
  "phase_relation w w' \<longleftrightarrow> gas_le (w_gas w) (w_gas w') \<and> (gas_ok (w_gas w) \<longrightarrow> gas_ok (w_gas w')) \<and>
     (exec_state_wf (w_state w) \<longrightarrow> exec_state_wf (w_state w')) \<and>
     base_storage (w_state w') = base_storage (w_state w)"

lemma phase_relationI: "gas_relation w w' \<Longrightarrow> limits_relation w w' \<Longrightarrow> phase_relation w w'"
  by (simp add: phase_relation_def gas_relation_def limits_relation_def rollbackable_def)

lemma phase_keepsI: "keeps gas_relation m \<Longrightarrow> keeps limits_relation m \<Longrightarrow> keeps phase_relation m"
  by (simp add: keeps_def phase_relationI)

lemma phase_trans: "phase_relation a b \<Longrightarrow> phase_relation b c \<Longrightarrow> phase_relation a c"
  by (auto simp: phase_relation_def intro: gas_le_trans)

lemma phase_andThen: "keeps phase_relation m \<Longrightarrow> (\<And>a. keeps phase_relation (f a)) \<Longrightarrow> keeps phase_relation (andThen m f)"
  using keeps_andThen [of phase_relation] phase_trans by blast

lemma phase_attempt: "keeps phase_relation m \<Longrightarrow> (\<And>a. keeps phase_relation (f a)) \<Longrightarrow> keeps phase_relation (attempt m f)"
  using keeps_attempt [of phase_relation] phase_trans by blast

lemma pop_events_base: "base_storage (snd (pop_events s)) = base_storage s"
  by (simp add: pop_events_def)

lemma phase_basic: "keeps phase_relation (ret a)" "keeps phase_relation (lift_result r)" "keeps phase_relation discard_events"
  by (simp_all add: keeps_def ret_def lift_result_def discard_events_def phase_relation_def exec_state_wf_pop
      pop_events_base)

lemma phase_do_exec: "keeps phase_relation (do_exec H A n c to data fs)"
  by (rule phase_keepsI [OF gas.kr_do_exec limits.kr_do_exec])

lemma phase_run_in: "keeps phase_relation (run_in H A n c p)"
  unfolding run_in_def
  by (rule phase_keepsI [OF gas.kr_run limits.kr_run])
    (rule gas.kr_do_exec gas.kr_do_query limits.kr_do_exec limits.kr_do_query)+

lemma phase_register: "keeps phase_relation (register_account_at_id H A (do_exec H A n) (do_query H A n) c a cid m)"
  by (rule phase_keepsI [OF gas.kr_register limits.kr_register])
    (rule gas.kr_do_exec gas.kr_do_query limits.kr_do_exec limits.kr_do_query)+

lemma phase_bootstrap: "keeps phase_relation (bootstrap_sender_phase H A n tx a b)"
  unfolding bootstrap_sender_phase_def Let_def
  by (auto split: option.splits intro!: phase_basic phase_andThen phase_register phase_run_in)

lemma phase_execute: "keeps phase_relation (execute_tx_phase H A n S tx c a)"
proof -
  have post: "keeps phase_relation (\<lambda>w. andThen (run_in H A n c' (f w)) (\<lambda>_. lift_result r) w)"
    for c' f and r :: "error_code + invoke_response"
    using keepsD [OF phase_andThen [OF phase_run_in phase_basic(2)]] by (rule keepsI)
  show ?thesis unfolding execute_tx_phase_def Let_def
    by (intro phase_andThen phase_attempt phase_run_in phase_do_exec post)
qed

lemma phase_tx: "keeps phase_relation (tx_phases H A n S tx b)"
  unfolding tx_phases_def resolve_sender_phase_def validate_tx_phase_def Let_def
  by (intro phase_andThen phase_run_in phase_bootstrap phase_execute)

section \<open>Transactions\<close>

lemma apply_tx_cases:
  assumes "apply_tx H A n S tx cfg b s = (Ok r, s')"
  obtains w where "phase_relation \<lparr>w_state = s, w_gas = Finite (tx_gas_limit tx) 0 cfg\<rparr> w"
    "tr_gas_used r = gas_used (w_gas w)" "s' = snd (pop_events (w_state w))"
proof -
  let ?w = "\<lparr>w_state = s, w_gas = Finite (tx_gas_limit tx) 0 cfg\<rparr>"
  have "phase_relation ?w (snd (tx_phases H A n S tx b ?w))" by (rule keepsD [OF phase_tx])
  moreover from assms have "tr_gas_used r = gas_used (w_gas (snd (tx_phases H A n S tx b ?w)))"
    "s' = snd (pop_events (w_state (snd (tx_phases H A n S tx b ?w))))"
    by (auto simp: apply_tx_def tx_error_result_def Let_def split: prod.splits outcome.splits)
  ultimately show ?thesis by (rule that)
qed

lemma apply_tx_gas_bound: "apply_tx H A n S tx cfg b s = (Ok r, s') \<Longrightarrow> tr_gas_used r \<le> tx_gas_limit tx"
proof (erule apply_tx_cases)
  fix w assume "phase_relation \<lparr>w_state = s, w_gas = Finite (tx_gas_limit tx) 0 cfg\<rparr> w"
    and used: "tr_gas_used r = gas_used (w_gas w)"
  then have "gas_le (Finite (tx_gas_limit tx) 0 cfg) (w_gas w)" "gas_ok (w_gas w)"
    by (auto simp: phase_relation_def)
  then show ?thesis using used by (cases "w_gas w") auto
qed

lemma apply_tx_wf: "apply_tx H A n S tx cfg b s = (Ok r, s') \<Longrightarrow> exec_state_wf s \<Longrightarrow> exec_state_wf s'"
  by (erule apply_tx_cases) (simp add: phase_relation_def exec_state_wf_pop)

lemma apply_tx_base: "apply_tx H A n S tx cfg b s = (Ok r, s') \<Longrightarrow> base_storage s' = base_storage s"
  by (erule apply_tx_cases) (simp add: phase_relation_def pop_events_base)

section \<open>Blocks\<close>

text \<open>One turn of the loop: a transaction is skipped, is the last one executed, or is executed and
  followed by others.\<close>

lemma apply_txs_ConsE:
  assumes "apply_txs H A n S b lim N (tx # txs) (rs, g, k) s = (Ok (rs', g', k'), s')"
  obtains (skip) "lim < saturating_add g (tx_gas_limit tx)"
      "apply_txs H A n S b lim N txs (rs, g, k + 1) s = (Ok (rs', g', k'), s')"
  | (stop) r where "saturating_add g (tx_gas_limit tx) \<le> lim"
      "apply_tx H A n S tx (stf_gas_config S) b s = (Ok r, s')" "lim \<le> saturating_add g (tr_gas_used r)"
      "rs' = rs @ [r]" "g' = saturating_add g (tr_gas_used r)" "k' = k + (N - Suc (length rs))"
  | (more) r s1 where "saturating_add g (tx_gas_limit tx) \<le> lim"
      "apply_tx H A n S tx (stf_gas_config S) b s = (Ok r, s1)" "saturating_add g (tr_gas_used r) < lim"
      "apply_txs H A n S b lim N txs (rs @ [r], saturating_add g (tr_gas_used r), k) s1 =
         (Ok (rs', g', k'), s')"
proof (cases "lim < saturating_add g (tx_gas_limit tx)")
  case True
  with assms show ?thesis by (intro skip) auto
next
  case False
  obtain o1 s1 where tx: "apply_tx H A n S tx (stf_gas_config S) b s = (o1, s1)" by fastforce
  with assms False obtain r where ok: "o1 = Ok r" by (cases o1) auto
  show ?thesis
  proof (cases "lim \<le> saturating_add g (tr_gas_used r)")
    case True
    with assms False tx ok show ?thesis by (intro stop [of r]) (auto simp: Let_def not_less)
  next
    case below: False
    with assms False tx ok show ?thesis by (intro more [of r s1]) (auto simp: Let_def not_less)
  qed
qed

text \<open>Gas of a block: the loop keeps the cumulative gas within the limit.\<close>

lemma apply_txs_gas_bound:
  "apply_txs H A n S b lim N txs (rs, g, k) s = (Ok (rs', g', k'), s') \<Longrightarrow> g \<le> lim \<Longrightarrow> g' \<le> lim"
proof (induction txs arbitrary: rs g k s)
  case (Cons tx txs)
  from Cons.prems(1) show ?case
  proof (cases rule: apply_txs_ConsE)
    case (stop r)
    with saturating_add_mono [OF order_refl [of g] apply_tx_gas_bound [OF stop(2)]] show ?thesis by simp
  qed (use Cons in auto)
qed simp

lemma apply_txs_results:
  "apply_txs H A n S b lim N txs (rs, g, k) s = (Ok (rs', g', k'), s') \<Longrightarrow>
     \<exists>new. rs' = rs @ new \<and> g' = foldl saturating_add g (map tr_gas_used new) \<and> length new \<le> length txs"
proof (induction txs arbitrary: rs g k s)
  case (Cons tx txs)
  from Cons.prems show ?case
  proof (cases rule: apply_txs_ConsE)
    case skip
    from Cons.IH [OF skip(2)] show ?thesis by auto
  next
    case (stop r)
    then show ?thesis by (intro exI [of _ "[r]"]) simp
  next
    case (more r s1)
    from Cons.IH [OF more(4)] obtain new where "rs' = (rs @ [r]) @ new"
      "g' = foldl saturating_add (saturating_add g (tr_gas_used r)) (map tr_gas_used new)"
      "length new \<le> length txs" by blast
    then show ?thesis by (intro exI [of _ "r # new"]) simp
  qed
qed simp

text \<open>The count of skipped transactions is never too small, and exact as long as the gas limit is not
  reached.\<close>

lemma apply_txs_skipped:
  "apply_txs H A n S b lim N txs (rs, g, k) s = (Ok (rs', g', k'), s') \<Longrightarrow> N = length rs + k + length txs \<Longrightarrow>
     N \<le> length rs' + k' \<and> (g' < lim \<longrightarrow> length rs' + k' = N)"
proof (induction txs arbitrary: rs g k s)
  case (Cons tx txs)
  from Cons.prems(1) show ?case
  proof (cases rule: apply_txs_ConsE)
    case skip
    from Cons.IH [OF skip(2)] Cons.prems(2) show ?thesis by simp
  next
    case (more r s1)
    from Cons.IH [OF more(4)] Cons.prems(2) show ?thesis by simp
  qed (use Cons.prems(2) in auto)
qed simp

lemma apply_txs_wf:
  "apply_txs H A n S b lim N txs (rs, g, k) s = (Ok (rs', g', k'), s') \<Longrightarrow> exec_state_wf s \<Longrightarrow> exec_state_wf s'"
proof (induction txs arbitrary: rs g k s)
  case (Cons tx txs)
  from Cons.prems(1) show ?case
    by (cases rule: apply_txs_ConsE) (use Cons.IH Cons.prems(2) apply_tx_wf in blast)+
qed simp

lemma run_blocker_wf: "run_blocker H A n c p s = (r, s') \<Longrightarrow> exec_state_wf s \<Longrightarrow> exec_state_wf s'"
  using keepsD [OF phase_run_in [of H A n c p], of "\<lparr>w_state = s, w_gas = Infinite\<rparr>"]
  by (auto simp: run_blocker_def phase_relation_def exec_state_wf_pop split: prod.splits outcome.splits)
    (metis exec_state_wf_pop snd_conv)+

lemma apply_block_cases:
  assumes "apply_block H A n S b s = (Ok br, s')"
  obtains evs s1 s2 evs' where
    "do_begin_block H A n S b s = (Ok evs, s1)"
    "apply_txs H A n S (blk_context b) (blk_gas_limit b) (length (blk_txs b)) (blk_txs b) ([], 0, 0) s1 =
       (Ok (tx_results br, br_gas_used br, txs_skipped br), s2)"
    "do_end_block H A n S (blk_context b) s2 = (Ok evs', s')"
    "begin_block_events br = evs" "end_block_events br = evs'"
  using assms unfolding apply_block_def andThen_def ret_def
  by (auto split: prod.splits outcome.splits)

lemma apply_block_wf: "apply_block H A n S b s = (Ok br, s') \<Longrightarrow> exec_state_wf s \<Longrightarrow> exec_state_wf s'"
  by (erule apply_block_cases) (metis apply_txs_wf do_begin_block_def do_end_block_def run_blocker_wf)

text \<open>Execution never replaces the storage it reads.\<close>

lemma apply_txs_base:
  "apply_txs H A n S b lim N txs (rs, g, k) s = (Ok (rs', g', k'), s') \<Longrightarrow> base_storage s' = base_storage s"
proof (induction txs arbitrary: rs g k s)
  case (Cons tx txs)
  from Cons.prems show ?case
    by (cases rule: apply_txs_ConsE) (use Cons.IH apply_tx_base in metis)+
qed simp

lemma run_blocker_base: "run_blocker H A n c p s = (r, s') \<Longrightarrow> base_storage s' = base_storage s"
  using keepsD [OF phase_run_in [of H A n c p], of "\<lparr>w_state = s, w_gas = Infinite\<rparr>"]
  by (auto simp: run_blocker_def phase_relation_def split: prod.splits outcome.splits)
    (metis pop_events_base snd_conv)+

lemma apply_block_base: "apply_block H A n S b s = (Ok br, s') \<Longrightarrow> base_storage s' = base_storage s"
  by (erule apply_block_cases) (metis apply_txs_base do_begin_block_def do_end_block_def run_blocker_base)

section \<open>The two block functions agree\<close>

fun map_ok :: "('a \<Rightarrow> 'b) \<Rightarrow> ('e, 'a) outcome \<times> 's \<Rightarrow> ('e, 'b) outcome \<times> 's" where
  "map_ok f (Ok a, s) = (Ok (f a), s)"
| "map_ok f (Err e, s) = (Err e, s)"
| "map_ok f (Panic, s) = (Panic, s)"
| "map_ok f (OutOfFuel, s) = (OutOfFuel, s)"

lemma apply_txs_with_metrics_agrees:
  "map_ok fst (apply_txs_with_metrics H A n S b lim N dur i txs (rs, g, k) ms s) =
     apply_txs H A n S b lim N txs (rs, g, k) s"
proof (induction txs arbitrary: i rs g k ms s)
  case (Cons tx txs)
  obtain o1 s1 where "apply_tx H A n S tx (stf_gas_config S) b s = (o1, s1)" by fastforce
  with Cons.IH show ?case by (cases o1) (simp_all add: Let_def)
qed simp

lemma apply_block_with_metrics_agrees:
  "map_ok fst (apply_block_with_metrics H A n S clock b s) = apply_block H A n S b s"
proof -
  let ?txs = "apply_txs_with_metrics H A n S (blk_context b) (blk_gas_limit b) (length (blk_txs b))
    (tx_ns clock) 0 (blk_txs b) ([], 0, 0) []"
  obtain o1 s1 where start: "do_begin_block H A n S b s = (o1, s1)" by fastforce
  obtain o2 s2 where txs: "?txs s1 = (o2, s2)" by fastforce
  note agree = apply_txs_with_metrics_agrees [of H A n S "blk_context b" "blk_gas_limit b"
      "length (blk_txs b)" "tx_ns clock" 0 "blk_txs b" "[]" 0 0 "[]" s1, unfolded txs, symmetric]
  obtain o3 s3 where "do_end_block H A n S (blk_context b) s2 = (o3, s3)" by fastforce
  then show ?thesis
    unfolding apply_block_with_metrics_def apply_block_def andThen_def start ret_def
    by (cases o1; cases o2; cases o3) (auto simp: txs agree split: prod.splits)
qed

section \<open>Signature filtering\<close>

lemma filter_valid_signatures_map:
  "filter_valid_signatures txs
     (map (\<lambda>(index, tx). \<lparr>sv_index = index, sv_result = v tx\<rparr>) (enumerate i txs)) =
   (filter (\<lambda>t. v t = Inr ()) txs,
    map fst (filter (\<lambda>(j, t). v t = Inr ()) (enumerate i txs)))"
  by (induction txs arbitrary: i) (auto simp: Let_def)

end
