(* ===== verification/Storage_Access.thy ===== *)
theory Storage_Access
  imports Invoker_Outcomes
begin

text \<open>
  Typed access to storage: what \<open>exec_account\<close> and \<open>query_account\<close> on the storage account do to the
  part of the state that belongs to the calling account.
\<close>

section \<open>Keys\<close>

lemma storage_key_inject:
  "account_wf a \<Longrightarrow> account_wf b \<Longrightarrow> storage_key a k = storage_key b k' \<longleftrightarrow> a = b \<and> k = k'"
  by (auto simp: storage_key_def)

lemma storage_key_prefix_differs:
  "storage_key a k \<noteq> get_account_code_identifier_for_account_key b"
  "storage_key a k \<noteq> [ACCOUNT_IDENTIFIER_SINGLETON_PREFIX]"
  "get_account_code_identifier_for_account_key b \<noteq> [ACCOUNT_IDENTIFIER_SINGLETON_PREFIX]"
  by (simp_all add: storage_key_def get_account_code_identifier_for_account_key_def
      ACCOUNT_STORAGE_PREFIX_def ACCOUNT_IDENTIFIER_PREFIX_def ACCOUNT_IDENTIFIER_SINGLETON_PREFIX_def)

section \<open>The storage account\<close>

lemma do_exec_storage:
  "do_exec H A (Suc n) c STORAGE_ACCOUNT_ID req [] w =
     (if call_depth c \<ge> MAX_CALL_DEPTH then (Err ERR_CALL_DEPTH_EXCEEDED, w)
      else case checkpoint (w_state w) of
        (cp, s) \<Rightarrow>
          (case handle_storage_exec H c req (w\<lparr>w_state := s\<rparr>) of
             (Err e, w') \<Rightarrow> restore_or_panic cp e w'
           | r \<Rightarrow> r))"
  by (auto simp: do_exec_with_def handle_transfers_def ret_def exec_without_transfers_def
      split: prod.splits outcome.splits)

lemma do_query_storage: "do_query H A (Suc n) c STORAGE_ACCOUNT_ID req = handle_storage_query H req"
  by (rule ext) (simp add: do_query_with_def)

text \<open>A request to the storage account that returns normally has written or removed one key of the
  caller.\<close>

definition writes_under :: "account_id \<Rightarrow> world \<Rightarrow> world \<Rightarrow> bool" where
  "writes_under a w w' \<longleftrightarrow>
     (\<exists>k v. logical_get (w_state w') = (logical_get (w_state w))(storage_key a k := Inr v))"

lemma writes_under_set:
  "on_state (set_op (storage_key a k) v) w = (Ok (), w') \<Longrightarrow> writes_under a w w'"
  unfolding writes_under_def using set_op_logical [of "storage_key a k" v "w_state w"]
  by (intro exI [of _ k] exI [of _ "Some v"]) (auto simp: on_state_def split: prod.splits)

lemma writes_under_remove:
  "on_state (remove_op (storage_key a k)) w = (Ok (), w') \<Longrightarrow> writes_under a w w'"
  unfolding writes_under_def using remove_op_logical [of "storage_key a k" "w_state w"]
  by (intro exI [of _ k] exI [of _ None]) (auto simp: on_state_def split: prod.splits)

lemma writes_under_gas: "writes_under a (w\<lparr>w_gas := g\<rparr>) w' = writes_under a w w'"
  by (simp add: writes_under_def)

lemma andThen_OkE:
  assumes "andThen m f s = (Ok b, s')"
  obtains a s1 where "m s = (Ok a, s1)" "f a s1 = (Ok b, s')"
  using assms by (auto simp: andThen_def split: prod.splits outcome.splits)

lemma lift_result_OkE:
  assumes "lift_result r s = (Ok a, s')"
  obtains "r = Inr a" "s' = s"
  using assms by (cases r) (auto simp: lift_result_def)

lemma on_gas_world: "on_gas m w = (r, w') \<Longrightarrow> \<exists>g. w' = w\<lparr>w_gas := g\<rparr>"
  by (auto simp: on_gas_def split: prod.splits)

lemma handle_storage_exec_Ok:
  assumes "handle_storage_exec H c req w = (Ok r, w')"
  shows "writes_under (whoami c) w w'"
  using assms unfolding handle_storage_exec_def fail_def Let_def
  by (auto split: if_splits elim!: andThen_OkE lift_result_OkE
      dest!: on_gas_world writes_under_set writes_under_remove simp: writes_under_gas)

section \<open>Typed access with room to spare\<close>

text \<open>\<open>ample k w\<close>: no gas limit, and room in the overlay for \<open>k\<close> more keys.\<close>

definition ample :: "nat \<Rightarrow> world \<Rightarrow> bool" where
  "ample k w \<longleftrightarrow> w_gas w = Infinite \<and> length (overlay (w_state w)) + k \<le> MAX_OVERLAY_ENTRIES"

definition storage_fits :: "account_id \<Rightarrow> bytes \<Rightarrow> message \<Rightarrow> bool" where
  "storage_fits a k v \<longleftrightarrow> account_wf a \<and> length k + 33 \<le> MAX_KEY_SIZE \<and> message_len v \<le> MAX_VALUE_SIZE"

text \<open>The state seen outside the overlay, its undo log and the metrics.\<close>

definition same_rest :: "world \<Rightarrow> world \<Rightarrow> bool" where
  "same_rest w w' \<longleftrightarrow> base_storage (w_state w') = base_storage (w_state w) \<and>
     events (w_state w') = events (w_state w) \<and> unique_objects (w_state w') = unique_objects (w_state w)"

lemma set_op_ample:
  assumes "length key \<le> MAX_KEY_SIZE" "message_len v \<le> MAX_VALUE_SIZE"
    "length (overlay s) + Suc k \<le> MAX_OVERLAY_ENTRIES"
  obtains s' where "set_op key v s = (Ok (), s')" "length (overlay s') + k \<le> MAX_OVERLAY_ENTRIES"
    "logical_get s' = (logical_get s)(key := Inr (Some v))" "base_storage s' = base_storage s"
    "events s' = events s" "unique_objects s' = unique_objects s"
proof -
  obtain s' where s': "set_op key v s = (Ok (), s')" using assms by (auto simp: set_op_cases)
  then have "overlay s' = hm_insert key (Some v) (overlay s)" "base_storage s' = base_storage s"
    "events s' = events s" "unique_objects s' = unique_objects s"
    by (auto simp: set_op_cases split: if_splits)
  with s' set_op_logical [OF s'] assms(3) show ?thesis
    by (intro that [of s']) (auto simp: length_hm_insert)
qed

lemma remove_op_ample:
  assumes "length key \<le> MAX_KEY_SIZE" "length (overlay s) + Suc k \<le> MAX_OVERLAY_ENTRIES"
  obtains s' where "remove_op key s = (Ok (), s')" "length (overlay s') + k \<le> MAX_OVERLAY_ENTRIES"
    "logical_get s' = (logical_get s)(key := Inr None)" "base_storage s' = base_storage s"
    "events s' = events s" "unique_objects s' = unique_objects s"
proof -
  obtain s' where s': "remove_op key s = (Ok (), s')" using assms by (auto simp: remove_op_cases)
  then have "overlay s' = hm_insert key None (overlay s)" "base_storage s' = base_storage s"
    "events s' = events s" "unique_objects s' = unique_objects s"
    by (auto simp: remove_op_cases split: if_splits)
  with s' remove_op_logical [OF s'] assms(2) show ?thesis
    by (intro that [of s']) (auto simp: length_hm_insert)
qed

lemma length_storage_key: "length (storage_key a k) = Suc (length a + length k)"
  by (simp add: storage_key_def)

lemma do_exec_set_ample:
  assumes req: "invoke_request_get (h_storage_set_request H) req = Inr r"
      "req_function req = FUNCTION_IDENTIFIER (StorageSetRequest H)"
    and fits: "storage_fits (whoami c) (ss_key r) (ss_value r)" and depth: "call_depth c < MAX_CALL_DEPTH"
    and ample: "ample (Suc m) w" and resp: "response_new (h_unit H) () = Inr resp"
  obtains w' where "do_exec H A (Suc n) c STORAGE_ACCOUNT_ID req [] w = (Ok resp, w')" "ample m w'" "same_rest w w'"
    "logical_get (w_state w') = (logical_get (w_state w))(storage_key (whoami c) (ss_key r) := Inr (Some (ss_value r)))"
proof -
  let ?key = "storage_key (whoami c) (ss_key r)"
  obtain s' where s': "set_op ?key (ss_value r) ((w_state w)\<lparr>metrics := inc_checkpoints (metrics (w_state w))\<rparr>) = (Ok (), s')"
    "length (overlay s') + m \<le> MAX_OVERLAY_ENTRIES"
    "logical_get s' = (logical_get (w_state w))(?key := Inr (Some (ss_value r)))" "base_storage s' = base_storage (w_state w)"
    "events s' = events (w_state w)" "unique_objects s' = unique_objects (w_state w)"
    using set_op_ample [of ?key "ss_value r" "(w_state w)\<lparr>metrics := inc_checkpoints (metrics (w_state w))\<rparr>" m]
      fits ample by (auto simp: storage_fits_def ample_def length_storage_key)
  have gas: "w_gas w = Infinite" using ample by (simp add: ample_def)
  let ?w' = "w\<lparr>w_state := s', w_gas := Infinite\<rparr>"
  have "handle_storage_exec H c req (w\<lparr>w_state := (w_state w)\<lparr>metrics := inc_checkpoints (metrics (w_state w))\<rparr>\<rparr>)
      = (Ok resp, ?w')"
    by (simp add: handle_storage_exec_def req andThen_def lift_result_def on_gas_def gas on_state_def s' resp Let_def)
  then have "do_exec H A (Suc n) c STORAGE_ACCOUNT_ID req [] w = (Ok resp, ?w')"
    using depth by (simp add: do_exec_storage checkpoint_def not_le del: do_exec.simps)
  then show ?thesis using s' by (intro that [of ?w']) (simp_all add: ample_def same_rest_def)
qed

lemma do_exec_remove_ample:
  assumes req: "invoke_request_get (h_storage_remove_request H) req = Inr r"
      "req_function req = FUNCTION_IDENTIFIER (StorageRemoveRequest H)"
    and fits: "storage_fits (whoami c) (sr_key r) (OwnedBytes [])" and depth: "call_depth c < MAX_CALL_DEPTH"
    and ample: "ample (Suc m) w" and resp: "response_new (h_unit H) () = Inr resp"
  obtains w' where "do_exec H A (Suc n) c STORAGE_ACCOUNT_ID req [] w = (Ok resp, w')" "ample m w'" "same_rest w w'"
    "logical_get (w_state w') = (logical_get (w_state w))(storage_key (whoami c) (sr_key r) := Inr None)"
proof -
  let ?key = "storage_key (whoami c) (sr_key r)"
  obtain s' where s': "remove_op ?key ((w_state w)\<lparr>metrics := inc_checkpoints (metrics (w_state w))\<rparr>) = (Ok (), s')"
    "length (overlay s') + m \<le> MAX_OVERLAY_ENTRIES"
    "logical_get s' = (logical_get (w_state w))(?key := Inr None)" "base_storage s' = base_storage (w_state w)"
    "events s' = events (w_state w)" "unique_objects s' = unique_objects (w_state w)"
    using remove_op_ample [of ?key "(w_state w)\<lparr>metrics := inc_checkpoints (metrics (w_state w))\<rparr>" m]
      fits ample by (auto simp: storage_fits_def ample_def length_storage_key)
  have gas: "w_gas w = Infinite" using ample by (simp add: ample_def)
  let ?w' = "w\<lparr>w_state := s', w_gas := Infinite\<rparr>"
  have "handle_storage_exec H c req (w\<lparr>w_state := (w_state w)\<lparr>metrics := inc_checkpoints (metrics (w_state w))\<rparr>\<rparr>)
      = (Ok resp, ?w')"
    by (simp add: handle_storage_exec_def req StorageSetRequest_def StorageRemoveRequest_def andThen_def
        lift_result_def on_gas_def gas on_state_def s' resp Let_def)
  then have "do_exec H A (Suc n) c STORAGE_ACCOUNT_ID req [] w = (Ok resp, ?w')"
    using depth by (simp add: do_exec_storage checkpoint_def not_le del: do_exec.simps)
  then show ?thesis using s' by (intro that [of ?w']) (simp_all add: ample_def same_rest_def)
qed

text \<open>A write through the typed call.\<close>

lemma run_storage_set:
  assumes H: "host_ok H" and fits: "storage_fits (whoami c) k v" and depth: "call_depth c < MAX_CALL_DEPTH"
    and ample: "ample (Suc m) w"
  obtains w' where
    "run (do_exec H A (Suc n)) qu c (exec_account (StorageSetRequest H) (h_unit H) STORAGE_ACCOUNT_ID
       \<lparr>ss_key = k, ss_value = v\<rparr> []) w = (Ok (), w')"
    "ample m w'" "logical_get (w_state w') = (logical_get (w_state w))(storage_key (whoami c) k := Inr (Some v))"
    "same_rest w w'"
proof -
  let ?r = "\<lparr>ss_key = k, ss_value = v\<rparr>"
  have "storage_set_request_ok ?r" using fits
    by (auto simp: storage_set_request_ok_def storage_fits_def vec_ok_def message_ok_len MAX_KEY_SIZE_def
        MAX_STORAGE_KEY_SIZE_def MAX_VALUE_SIZE_def)
  then obtain req where req: "invoke_request_new (StorageSetRequest H) ?r = Inr req"
    "invoke_request_get (h_storage_set_request H) req = Inr ?r"
    "req_function req = FUNCTION_IDENTIFIER (StorageSetRequest H)"
    using borsh_ok_request [of storage_set_request_ok "StorageSetRequest H"] host_ok_storage(3) [OF H]
    by (metis StorageSetRequest_def invokable.select_convs(3))
  obtain resp where resp: "response_new (h_unit H) () = Inr resp" "response_get (h_unit H) resp = Inr ()"
    using borsh_ok_response [OF host_ok_storage(5) [OF H]] by blast
  obtain w' where w': "do_exec H A (Suc n) c STORAGE_ACCOUNT_ID req [] w = (Ok resp, w')" "ample m w'" "same_rest w w'"
    "logical_get (w_state w') = (logical_get (w_state w))(storage_key (whoami c) k := Inr (Some v))"
    by (rule do_exec_set_ample [OF req(2,3) _ depth ample resp(1)]) (use fits in simp_all)
  then show ?thesis using resp
    by (intro that [of w'])
      (simp_all add: exec_account_def req attempt_def lift_result_def del: do_exec.simps)
qed

end
