(* ===== verification/Invoker_Theorems.thy ===== *)
theory Invoker_Theorems
  imports Storage_Access Reference_Host
begin

text \<open>
  The properties of the invoker: atomicity, gas and state limits of every execution, freedom from
  panics, termination under the call-depth limit, read-only queries, isolation of storage, and the
  account registry.
\<close>

section \<open>An example\<close>

text \<open>An account whose code writes one value to its storage and then fails.\<close>

definition rollback_code :: "host \<Rightarrow> account_code" where
  "rollback_code H = \<lparr>ac_identifier = ''Rollback'',
     ac_init = (\<lambda>req. Return (response_new (h_unit H) ())),
     ac_execute = (\<lambda>req.
       pbind (exec_account (StorageSetRequest H) (h_unit H) STORAGE_ACCOUNT_ID
                \<lparr>ss_key = [7], ss_value = OwnedBytes [9]\<rparr> [])
         (\<lambda>_. Return (Inl ERR_UNAUTHORIZED))),
     ac_query = (\<lambda>req. QReturn (response_new (h_unit H) ()))\<rparr>"

definition example_codes :: "host \<Rightarrow> account_codes" where
  "example_codes H cid = Inr (if cid = ''Rollback'' then Some (rollback_code H) else None)"

definition example_account :: account_id where
  "example_account = account_from_u64 65535"

definition example_base :: "host \<Rightarrow> readonly_kv" where
  "example_base H k =
     Inr (if k = get_account_code_identifier_for_account_key example_account
          then to_vec (h_string H) ''Rollback'' else None)"

definition example_world :: "host \<Rightarrow> world" where
  "example_world H = \<lparr>w_state = exec_state_new (example_base H), w_gas = Infinite\<rparr>"

definition example_request :: invoke_request where
  "example_request = \<lparr>human_name = ''run'', req_function = 5, req_message = OwnedBytes []\<rparr>"

definition example_ctx :: ctx where
  "example_ctx = new_for_begin_block block_context_default"

lemma example_account_user:
  "account_wf example_account" "example_account \<noteq> RUNTIME_ACCOUNT_ID" "example_account \<noteq> STORAGE_ACCOUNT_ID"
  by (simp_all add: example_account_def RUNTIME_ACCOUNT_ID_def STORAGE_ACCOUNT_ID_def)

lemma str_ok_Rollback: "str_ok ''Rollback''"
  by (simp add: str_ok_def utf8_chars_def map_option_case)

lemma example_code:
  assumes "host_ok H"
  shows "account_code_of H example_account (w\<lparr>w_state := (exec_state_new (example_base H))\<lparr>metrics := m\<rparr>\<rparr>) =
    (Ok ''Rollback'', w\<lparr>w_state := (exec_state_new (example_base H))\<lparr>metrics := inc_storage_reads m\<rparr>\<rparr>)"
proof -
  have "borsh_ok str_ok (h_string H)" using assms by (simp add: host_ok_def)
  then obtain b where "encode (h_string H) ''Rollback'' = Inr b" "decode (h_string H) b = Inr ''Rollback''"
    using borsh_ok_encode [of str_ok "h_string H" "''Rollback''"] str_ok_Rollback by metis
  then have "to_vec (h_string H) ''Rollback'' = Some b" "message_get (h_string H) (OwnedBytes b) = Inr ''Rollback''"
    by (auto simp: encode_def split: option.splits)
  then show ?thesis
    by (simp add: account_code_of_eq logical_get_def exec_state_new_def example_base_def message_from_bytes_def)
qed

lemma example_run:
  assumes H: "host_ok H"
  obtains w' where "do_exec H (example_codes H) 3 example_ctx example_account example_request [] (example_world H) =
    (Err ERR_UNAUTHORIZED, w')"
proof -
  let ?c = "branch_exec example_ctx example_account []"
  let ?base = "exec_state_new (example_base H)"
  let ?w1 = "\<lparr>w_state = ?base\<lparr>metrics := inc_storage_reads (inc_checkpoints (metrics ?base))\<rparr>, w_gas = Infinite\<rparr>"
  have c: "whoami ?c = example_account" "call_depth ?c < MAX_CALL_DEPTH" "call_depth example_ctx < MAX_CALL_DEPTH"
    by (simp_all add: branch_exec_def example_ctx_def new_for_begin_block_def MAX_CALL_DEPTH_def)
  have fits: "storage_fits (whoami ?c) [7] (OwnedBytes [9])"
    by (simp add: c example_account_user storage_fits_def MAX_KEY_SIZE_def MAX_STORAGE_KEY_SIZE_def MAX_VALUE_SIZE_def)
  have "ample (Suc 0) ?w1" by (simp add: ample_def exec_state_new_def MAX_OVERLAY_ENTRIES_def)
  from run_storage_set [OF H fits c(2) this, of "example_codes H" 1 "do_query H (example_codes H) 2"]
  obtain w2 where w2: "run (do_exec H (example_codes H) 2) (do_query H (example_codes H) 2) ?c
      (exec_account (StorageSetRequest H) (h_unit H) STORAGE_ACCOUNT_ID
         \<lparr>ss_key = [7], ss_value = OwnedBytes [9]\<rparr> []) ?w1 = (Ok (), w2)"
    by (auto simp: numeral_2_eq_2)
  have code: "account_code_of H example_account (\<lparr>w_state = ?base\<lparr>metrics := inc_checkpoints (metrics ?base)\<rparr>, w_gas = Infinite\<rparr>)
      = (Ok ''Rollback'', ?w1)"
    using example_code [OF H, where w = "\<lparr>w_state = ?base, w_gas = Infinite\<rparr>"] by simp
  let ?w = "(example_world H)\<lparr>w_state := snd (checkpoint (w_state (example_world H)))\<rparr>"
  have w: "?w = \<lparr>w_state = ?base\<lparr>metrics := inc_checkpoints (metrics ?base)\<rparr>, w_gas = Infinite\<rparr>"
    by (simp add: example_world_def checkpoint_def)
  have exec: "exec_without_transfers H (example_codes H) (do_exec H (example_codes H) 2) (do_query H (example_codes H) 2)
      example_ctx example_account example_request [] ?w = (Err ERR_UNAUTHORIZED, w2)"
    using w2 example_account_user unfolding w
    by (simp add: exec_without_transfers_def andThen_def code with_code_def lift_result_def example_codes_def
        rollback_code_def run_pbind)
  have "keeps (\<lambda>w w'. rollbackable (w_state w) (w_state w'))
      (exec_without_transfers H (example_codes H) (do_exec H (example_codes H) 2) (do_query H (example_codes H) 2)
        example_ctx example_account example_request [])"
    by (intro undo.kr_exec_without_transfers undo.kr_do_exec undo.kr_do_query)
  from keepsD [OF this, of ?w] have "rollbackable (w_state ?w) (w_state w2)" unfolding exec by simp
  note restored = undo.restore_or_panic_eq [OF prod.collapse [symmetric] this]
  have "do_exec H (example_codes H) 3 = do_exec_with H (example_codes H) (do_exec H (example_codes H) 2)
      (do_query H (example_codes H) 2)" by (simp add: numeral_3_eq_3 numeral_2_eq_2)
  then show ?thesis using c(3) exec
    by (intro that [of "w2\<lparr>w_state := (w_state (example_world H))\<lparr>metrics := inc_restores (metrics (w_state w2))\<rparr>\<rparr>"])
      (auto simp: do_exec_with_def handle_transfers_def ret_def restored split_beta)
qed

lemma example_codes_shape:
  "example_codes H cid = Inr (Some code) \<Longrightarrow> code = rollback_code H"
  by (simp add: example_codes_def split: if_splits)

lemma example_codes_no_unwind: "codes_no_unwind (example_codes H)"
  unfolding codes_no_unwind_def
proof (intro allI impI)
  fix cid code req
  assume "example_codes H cid = Inr (Some code)"
  then have "code = rollback_code H" by (rule example_codes_shape)
  then show "no_unwind (ac_init code req) \<and> no_unwind (ac_execute code req) \<and> qno_unwind (ac_query code req)"
    by (auto simp: rollback_code_def pbind_def exec_account_def split: sum.splits)
qed

lemma example_codes_leaf: "leaf_codes (example_codes H)"
  unfolding leaf_codes_def
proof (intro allI impI)
  fix cid code req
  assume "example_codes H cid = Inr (Some code)"
  then have "code = rollback_code H" by (rule example_codes_shape)
  then show "leaf_query (ac_query code req)" by (simp add: rollback_code_def)
qed

section \<open>Executions\<close>

text \<open>C1. Atomicity: an execution that returns an error leaves the overlay, the undo log, the events and
  the identifier counter exactly as they were, transfers, storage writes and nested calls included;
  only the metrics and the gas counter move.\<close>

theorem do_exec_atomic:
  assumes "do_exec H A n c to data fs w = (Err e, w')"
  shows "\<exists>m. w_state w' = (w_state w)\<lparr>metrics := m\<rparr>"
  by (rule undo.do_exec_Err [OF assms])

theorem do_exec_atomic_witness:
  "\<exists>w' m. do_exec reference_host (example_codes reference_host) 3 example_ctx example_account example_request []
       (example_world reference_host) = (Err ERR_UNAUTHORIZED, w') \<and>
     w_state w' = (w_state (example_world reference_host))\<lparr>metrics := m\<rparr>"
proof -
  obtain w' where run: "do_exec reference_host (example_codes reference_host) 3 example_ctx example_account
      example_request [] (example_world reference_host) = (Err ERR_UNAUTHORIZED, w')"
    by (rule example_run [OF reference_host_ok])
  from do_exec_atomic [OF run] run show ?thesis by blast
qed

text \<open>C7. Gas: whatever its outcome, an execution never lowers the gas used, changes neither the limit
  nor the charges, and never takes the counter past its limit.\<close>

theorem do_exec_gas:
  assumes "gas_ok (w_gas w)"
  shows "gas_le (w_gas w) (w_gas (snd (do_exec H A n c to data fs w))) \<and>
    gas_ok (w_gas (snd (do_exec H A n c to data fs w)))"
  using keepsD [OF gas.kr_do_exec [of H A n c to data fs], of w] assms by (simp add: gas_relation_def)

theorem do_exec_gas_witness:
  "gas_le (gas_finite 500 storage_gas_config_default)
     (w_gas (snd (do_exec reference_host (example_codes reference_host) 3 example_ctx example_account
        example_request [] ((example_world reference_host)\<lparr>w_gas := gas_finite 500 storage_gas_config_default\<rparr>))))"
  using do_exec_gas [of "(example_world reference_host)\<lparr>w_gas := gas_finite 500 storage_gas_config_default\<rparr>"
      reference_host "example_codes reference_host" 3 example_ctx example_account example_request "[]"]
  by (simp add: gas_finite_def)

text \<open>Every execution, whatever its outcome, keeps the limits of the execution state.\<close>

theorem do_exec_limits:
  assumes "exec_state_wf (w_state w)"
  shows "exec_state_wf (w_state (snd (do_exec H A n c to data fs w)))"
  using keepsD [OF limits.kr_do_exec [of H A n c to data fs], of w] assms by (simp add: limits_relation_def)

theorem do_exec_limits_witness:
  "exec_state_wf (w_state (snd (do_exec reference_host (example_codes reference_host) 3 example_ctx example_account
     example_request [] (example_world reference_host))))"
  by (rule do_exec_limits) (simp add: example_world_def exec_state_new_wf)

text \<open>C18. The panic of \<open>do_exec\<close> for a checkpoint that cannot be restored is never reached: as long as no
  account code panics of itself, no execution panics.\<close>

theorem do_exec_never_panics:
  assumes "codes_no_unwind A"
  shows "fst (do_exec H A n c to data fs w) \<noteq> Panic"
  by (rule never_Panic [OF never_Panicked_do_exec [OF assms]])

theorem do_exec_never_panics_witness:
  "fst (do_exec reference_host (example_codes reference_host) 3 example_ctx example_account example_request []
     (example_world reference_host)) \<noteq> Panic"
  by (rule do_exec_never_panics [OF example_codes_no_unwind])

text \<open>C19. Termination: if queries end within \<open>q\<close> nested calls, an execution at call depth \<open>d\<close> ends within
  \<open>q + 1 + (64 - d)\<close>, because the depth limit refuses any deeper call.\<close>

theorem do_exec_terminates:
  assumes "\<And>c to data w. fst (do_query H A q c to data w) \<noteq> OutOfFuel"
    and "q + 1 + (64 - unat (call_depth c)) \<le> n"
  shows "fst (do_exec H A n c to data fs w) \<noteq> OutOfFuel"
proof (rule never_OutOfFuel [OF never_Exhausted_do_exec [OF _ assms(2)]])
  show "never Exhausted (do_query H A q c to data)" for c to data
    unfolding never_def using assms(1) by (metis abnormal_of.simps(1-3) abnormal.distinct(1) option.distinct(1) option.inject outcome.exhaust)
qed

theorem do_exec_terminates_witness:
  "fst (do_exec reference_host (example_codes reference_host) 67 example_ctx example_account example_request []
     (example_world reference_host)) \<noteq> OutOfFuel"
proof (rule do_exec_terminates [of _ _ 2])
  show "fst (do_query reference_host (example_codes reference_host) 2 c to data w) \<noteq> OutOfFuel" for c to data w
    by (rule never_OutOfFuel [OF never_Exhausted_leaf_codes [OF example_codes_leaf]])
qed simp

text \<open>The fuel of the model is not a behaviour of the code: once an execution has a result, more fuel
  gives the same result and the same world.\<close>

theorem do_exec_fuel_independent:
  assumes "do_exec H A n c to data fs w = (r, w')" and "r \<noteq> OutOfFuel"
  shows "do_exec H A (n + k) c to data fs w = (r, w')"
  by (rule do_exec_more_fuel [OF assms])

theorem do_exec_fuel_independent_witness:
  "\<exists>w'. do_exec reference_host (example_codes reference_host) (3 + 100) example_ctx example_account example_request []
       (example_world reference_host) = (Err ERR_UNAUTHORIZED, w')"
proof -
  obtain w' where run: "do_exec reference_host (example_codes reference_host) 3 example_ctx example_account
      example_request [] (example_world reference_host) = (Err ERR_UNAUTHORIZED, w')"
    by (rule example_run [OF reference_host_ok])
  from do_exec_fuel_independent [OF run] show ?thesis by blast
qed

section \<open>Queries\<close>

text \<open>C20. Queries are read-only: whatever its outcome, a query leaves the overlay, the undo log, the
  events and the identifier counter untouched, and never lowers the gas used.\<close>

theorem do_query_read_only:
  "(\<exists>m. w_state (snd (do_query H A n c to data w)) = (w_state w)\<lparr>metrics := m\<rparr>) \<and>
   gas_le (w_gas w) (w_gas (snd (do_query H A n c to data w)))"
  using keepsD [OF reads.kr_do_query [of H A n c to data], of w]
    keepsD [OF gas.kr_do_query [of H A n c to data], of w]
  by (simp add: gas_relation_def)

text \<open>C21. The call-depth limit does not cover queries: an account whose query asks itself again recurses
  without bound, whatever the depth it starts from and whatever the gas limit.\<close>

theorem do_query_unbounded:
  assumes "a \<noteq> RUNTIME_ACCOUNT_ID" and "a \<noteq> STORAGE_ACCOUNT_ID"
    and "A cid = Inr (Some (self_query_code a))"
    and "logical_get (w_state w) (get_account_code_identifier_for_account_key a) = Inr (Some m)"
    and "message_get (h_string H) m = Inr cid"
  shows "fst (do_query H A n c a req w) = OutOfFuel"
  using do_query_self_loop [of a A cid w m H n c req] assms by blast

theorem do_query_unbounded_witness:
  "fst (do_query reference_host (\<lambda>cid. Inr (Some (self_query_code example_account))) 1000 example_ctx example_account
     example_request (example_world reference_host)) = OutOfFuel"
proof -
  have "borsh_ok str_ok (h_string reference_host)" using reference_host_ok by (simp add: host_ok_def)
  then obtain b where "encode (h_string reference_host) ''Rollback'' = Inr b"
    "decode (h_string reference_host) b = Inr ''Rollback''"
    using borsh_ok_encode [of str_ok "h_string reference_host" "''Rollback''"] str_ok_Rollback by metis
  then have "to_vec (h_string reference_host) ''Rollback'' = Some b"
    "message_get (h_string reference_host) (OwnedBytes b) = Inr ''Rollback''"
    by (auto simp: encode_def split: option.splits)
  then show ?thesis
    by (intro do_query_unbounded [of _ _ "''Rollback''" _ "OwnedBytes b"])
      (simp_all add: example_account_user example_world_def logical_get_def exec_state_new_def
        example_base_def message_from_bytes_def)
qed

section \<open>Isolation of storage\<close>

lemma do_exec_storage_result:
  obtains e w' where "do_exec H A (Suc k) c STORAGE_ACCOUNT_ID req fs w = (Err e, w')"
  | a s w' where "do_exec H A (Suc k) c STORAGE_ACCOUNT_ID req fs w = (Ok a, w')"
    "logical_get s = logical_get (w_state w)" "handle_storage_exec H c req (w\<lparr>w_state := s\<rparr>) = (Ok a, w')"
proof -
  obtain cp s where cp: "checkpoint (w_state w) = (cp, s)" by fastforce
  obtain r w1 where h: "handle_storage_exec H c req (w\<lparr>w_state := s\<rparr>) = (r, w1)" by fastforce
  have log: "logical_get s = logical_get (w_state w)" using cp by (auto simp: checkpoint_def)
  have "r \<noteq> Panic" "r \<noteq> OutOfFuel"
    using never_Panic [OF never_storage_exec, of H c req "w\<lparr>w_state := s\<rparr>"]
      never_OutOfFuel [OF never_storage_exec, of H c req "w\<lparr>w_state := s\<rparr>"] h by auto
  moreover have "rollbackable (w_state (w\<lparr>w_state := s\<rparr>)) (w_state w1)"
    using keepsD [OF undo.kr_storage_exec [of H c req], of "w\<lparr>w_state := s\<rparr>"] h by simp
  note restored = undo.restore_or_panic_eq [OF cp this] undo.restore_or_panic_eq [OF cp undo.R_refl]
  ultimately have "do_exec H A (Suc k) c STORAGE_ACCOUNT_ID req fs w = (r, w1) \<and> (\<exists>a. r = Ok a) \<or>
      (\<exists>e w'. do_exec H A (Suc k) c STORAGE_ACCOUNT_ID req fs w = (Err e, w'))"
    by (cases r) (simp_all add: do_exec_with_def handle_transfers_def ret_def fail_def
        exec_without_transfers_def cp h restored)
  then show ?thesis using that h log by metis
qed

lemma exec_storage_frame:
  assumes other: "\<And>k. key \<noteq> storage_key (whoami c) k"
  shows "logical_get (w_state (snd (do_exec H A n c STORAGE_ACCOUNT_ID req fs w))) key = logical_get (w_state w) key"
proof (cases n)
  case (Suc k)
  show ?thesis
  proof (cases rule: do_exec_storage_result [of H A k c req fs w])
    case (1 e w')
    with undo.do_exec_Err [OF 1] Suc show ?thesis by auto
  next
    case (2 a s w')
    with handle_storage_exec_Ok [OF 2(3)] other Suc show ?thesis by (auto simp: writes_under_def)
  qed
qed simp

text \<open>C22. Isolation: a request to the storage account, whatever its outcome, touches only keys of the
  account that made it. The storage of every other account, every account's code identifier and the
  account counter keep their values.\<close>

theorem storage_isolated:
  assumes "account_wf (whoami c)" and "account_wf b" and "b \<noteq> whoami c"
  shows "logical_get (w_state (snd (do_exec H A n c STORAGE_ACCOUNT_ID req fs w))) (storage_key b k) =
      logical_get (w_state w) (storage_key b k) \<and>
    logical_get (w_state (snd (do_exec H A n c STORAGE_ACCOUNT_ID req fs w)))
        (get_account_code_identifier_for_account_key a) =
      logical_get (w_state w) (get_account_code_identifier_for_account_key a) \<and>
    logical_get (w_state (snd (do_exec H A n c STORAGE_ACCOUNT_ID req fs w))) [ACCOUNT_IDENTIFIER_SINGLETON_PREFIX] =
      logical_get (w_state w) [ACCOUNT_IDENTIFIER_SINGLETON_PREFIX]"
  using assms storage_key_prefix_differs
  by (intro conjI exec_storage_frame) (metis storage_key_inject)+

theorem storage_isolated_witness:
  "logical_get (w_state (snd (do_exec reference_host (example_codes reference_host) 3
       (example_ctx\<lparr>whoami := account_from_u64 70000\<rparr>) STORAGE_ACCOUNT_ID example_request []
       (example_world reference_host)))) (storage_key example_account [1]) =
     logical_get (w_state (example_world reference_host)) (storage_key example_account [1])"
  using storage_isolated [of "example_ctx\<lparr>whoami := account_from_u64 70000\<rparr>" example_account]
  by (simp add: example_account_def)

section \<open>The account registry\<close>

text \<open>Account numbers handed out one after the other.\<close>

primrec allocate :: "host \<Rightarrow> nat \<Rightarrow> (exec_state, error_code, account_id list) comp" where
  "allocate H 0 = ret []"
| "allocate H (Suc n) = andThen (next_account_number H) (\<lambda>a. andThen (allocate H n) (\<lambda>as. ret (a # as)))"

lemma message_new_account:
  assumes "host_ok H" "account_wf a"
  shows "message_new (h_account_id H) a = Inr (OwnedBytes a)" "message_get (h_account_id H) (OwnedBytes a) = Inr a"
proof -
  show new: "message_new (h_account_id H) a = Inr (OwnedBytes a)"
    using assms by (simp add: message_new_def encode_def to_vec_def host_ok_def)
  have "borsh_ok account_wf (h_account_id H)" using assms by (simp add: host_ok_def)
  with message_get_new [of account_wf "h_account_id H" a] new assms
  show "message_get (h_account_id H) (OwnedBytes a) = Inr a" by blast
qed

lemma next_account_number_step:
  assumes H: "host_ok H" and wf: "account_wf prev"
    and cur: "logical_get s [ACCOUNT_IDENTIFIER_SINGLETON_PREFIX] = Inr v"
      "v = None \<and> prev = account_from_u64 INITIAL_ACCOUNT_NUMBER \<or> v = Some (OwnedBytes prev)"
    and room: "hm_get (overlay s) [ACCOUNT_IDENTIFIER_SINGLETON_PREFIX] \<noteq> None \<or> length (overlay s) < MAX_OVERLAY_ENTRIES"
  obtains s' where "next_account_number H s = (Ok prev, s')"
    "logical_get s' [ACCOUNT_IDENTIFIER_SINGLETON_PREFIX] = Inr (Some (OwnedBytes (account_increase prev)))"
    "hm_get (overlay s') [ACCOUNT_IDENTIFIER_SINGLETON_PREFIX] \<noteq> None"
proof -
  let ?key = "[ACCOUNT_IDENTIFIER_SINGLETON_PREFIX]" and ?v = "OwnedBytes (account_increase prev)"
  let ?s = "s\<lparr>metrics := inc_storage_reads (metrics s)\<rparr>"
  have "length (account_increase prev) = 32" using wf by (rule account_wf_increase)
  then have "message_len ?v = 32" by simp
  then obtain s' where s': "set_op ?key ?v ?s = (Ok (), s')" "overlay s' = hm_insert ?key (Some ?v) (overlay s)"
    using room by (auto simp: set_op_cases MAX_KEY_SIZE_def MAX_STORAGE_KEY_SIZE_def MAX_VALUE_SIZE_def not_le)
  have "next_account_number H s = (Ok prev, s')"
    using cur s' wf message_new_account [OF H] account_wf_increase [OF wf]
    by (auto simp: next_account_number_def Let_def andThen_def get_logical lift_result_def ret_def)
  with s' set_op_logical [OF s'(1)] show ?thesis by (intro that [of s']) auto
qed

lemma allocate_counts:
  assumes H: "host_ok H"
  shows "account_wf prev \<Longrightarrow> logical_get s [ACCOUNT_IDENTIFIER_SINGLETON_PREFIX] = Inr v \<Longrightarrow>
    v = None \<and> prev = account_from_u64 INITIAL_ACCOUNT_NUMBER \<or> v = Some (OwnedBytes prev) \<Longrightarrow>
    hm_get (overlay s) [ACCOUNT_IDENTIFIER_SINGLETON_PREFIX] \<noteq> None \<or> length (overlay s) < MAX_OVERLAY_ENTRIES \<Longrightarrow>
    \<exists>ids s'. allocate H n s = (Ok ids, s') \<and> map be_val ids = map (\<lambda>i. (be_val prev + i) mod 2 ^ 256) [0..<n]"
proof (induction n arbitrary: prev s v)
  case 0
  then show ?case by (simp add: ret_def)
next
  case (Suc n)
  from next_account_number_step [OF H Suc.prems] obtain s1 where s1: "next_account_number H s = (Ok prev, s1)"
    "logical_get s1 [ACCOUNT_IDENTIFIER_SINGLETON_PREFIX] = Inr (Some (OwnedBytes (account_increase prev)))"
    "hm_get (overlay s1) [ACCOUNT_IDENTIFIER_SINGLETON_PREFIX] \<noteq> None" by blast
  have lt: "be_val prev < 2 ^ 256" using be_val_bound [of prev] Suc.prems(1) by simp
  from Suc.IH [OF account_wf_increase [OF Suc.prems(1)] s1(2)] s1(3) obtain ids s' where
    "allocate H n s1 = (Ok ids, s')"
    "map be_val ids = map (\<lambda>i. (be_val (account_increase prev) + i) mod 2 ^ 256) [0..<n]" by auto
  moreover have "[0..<Suc n] = 0 # map Suc [0..<n]" by (simp add: map_Suc_upt upt_conv_Cons)
  ultimately show ?case using s1(1) lt Suc.prems(1)
    by (simp add: andThen_def ret_def be_val_account_increase mod_add_left_eq)
qed

text \<open>Account numbers: on a chain that has created no account yet, the \<open>n\<close> next accounts get the
  numbers 65535, 65536, ... in order, so that they differ from each other and from the system
  accounts.\<close>

theorem account_numbers_consecutive:
  assumes "host_ok H" and "logical_get s [ACCOUNT_IDENTIFIER_SINGLETON_PREFIX] = Inr None"
    and "length (overlay s) < MAX_OVERLAY_ENTRIES" and "65535 + n < 2 ^ 256"
  shows "\<exists>ids s'. allocate H n s = (Ok ids, s') \<and> map be_val ids = [65535..<65535 + n] \<and> distinct ids \<and>
    RUNTIME_ACCOUNT_ID \<notin> set ids \<and> STORAGE_ACCOUNT_ID \<notin> set ids"
proof -
  from allocate_counts [OF assms(1), of "account_from_u64 INITIAL_ACCOUNT_NUMBER" s None n] assms(2,3)
  obtain ids s' where run: "allocate H n s = (Ok ids, s')"
    and "map be_val ids = map (\<lambda>i. (be_val (account_from_u64 INITIAL_ACCOUNT_NUMBER) + i) mod 2 ^ 256) [0..<n]"
    by auto
  moreover have "map (\<lambda>i. (be_val (account_from_u64 INITIAL_ACCOUNT_NUMBER) + i) mod 2 ^ 256) [0..<n] =
      map (\<lambda>i. i + 65535) [0..<n]"
    using assms(4) by (intro map_cong) (auto simp: INITIAL_ACCOUNT_NUMBER_def)
  moreover have "\<dots> = [65535..<65535 + n]" using map_add_upt [of 65535 n] by (simp add: add.commute)
  ultimately have vals: "map be_val ids = [65535..<65535 + n]" by simp
  then have "distinct ids" using distinct_upt [of 65535 "65535 + n"] by (metis distinct_map)
  moreover have "65535 \<le> be_val a" if "a \<in> set ids" for a
    using that vals by (metis (no_types, lifting) atLeastLessThan_iff image_eqI list.set_map set_upt)
  ultimately show ?thesis using run vals
    by (force simp: RUNTIME_ACCOUNT_ID_def STORAGE_ACCOUNT_ID_def)
qed

theorem account_numbers_consecutive_witness:
  "\<exists>ids s'. allocate reference_host 3 (exec_state_new (\<lambda>_. Inr None)) = (Ok ids, s') \<and>
     map be_val ids = [65535, 65536, 65537]"
proof -
  have "\<exists>ids s'. allocate reference_host 3 (exec_state_new (\<lambda>_. Inr None)) = (Ok ids, s') \<and>
      map be_val ids = [65535..<65535 + 3] \<and> distinct ids \<and> RUNTIME_ACCOUNT_ID \<notin> set ids \<and> STORAGE_ACCOUNT_ID \<notin> set ids"
    by (rule account_numbers_consecutive [OF reference_host_ok])
      (simp_all add: logical_get_def exec_state_new_def MAX_OVERLAY_ENTRIES_def)
  moreover have "[65535..<65535 + 3] = [65535, 65536, 65537 :: nat]" by (simp add: upt_conv_Cons)
  ultimately show ?thesis by auto
qed

text \<open>Migration: only the account itself can migrate its code. A request to migrate another account
  fails with \<open>ERR_UNAUTHORIZED\<close> and leaves the state alone.\<close>

theorem migrate_only_self:
  assumes "req_function data = FUNCTION_IDENTIFIER (MigrateRequest H)"
    and "invoke_request_get (h_migrate_request H (host_invoke_request H)) data = Inr req"
    and "mg_account_id req \<noteq> whoami c" and "call_depth c < MAX_CALL_DEPTH"
  shows "\<exists>w' m. do_exec H A (Suc n) c RUNTIME_ACCOUNT_ID data [] w = (Err ERR_UNAUTHORIZED, w') \<and>
    w_state w' = (w_state w)\<lparr>metrics := m\<rparr>"
proof -
  obtain cp s where cp: "checkpoint (w_state w) = (cp, s)" by fastforce
  have "sender (branch_exec c RUNTIME_ACCOUNT_ID []) = whoami c" by (simp add: branch_exec_def)
  then have "exec_without_transfers H A (do_exec H A n) (do_query H A n) c RUNTIME_ACCOUNT_ID data [] (w\<lparr>w_state := s\<rparr>)
      = (Err ERR_UNAUTHORIZED, w\<lparr>w_state := s\<rparr>)"
    using assms by (simp add: exec_without_transfers_def handle_system_exec_def CreateAccountRequest_def
        RegisterAccountAtIdRequest_def MigrateRequest_def Let_def andThen_def lift_result_def fail_def)
  then have "\<exists>w'. do_exec H A (Suc n) c RUNTIME_ACCOUNT_ID data [] w = (Err ERR_UNAUTHORIZED, w')"
    using assms(4) by (simp add: do_exec_with_def cp handle_transfers_def ret_def
        undo.restore_or_panic_eq [OF cp undo.R_refl] not_le [symmetric])
  then show ?thesis using undo.do_exec_Err by blast
qed

definition example_migration :: "message + invoke_request" where
  "example_migration =
     (case invoke_request_new (MigrateRequest reference_host)
        \<lparr>mg_account_id = account_from_u64 70000, mg_new_code_id = ''Rollback'', mg_execute_message = example_request\<rparr> of
        Inl e \<Rightarrow> Inl (OwnedBytes []) | Inr r \<Rightarrow> Inr r)"

theorem migrate_only_self_witness:
  "\<exists>data w'. example_migration = Inr data \<and>
     do_exec reference_host (example_codes reference_host) 3 example_ctx RUNTIME_ACCOUNT_ID data []
       (example_world reference_host) = (Err ERR_UNAUTHORIZED, w')"
proof -
  let ?I = "MigrateRequest reference_host"
  let ?m = "\<lparr>mg_account_id = account_from_u64 70000, mg_new_code_id = ''Rollback'', mg_execute_message = example_request\<rparr>"
  have codec: "msg_codec ?I = h_migrate_request reference_host (host_invoke_request reference_host)"
    by (simp add: MigrateRequest_def)
  have "borsh_ok migrate_request_ok (msg_codec ?I)" using reference_host_ok by (simp add: host_ok_def codec)
  moreover have "migrate_request_ok ?m"
    by (simp add: migrate_request_ok_def str_ok_Rollback request_ok_def example_request_def vec_ok_def str_ok_def utf8_chars_def)
  ultimately obtain data where data: "invoke_request_new ?I ?m = Inr data"
    "invoke_request_get (msg_codec ?I) data = Inr ?m" "req_function data = FUNCTION_IDENTIFIER ?I"
    using borsh_ok_request [of migrate_request_ok ?I ?m] by metis
  have "mg_account_id ?m \<noteq> whoami example_ctx" "call_depth example_ctx < MAX_CALL_DEPTH"
    by (simp_all add: example_ctx_def new_for_begin_block_def RUNTIME_ACCOUNT_ID_def MAX_CALL_DEPTH_def)
  from migrate_only_self [OF data(3) data(2) [unfolded codec] this, of _ 2] data(1) show ?thesis
    by (simp add: example_migration_def numeral_3_eq_3 numeral_2_eq_2 del: do_exec.simps) blast
qed

end
