(* ===== verification/Stf_Theorems.thy ===== *)
theory Stf_Theorems
  imports Stf_Props Invoker_Theorems
begin

text \<open>
  The properties of transactions and blocks: gas bounds, the accounting of a block, agreement of the
  two block functions, what a failed transaction leaves behind, and three places where the code does
  less than its documentation says.
\<close>

section \<open>An example\<close>

text \<open>Handlers that accept everything.\<close>

definition plain_stf :: stf where
  "plain_stf = \<lparr>begin_blocker = (\<lambda>_. Return (Inr ())), end_blocker = Return (Inr ()),
     tx_validator = (\<lambda>_. Return (Inr ())), post_tx_handler = (\<lambda>_ _ _. Return (Inr ())),
     stf_gas_config = storage_gas_config_default\<rparr>"

lemma plain_stf_simps [simp]:
  "begin_blocker plain_stf b = Return (Inr ())" "end_blocker plain_stf = Return (Inr ())"
  "tx_validator plain_stf tx = Return (Inr ())" "post_tx_handler plain_stf tx g r = Return (Inr ())"
  by (simp_all add: plain_stf_def)

lemma pop_events_eq: "pop_events s = (events s, s\<lparr>events := []\<rparr>)"
  by (cases s) (simp add: pop_events_def)

lemma run_in_Return [simp]: "run_in H A n c (Return r) = lift_result r"
  by (simp add: run_in_def)

section \<open>Gas\<close>

text \<open>A transaction never reports more gas than its limit.\<close>

theorem tx_gas_within_limit:
  assumes "apply_tx H A n S tx cfg b s = (Ok r, s')"
  shows "tr_gas_used r \<le> tx_gas_limit tx"
  by (rule apply_tx_gas_bound [OF assms])

lemma default_tx_phases:
  "tx_phases H A n plain_stf (default_tx from to req limit fs ident) b w =
     (let c = into_new_exec (new_for_validate_tx ident b) from in do_exec H A n c to req fs w)"
  by (auto simp: tx_phases_def default_tx_def resolve_sender_phase_def bootstrap_sender_phase_def
      validate_tx_phase_def execute_tx_phase_def andThen_def ret_def lift_result_def attempt_def
      Let_def split: prod.splits outcome.splits)

lemma do_exec_funds_to_storage:
  "do_exec H A (Suc n) c STORAGE_ACCOUNT_ID req [fa] w =
     (if MAX_CALL_DEPTH \<le> call_depth c then (Err ERR_CALL_DEPTH_EXCEEDED, w)
      else (Err ERR_FUNDS_TO_SYSTEM_ACCOUNT,
            w\<lparr>w_state := (w_state w)\<lparr>metrics := inc_restores (inc_checkpoints (metrics (w_state w)))\<rparr>\<rparr>))"
proof -
  obtain cp s where cp: "checkpoint (w_state w) = (cp, s)" by fastforce
  have "metrics s = inc_checkpoints (metrics (w_state w))" using cp by (auto simp: checkpoint_def)
  then show ?thesis
    by (simp add: do_exec_with_def cp handle_transfers_def fail_def undo.restore_or_panic_eq [OF cp undo.R_refl])
qed

text \<open>A transaction that sends funds to the storage account is refused before it uses any gas.\<close>

definition refused_tx :: "u64 \<Rightarrow> tx" where
  "refused_tx limit = default_tx example_account STORAGE_ACCOUNT_ID example_request limit
     [\<lparr>asset_id = example_account, amount = 1\<rparr>] (replicate 32 1)"

lemma apply_refused_tx:
  "apply_tx H A (Suc n) plain_stf (refused_tx limit) cfg b s =
     (Ok \<lparr>tr_events = events s, tr_gas_used = 0, tr_response = Inl ERR_FUNDS_TO_SYSTEM_ACCOUNT\<rparr>,
      s\<lparr>metrics := inc_restores (inc_checkpoints (metrics s)), events := []\<rparr>)"
  by (simp add: apply_tx_def refused_tx_def default_tx_phases do_exec_funds_to_storage into_new_exec_def
      new_for_validate_tx_def MAX_CALL_DEPTH_def tx_error_result_def pop_events_eq Let_def del: do_exec.simps)

theorem tx_gas_within_limit_witness:
  "\<exists>r s'. apply_tx reference_host (example_codes reference_host) 3 plain_stf (refused_tx 100) storage_gas_config_default
       block_context_default (exec_state_new (\<lambda>_. Inr None)) = (Ok r, s') \<and> tr_gas_used r \<le> 100"
proof -
  obtain r s' where run: "apply_tx reference_host (example_codes reference_host) 3 plain_stf (refused_tx 100)
      storage_gas_config_default block_context_default (exec_state_new (\<lambda>_. Inr None)) = (Ok r, s')"
    using apply_refused_tx [of _ _ 2] by (simp add: numeral_3_eq_3 numeral_2_eq_2)
  from tx_gas_within_limit [OF run] run show ?thesis by (simp add: refused_tx_def default_tx_def)
qed

text \<open>C23. A block's gas is the saturating sum of its transactions' gas, and never exceeds the block's gas
  limit; at most as many transactions are executed as the block has.\<close>

theorem block_gas_within_limit:
  assumes "apply_block H A n S b s = (Ok br, s')"
  shows "br_gas_used br \<le> blk_gas_limit b \<and>
    br_gas_used br = foldl saturating_add 0 (map tr_gas_used (tx_results br)) \<and>
    length (tx_results br) \<le> length (blk_txs b)"
  using assms
proof (rule apply_block_cases)
  fix s1 s2
  assume txs: "apply_txs H A n S (blk_context b) (blk_gas_limit b) (length (blk_txs b)) (blk_txs b) ([], 0, 0) s1 =
    (Ok (tx_results br, br_gas_used br, txs_skipped br), s2)"
  from apply_txs_gas_bound [OF txs] apply_txs_results [OF txs] show ?thesis by auto
qed

definition example_block :: blk where
  "example_block = \<lparr>blk_context = block_context_default, blk_txs = [refused_tx 200, refused_tx 50, refused_tx 60],
     blk_gas_limit = 100\<rparr>"

lemma run_blocker_Return:
  "run_blocker H A n c (Return (Inr ())) s = (Ok (events s), s\<lparr>events := []\<rparr>)"
  by (simp add: run_blocker_def lift_result_def pop_events_eq)

lemma tx_gas_limit_refused [simp]: "tx_gas_limit (refused_tx limit) = limit"
  by (simp add: refused_tx_def default_tx_def)

lemma apply_example_block:
  "\<exists>br s'. apply_block H A (Suc n) plain_stf example_block s = (Ok br, s') \<and> length (tx_results br) = 2 \<and>
     txs_skipped br = 1 \<and> br_gas_used br = 0"
  by (simp add: apply_block_def example_block_def do_begin_block_def do_end_block_def andThen_def ret_def
      apply_refused_tx Let_def run_blocker_Return)

theorem block_gas_within_limit_witness:
  "\<exists>br s'. apply_block reference_host (example_codes reference_host) 3 plain_stf example_block (exec_state_new (\<lambda>_. Inr None))
       = (Ok br, s') \<and> br_gas_used br \<le> 100"
proof -
  obtain br s' where run: "apply_block reference_host (example_codes reference_host) 3 plain_stf example_block
      (exec_state_new (\<lambda>_. Inr None)) = (Ok br, s')"
    using apply_example_block [of _ _ 2] by (fastforce simp: numeral_3_eq_3 numeral_2_eq_2)
  from block_gas_within_limit [OF run] run show ?thesis by (auto simp: example_block_def)
qed

section \<open>Skipped transactions\<close>

text \<open>Every transaction of a block is accounted for: those executed and those counted as skipped are at
  least as many as the block's transactions, and exactly as many when the block stays below its gas
  limit.\<close>

theorem block_accounts_for_txs:
  assumes "apply_block H A n S b s = (Ok br, s')"
  shows "length (blk_txs b) \<le> length (tx_results br) + txs_skipped br \<and>
    (br_gas_used br < blk_gas_limit b \<longrightarrow> length (tx_results br) + txs_skipped br = length (blk_txs b))"
  using assms
proof (rule apply_block_cases)
  fix s1 s2
  assume txs: "apply_txs H A n S (blk_context b) (blk_gas_limit b) (length (blk_txs b)) (blk_txs b) ([], 0, 0) s1 =
    (Ok (tx_results br, br_gas_used br, txs_skipped br), s2)"
  from apply_txs_skipped [OF txs] show ?thesis by simp
qed

theorem block_accounts_for_txs_witness:
  "\<exists>br s'. apply_block reference_host (example_codes reference_host) 3 plain_stf example_block (exec_state_new (\<lambda>_. Inr None))
       = (Ok br, s') \<and> length (tx_results br) + txs_skipped br = 3"
proof -
  obtain br s' where run: "apply_block reference_host (example_codes reference_host) 3 plain_stf example_block
      (exec_state_new (\<lambda>_. Inr None)) = (Ok br, s')" and "br_gas_used br = 0"
    using apply_example_block [of _ _ 2] by (fastforce simp: numeral_3_eq_3 numeral_2_eq_2)
  with block_accounts_for_txs [OF run] run show ?thesis by (auto simp: example_block_def)
qed

text \<open>When a transaction has been skipped for not fitting and a later one brings the block to its gas
  limit, the count adds the skipped one a second time: \<open>txs_skipped\<close> is one more than the number of
  transactions that were not executed.\<close>

theorem txs_skipped_counts_twice:
  assumes "lim < tx_gas_limit t1" and "tx_gas_limit t2 \<le> lim"
    and "apply_tx H A n S t2 (stf_gas_config S) b s = (Ok r, s')" and "lim \<le> tr_gas_used r"
  shows "\<exists>skipped. apply_txs H A n S b lim (length (t1 # t2 # ts)) (t1 # t2 # ts) ([], 0, 0) s =
      (Ok ([r], tr_gas_used r, skipped), s') \<and> skipped = Suc (length (t1 # t2 # ts) - 1)"
  using assms by (simp add: Let_def not_less [symmetric])

section \<open>Agreement and state\<close>

text \<open>Measuring does not change the result: \<open>apply_block_with_metrics\<close> returns the block result and the
  state of \<open>apply_block\<close>, whatever the clock reads, and unwinds exactly when it does.\<close>

theorem metrics_do_not_interfere:
  "map_ok fst (apply_block_with_metrics H A n S clock b s) = apply_block H A n S b s"
  by (rule apply_block_with_metrics_agrees)

text \<open>A block executed from an empty overlay leaves a state within all limits, and its changes come out
  sorted by key without repetitions.\<close>

theorem block_changes_ordered:
  assumes "apply_block_on H A n S storage b = (Ok br, s')"
  shows "exec_state_wf s' \<and>
    (\<exists>cs. into_changes s' = Inr cs \<and> sorted (map change_key cs) \<and> distinct (map change_key cs))"
proof -
  have wf: "exec_state_wf s'"
    using apply_block_wf [OF assms [unfolded apply_block_on_def]] exec_state_new_wf(1) by simp
  then have "hm_wf (overlay s')" by (simp add: exec_state_wf_def overlay_wf_def)
  moreover obtain cs where "into_changes s' = Inr cs" by (simp add: into_changes_eq)
  ultimately show ?thesis using wf into_changes_sorted by blast
qed

theorem block_changes_ordered_witness:
  "\<exists>br s' cs. apply_block_on reference_host (example_codes reference_host) 3 plain_stf (\<lambda>_. Inr None) example_block
       = (Ok br, s') \<and> into_changes s' = Inr cs \<and> sorted (map change_key cs)"
proof -
  obtain br s' where run: "apply_block_on reference_host (example_codes reference_host) 3 plain_stf (\<lambda>_. Inr None)
      example_block = (Ok br, s')"
    using apply_example_block [of _ _ 2] unfolding apply_block_on_def
    by (fastforce simp: numeral_3_eq_3 numeral_2_eq_2)
  from block_changes_ordered [OF run] run show ?thesis by blast
qed

section \<open>Failed transactions\<close>



section \<open>Sender bootstrap\<close>

lemma message_new_string_len:
  assumes "host_ok H" "message_new (h_string H) cid = Inr m"
  shows "message_len m = 4 + length cid"
proof -
  from assms(2) obtain b where "serialize (h_string H) cid = Some b" "m = OwnedBytes b"
    by (auto simp: message_new_def encode_def to_vec_def split: option.splits)
  with assms(1) show ?thesis by (auto simp: host_ok_def)
qed

text \<open>The first registration of an account whose initialization fails: the code identifier has been paid
  for and stored, and stays.\<close>

lemma register_failing_init:
  assumes H: "host_ok H" and a: "account_wf a"
    and fresh: "logical_get (w_state w) (get_account_code_identifier_for_account_key a) = Inr None"
    and valid: "validate_code_id (h_unicode_alphanumeric H) cid = Inr ()"
    and m: "message_new (h_string H) cid = Inr m"
    and paid: "consume_set_gas (get_account_code_identifier_for_account_key a) m (w_gas w) = (Ok (), g)"
    and room: "length (overlay (w_state w)) < MAX_OVERLAY_ENTRIES"
    and code: "A cid = Inr (Some code)" "\<And>req. ac_init code req = Return (Inl e)"
  shows "\<exists>w'. register_account_at_id H A ex qu c a cid msg w = (Err e, w') \<and>
    logical_get (w_state w') (get_account_code_identifier_for_account_key a) = Inr (Some m) \<and> w_gas w' = g"
proof -
  let ?key = "get_account_code_identifier_for_account_key a"
  let ?s = "(w_state w)\<lparr>metrics := inc_storage_reads (metrics (w_state w))\<rparr>"
  have key: "?key = ACCOUNT_IDENTIFIER_PREFIX # a" by (simp add: get_account_code_identifier_for_account_key_def)
  have get: "on_state (get_account_code_identifier_for_account H a) w = (Ok None, w\<lparr>w_state := ?s\<rparr>)"
    using fresh by (simp add: on_state_def get_account_code_identifier_for_account_def andThen_def get_logical ret_def)
  have "message_len m \<le> MAX_VALUE_SIZE"
    using message_new_string_len [OF H m] validate_code_id_ok [OF valid] by (simp add: MAX_VALUE_SIZE_def)
  then obtain s' where s': "set_op ?key m ?s = (Ok (), s')"
    using a room by (auto simp: set_op_cases key MAX_KEY_SIZE_def MAX_STORAGE_KEY_SIZE_def)
  let ?w = "w\<lparr>w_state := s', w_gas := g\<rparr>"
  have "register_account_at_id H A ex qu c a cid msg w = (Err e, ?w)"
    using get valid m paid s' code
    by (simp add: register_account_at_id_def andThen_def lift_result_def on_gas_def on_state_def Let_def
        with_code_def key)
  moreover have "logical_get (w_state ?w) ?key = Inr (Some m)" using set_op_logical [OF s'] by simp
  ultimately show ?thesis by (intro exI [of _ ?w]) simp
qed

lemma logical_get_events [simp]: "logical_get (s\<lparr>events := es\<rparr>) key = logical_get s key"
  by (simp add: logical_get_def split: option.splits)

lemma apply_failing_bootstrap:
  assumes "host_ok H" and "account_wf a"
    and "tx_resolve_sender_account tx = Return (Inr a)" and "tx_sender_bootstrap tx = Some bs"
    and "logical_get s (get_account_code_identifier_for_account_key a) = Inr None"
    and "validate_code_id (h_unicode_alphanumeric H) (sb_account_code_id bs) = Inr ()"
    and "message_new (h_string H) (sb_account_code_id bs) = Inr m"
    and "set_gas cfg (get_account_code_identifier_for_account_key a) m \<le> tx_gas_limit tx"
    and "length (overlay s) < MAX_OVERLAY_ENTRIES"
    and "A (sb_account_code_id bs) = Inr (Some code)" and "\<And>req. ac_init code req = Return (Inl e)"
  shows "\<exists>r s'. apply_tx H A n S tx cfg b s = (Ok r, s') \<and> tr_response r = Inl e \<and>
    tr_gas_used r = set_gas cfg (get_account_code_identifier_for_account_key a) m \<and>
    logical_get s' (get_account_code_identifier_for_account_key a) = Inr (Some m)"
proof -
  let ?w = "\<lparr>w_state = s, w_gas = Finite (tx_gas_limit tx) 0 cfg\<rparr>"
  let ?key = "get_account_code_identifier_for_account_key a"
  let ?g = "Finite (tx_gas_limit tx) (set_gas cfg ?key m) cfg"
  have "consume_set_gas ?key m (w_gas ?w) = (Ok (), ?g)" using assms(8) by (simp add: Let_def not_less [symmetric])
  moreover have "logical_get (w_state ?w) ?key = Inr None" "length (overlay (w_state ?w)) < MAX_OVERLAY_ENTRIES"
    using assms(5,9) by simp_all
  ultimately obtain w' where reg: "register_account_at_id H A (do_exec H A n) (do_query H A n) (new_for_begin_block b) a
      (sb_account_code_id bs) (sb_init_message bs) ?w = (Err e, w')"
    "logical_get (w_state w') ?key = Inr (Some m)" "w_gas w' = ?g"
    using register_failing_init [where A = A and w = ?w and e = e and cid = "sb_account_code_id bs",
        OF assms(1,2) _ assms(6,7) _ _ assms(10,11)] by blast
  then have "apply_tx H A n S tx cfg b s =
      (Ok \<lparr>tr_events = events (w_state w'), tr_gas_used = set_gas cfg ?key m, tr_response = Inl e\<rparr>, (w_state w')\<lparr>events := []\<rparr>)"
    using assms(3,4)
    by (simp add: apply_tx_def tx_phases_def resolve_sender_phase_def bootstrap_sender_phase_def andThen_def
        lift_result_def Let_def tx_error_result_def pop_events_eq)
  with reg(2) show ?thesis by simp
qed



text \<open>An account code that refuses its initialization, and a transaction that bootstraps its sender with it.\<close>

definition refusing_code :: account_code where
  "refusing_code = \<lparr>ac_identifier = ''eoa'', ac_init = (\<lambda>_. Return (Inl ERR_UNAUTHORIZED)),
     ac_execute = (\<lambda>_. Return (Inl ERR_UNKNOWN_FUNCTION)), ac_query = (\<lambda>_. QReturn (Inl ERR_UNKNOWN_FUNCTION))\<rparr>"

definition refusing_codes :: account_codes where
  "refusing_codes cid = Inr (Some refusing_code)"

definition bootstrap_tx :: "u64 \<Rightarrow> tx" where
  "bootstrap_tx limit = (default_tx example_account example_account example_request limit [] (replicate 32 1))
     \<lparr>tx_sender_bootstrap := Some \<lparr>sb_account_code_id = ''eoa'', sb_init_message = OwnedBytes []\<rparr>\<rparr>"

lemma eoa_valid: "validate_code_id u ''eoa'' = Inr ()"
  by (simp add: validate_code_id_def MAX_CODE_ID_LENGTH_def utf8_chars_def is_alphanumeric_def)

lemma eoa_message:
  obtains m where "message_new (h_string reference_host) ''eoa'' = Inr m"
    "set_gas storage_gas_config_default (get_account_code_identifier_for_account_key example_account) m = 420"
proof -
  have "borsh_ok str_ok (h_string reference_host)" using reference_host_ok by (simp add: host_ok_def)
  moreover have "str_ok ''eoa''" using validate_code_id_ok [OF eoa_valid] by blast
  ultimately obtain m where m: "message_new (h_string reference_host) ''eoa'' = Inr m"
    using borsh_ok_message [of str_ok "h_string reference_host" "''eoa''"] by metis
  let ?key = "get_account_code_identifier_for_account_key example_account"
  have len: "length ?key = 33" "message_len m = 7"
    using message_new_string_len [OF reference_host_ok m]
    by (simp_all add: get_account_code_identifier_for_account_key_def example_account_user)
  have "unat (set_gas storage_gas_config_default ?key m) = 420"
    using unat_set_gas [of ?key m storage_gas_config_default] by (simp add: len storage_gas_config_default_def)
  then show ?thesis using m that by (simp add: word_unat_eq_iff)
qed

lemma bootstrap_tx_simps:
  "tx_gas_limit (bootstrap_tx limit) = limit"
  "tx_resolve_sender_account (bootstrap_tx limit) = Return (Inr example_account)"
  "tx_sender_bootstrap (bootstrap_tx limit) = Some \<lparr>sb_account_code_id = ''eoa'', sb_init_message = OwnedBytes []\<rparr>"
  "refusing_codes cid = Inr (Some refusing_code)" "ac_init refusing_code req = Return (Inl ERR_UNAUTHORIZED)"
  "logical_get (exec_state_new (\<lambda>_. Inr None)) key = Inr None"
  "length (overlay (exec_state_new (\<lambda>_. Inr None))) < MAX_OVERLAY_ENTRIES"
  by (simp_all add: bootstrap_tx_def default_tx_def refusing_codes_def refusing_code_def logical_get_def
      exec_state_new_def MAX_OVERLAY_ENTRIES_def)


text \<open>A block with gas limit 420: the first transaction asks for more and is skipped, the second uses all of
  it, and the third is never reached.\<close>

theorem txs_skipped_counts_twice_witness:
  "\<exists>s' r. apply_txs reference_host refusing_codes 3 plain_stf block_context_default 420 3
       [bootstrap_tx 500, bootstrap_tx 420, bootstrap_tx 300] ([], 0, 0) (exec_state_new (\<lambda>_. Inr None))
     = (Ok ([r], 420, 3), s')"
proof -
  obtain m where m: "message_new (h_string reference_host) ''eoa'' = Inr m"
    "set_gas storage_gas_config_default (get_account_code_identifier_for_account_key example_account) m = 420"
    by (rule eoa_message)
  from apply_failing_bootstrap [OF reference_host_ok example_account_user(1), of "bootstrap_tx 420"
      "\<lparr>sb_account_code_id = ''eoa'', sb_init_message = OwnedBytes []\<rparr>" "exec_state_new (\<lambda>_. Inr None)" m
      storage_gas_config_default refusing_codes refusing_code ERR_UNAUTHORIZED 3 plain_stf block_context_default]
  obtain r s' where run: "apply_tx reference_host refusing_codes 3 plain_stf (bootstrap_tx 420)
      (stf_gas_config plain_stf) block_context_default (exec_state_new (\<lambda>_. Inr None)) = (Ok r, s')"
    and used: "tr_gas_used r = 420"
    by (auto simp: m bootstrap_tx_simps eoa_valid plain_stf_def)
  have "(420 :: u64) < tx_gas_limit (bootstrap_tx 500)" "tx_gas_limit (bootstrap_tx 420) \<le> (420 :: u64)"
    by (simp_all add: bootstrap_tx_simps)
  from txs_skipped_counts_twice [OF this run, of "[bootstrap_tx 300]"] used show ?thesis
    by (auto simp: numeral_3_eq_3 simp del: apply_txs.simps)
qed

section \<open>Object identifiers of a transaction\<close>

text \<open>The bound on the objects of one transaction is a bound on the block so far: the counter is not
  reset between transactions, so once 65535 identifiers have been handed out in the block, a
  transaction that asks for its very first one is refused.\<close>

theorem object_budget_shared_by_block:
  assumes "tx_validator S tx = UniqueId k" and "\<And>e. k (Inl e) = Return (Inl e)"
    and "tx_sender_bootstrap tx = None" and "tx_resolve_sender_account tx = Return (Inr a)"
    and "MAX_OBJECTS_PER_TRANSACTION \<le> unique_objects s" and "unique_objects s \<noteq> - 1"
  shows "\<exists>r s'. apply_tx H A n S tx cfg b s = (Ok r, s') \<and> tr_response r = Inl ERR_TOO_MANY_OBJECTS"
proof -
  have "1 + unique_objects s \<noteq> 0" using assms(6) by (metis eq_neg_iff_add_eq_0 add.commute)
  then have "unique_objects s < unique_objects s + 1" by (simp add: word_less_nat_alt unatSuc add.commute)
  with assms(5) have "MAX_OBJECTS_PER_TRANSACTION < unique_objects s + 1" by (rule le_less_trans)
  then show ?thesis
    by (simp add: apply_tx_def tx_phases_def resolve_sender_phase_def bootstrap_sender_phase_def assms(1-4)
        validate_tx_phase_def run_in_def andThen_def lift_result_def ret_def attempt_def invoker_unique_id_def
        next_unique_object_id_def new_for_validate_tx_def Let_def tx_error_result_def pop_events_eq)
qed

text \<open>A validator that takes one identifier for every transaction.\<close>

definition numbering_stf :: stf where
  "numbering_stf = plain_stf\<lparr>tx_validator := \<lambda>_. UniqueId (\<lambda>r. Return (case r of Inl e \<Rightarrow> Inl e | Inr _ \<Rightarrow> Inr ()))\<rparr>"

theorem object_budget_shared_by_block_witness:
  "\<exists>r s'. apply_tx reference_host refusing_codes 3 numbering_stf (refused_tx 100) storage_gas_config_default
       block_context_default ((exec_state_new (\<lambda>_. Inr None))\<lparr>unique_objects := 65535\<rparr>) = (Ok r, s') \<and>
     tr_response r = Inl ERR_TOO_MANY_OBJECTS"
  by (rule object_budget_shared_by_block [of _ _ "\<lambda>r. Return (case r of Inl e \<Rightarrow> Inl e | Inr _ \<Rightarrow> Inr ())"])
    (simp_all add: numbering_stf_def refused_tx_def default_tx_def MAX_OBJECTS_PER_TRANSACTION_def)

section \<open>Signature verification\<close>

text \<open>Filtering a block by its verified signatures keeps exactly the transactions that verify, in
  order, and the reported indices are their positions in the block.\<close>

theorem signature_filter_exact:
  fixes txs :: "'t list" and v :: "'t \<Rightarrow> error_code + unit"
  defines "res \<equiv> filter_valid_signatures txs (verify_signatures_parallel txs v)"
  shows "fst res = filter (\<lambda>t. v t = Inr ()) txs \<and>
    snd res = map fst (filter (\<lambda>(i, t). v t = Inr ()) (enumerate 0 txs)) \<and>
    fst res = map (nth txs) (snd res)"
proof -
  have "map (nth txs) (map fst (filter (\<lambda>(i, t). v t = Inr ()) (enumerate 0 txs))) =
      map snd (filter (\<lambda>(i, t). v t = Inr ()) (enumerate 0 txs))"
    by (auto simp: in_set_enumerate_eq)
  also have "\<dots> = filter (\<lambda>t. v t = Inr ()) (map snd (enumerate 0 txs))"
    by (simp only: filter_map comp_def split_def)
  finally show ?thesis
    unfolding res_def by (simp add: verify_signatures_parallel_def filter_valid_signatures_map)
qed

end
