(* ===== verification/Binary_Heap.thy ===== *)
theory Binary_Heap
  imports Prelude "HOL-Library.Multiset"
begin

text \<open>
  Rust's \<open>BinaryHeap\<close>: a max-heap in a vector. \<open>push\<close> appends and sifts up; \<open>pop\<close> moves the last
  element to the root, sifts it down to the bottom and up again, as the standard library does. The
  hole the library carries through the vector is written as a sequence of swaps. Elements are compared
  by a key; which of several elements with the same key comes first is decided by the algorithm.
\<close>

section \<open>The algorithm\<close>

definition swap :: "nat \<Rightarrow> nat \<Rightarrow> 'a list \<Rightarrow> 'a list" where
  "swap i j a = a[i := a ! j, j := a ! i]"

definition parent :: "nat \<Rightarrow> nat" where
  "parent i = (i - 1) div 2"

lemma parent_less [simp]: "0 < i \<Longrightarrow> parent i < i"
  by (auto simp: parent_def)

lemma parent_le [simp]: "parent i \<le> i"
  by (auto simp: parent_def)

lemma parent_bound [simp]: "i < n \<Longrightarrow> parent i < n"
  by (rule le_less_trans [OF parent_le])

lemma parent_child: "0 < i \<Longrightarrow> parent i = pos \<longleftrightarrow> i = 2 * pos + 1 \<or> i = 2 * pos + 2"
  by (auto simp: parent_def)

function sift_up :: "('a \<Rightarrow> 'k::linorder) \<Rightarrow> nat \<Rightarrow> 'a list \<Rightarrow> 'a list" where
  "sift_up key pos a =
     (if pos = 0 \<or> key (a ! pos) \<le> key (a ! parent pos) then a
      else sift_up key (parent pos) (swap pos (parent pos) a))"
  by pat_completeness auto
termination
  by (relation "measure (\<lambda>(key, pos, a). pos)") auto

declare sift_up.simps [simp del]

function sift_down_to_bottom :: "('a \<Rightarrow> 'k::linorder) \<Rightarrow> nat \<Rightarrow> 'a list \<Rightarrow> 'a list" where
  "sift_down_to_bottom key pos a =
     (let child = 2 * pos + 1 in
      if child + 1 < length a then
        let child = (if key (a ! child) \<le> key (a ! (child + 1)) then child + 1 else child)
        in sift_down_to_bottom key child (swap pos child a)
      else if child < length a then sift_up key child (swap pos child a)
      else sift_up key pos a)"
  by pat_completeness auto
termination
  by (relation "measure (\<lambda>(key, pos, a). length a - pos)") (auto simp: swap_def)

declare sift_down_to_bottom.simps [simp del]

definition heap_push :: "('a \<Rightarrow> 'k::linorder) \<Rightarrow> 'a \<Rightarrow> 'a list \<Rightarrow> 'a list" where
  "heap_push key x a = sift_up key (length a) (a @ [x])"

definition heap_pop :: "('a \<Rightarrow> 'k::linorder) \<Rightarrow> 'a list \<Rightarrow> ('a \<times> 'a list) option" where
  "heap_pop key a =
     (if a = [] then None
      else let item = last a; rest = butlast a in
        if rest = [] then Some (item, [])
        else Some (rest ! 0, sift_down_to_bottom key 0 (rest[0 := item])))"

definition heap_peek :: "'a list \<Rightarrow> 'a option" where
  "heap_peek a = (if a = [] then None else Some (a ! 0))"

section \<open>Contents\<close>

lemma length_swap [simp]: "length (swap i j a) = length a"
  by (simp add: swap_def)

lemma mset_swap_eq [simp]: "i < length a \<Longrightarrow> j < length a \<Longrightarrow> mset (swap i j a) = mset a"
  by (simp add: swap_def mset_swap)

lemma nth_swap:
  "i < length a \<Longrightarrow> j < length a \<Longrightarrow> swap i j a ! k = (if k = j then a ! i else if k = i then a ! j else a ! k)"
  by (auto simp: swap_def nth_list_update)

lemma mset_sift_up [simp]: "pos < length a \<Longrightarrow> mset (sift_up key pos a) = mset a"
proof (induction key pos a rule: sift_up.induct)
  case (1 key pos a)
  then show ?case by (subst sift_up.simps) auto
qed

lemma mset_sift_down [simp]: "pos < length a \<Longrightarrow> mset (sift_down_to_bottom key pos a) = mset a"
proof (induction key pos a rule: sift_down_to_bottom.induct)
  case (1 key pos a)
  then show ?case by (subst sift_down_to_bottom.simps) (auto simp: Let_def)
qed

lemma mset_heap_push: "mset (heap_push key x a) = add_mset x (mset a)"
  by (simp add: heap_push_def)

lemma mset_heap_pop: "heap_pop key a = Some (x, b) \<Longrightarrow> mset a = add_mset x (mset b)"
proof -
  assume pop: "heap_pop key a = Some (x, b)"
  then have "a \<noteq> []" by (auto simp: heap_pop_def)
  then have a: "mset a = add_mset (last a) (mset (butlast a))"
    by (metis append_butlast_last_id union_mset_add_mset_right mset_append mset.simps add_mset_add_single)
  show ?thesis
  proof (cases "butlast a")
    case Nil
    with pop a \<open>a \<noteq> []\<close> show ?thesis by (auto simp: heap_pop_def Let_def)
  next
    case (Cons y ys)
    with pop a \<open>a \<noteq> []\<close> show ?thesis by (auto simp: heap_pop_def Let_def)
  qed
qed

lemma heap_pop_None [simp]: "heap_pop key a = None \<longleftrightarrow> a = []"
  by (auto simp: heap_pop_def Let_def)

lemma heap_pop_Nil [simp]: "heap_pop key [] = None"
  by simp

section \<open>Order\<close>

definition heap_inv :: "('a \<Rightarrow> 'k::linorder) \<Rightarrow> 'a list \<Rightarrow> bool" where
  "heap_inv key a \<longleftrightarrow> (\<forall>i < length a. 0 < i \<longrightarrow> key (a ! i) \<le> key (a ! parent i))"

text \<open>Everything is in order but perhaps the element at \<open>pos\<close> and its parent; and but perhaps the element
  at \<open>pos\<close> with its parent and its children. In both cases the children are below the parent.\<close>

definition up_inv :: "('a \<Rightarrow> 'k::linorder) \<Rightarrow> nat \<Rightarrow> 'a list \<Rightarrow> bool" where
  "up_inv key pos a \<longleftrightarrow>
     (\<forall>i < length a. 0 < i \<longrightarrow> i \<noteq> pos \<longrightarrow> key (a ! i) \<le> key (a ! parent i)) \<and>
     (\<forall>i < length a. 0 < i \<longrightarrow> parent i = pos \<longrightarrow> 0 < pos \<longrightarrow> key (a ! i) \<le> key (a ! parent pos))"

definition down_inv :: "('a \<Rightarrow> 'k::linorder) \<Rightarrow> nat \<Rightarrow> 'a list \<Rightarrow> bool" where
  "down_inv key pos a \<longleftrightarrow>
     (\<forall>i < length a. 0 < i \<longrightarrow> i \<noteq> pos \<longrightarrow> parent i \<noteq> pos \<longrightarrow> key (a ! i) \<le> key (a ! parent i)) \<and>
     (\<forall>i < length a. 0 < i \<longrightarrow> parent i = pos \<longrightarrow> 0 < pos \<longrightarrow> key (a ! i) \<le> key (a ! parent pos))"

lemma sift_up_inv: "pos < length a \<Longrightarrow> up_inv key pos a \<Longrightarrow> heap_inv key (sift_up key pos a)"
proof (induction key pos a rule: sift_up.induct)
  case (1 key pos a)
  show ?case
  proof (cases "pos = 0 \<or> key (a ! pos) \<le> key (a ! parent pos)")
    case True
    with 1(3) have "heap_inv key a" by (auto simp: heap_inv_def up_inv_def)
    with True show ?thesis by (subst sift_up.simps) simp
  next
    case False
    then have lt: "parent pos < pos" "key (a ! parent pos) < key (a ! pos)" by (simp_all add: not_le)
    let ?b = "swap pos (parent pos) a"
    have b: "?b ! k = (if k = parent pos then a ! pos else if k = pos then a ! parent pos else a ! k)" for k
      using 1(2) lt by (simp add: nth_swap)
    have "up_inv key (parent pos) ?b"
      unfolding up_inv_def
    proof (intro conjI allI impI)
      fix i assume i: "i < length ?b" "0 < i" "i \<noteq> parent pos"
      then have "i \<noteq> pos \<Longrightarrow> key (a ! i) \<le> key (a ! parent i)" using 1(3) by (simp add: up_inv_def)
      moreover have "parent i = pos \<Longrightarrow> key (a ! i) \<le> key (a ! parent pos)"
        using 1(3) i lt by (simp add: up_inv_def)
      ultimately show "key (?b ! i) \<le> key (?b ! parent i)" using i lt by (auto simp: b)
    next
      fix i assume i: "i < length ?b" "0 < i" "parent i = parent pos" "0 < parent pos"
      have up: "key (a ! parent pos) \<le> key (a ! parent (parent pos))"
        using 1(2,3) i(4) lt by (auto simp: up_inv_def)
      have "i \<noteq> pos \<Longrightarrow> key (a ! i) \<le> key (a ! parent pos)"
        using 1(3) i by (auto simp: up_inv_def)
      with up i lt show "key (?b ! i) \<le> key (?b ! parent (parent pos))" by (auto simp: b)
    qed
    with 1 False lt show ?thesis by (subst sift_up.simps) simp
  qed
qed

lemma down_inv_swap:
  assumes down: "down_inv key pos a" and c: "child < length a" "0 < child" "parent child = pos"
    and max: "\<And>i. i < length a \<Longrightarrow> 0 < i \<Longrightarrow> parent i = pos \<Longrightarrow> key (a ! i) \<le> key (a ! child)"
  shows "down_inv key child (swap pos child a)"
proof -
  let ?b = "swap pos child a"
  have lt: "pos < child" using c(2,3) parent_less by blast
  have b: "?b ! k = (if k = child then a ! pos else if k = pos then a ! child else a ! k)" for k
    using c lt by (simp add: nth_swap)
  show ?thesis unfolding down_inv_def
  proof (intro conjI allI impI)
    fix i assume i: "i < length ?b" "0 < i" "i \<noteq> child" "parent i \<noteq> child"
    show "key (?b ! i) \<le> key (?b ! parent i)"
    proof (cases "i = pos")
      case True
      then show ?thesis using i c down lt by (auto simp: b down_inv_def)
    next
      case False
      then show ?thesis using i down max lt by (auto simp: b down_inv_def)
    qed
  next
    fix i assume i: "i < length ?b" "0 < i" "parent i = child" "0 < child"
    then have "i \<noteq> pos" "i \<noteq> child" using lt parent_less [of i] parent_less [of pos] by auto
    moreover have "key (a ! i) \<le> key (a ! child)" using i down lt \<open>i \<noteq> pos\<close> by (auto simp: down_inv_def)
    ultimately show "key (?b ! i) \<le> key (?b ! parent child)" using c lt by (simp add: b)
  qed
qed

lemma up_inv_of_down: "down_inv key pos a \<Longrightarrow> length a \<le> 2 * pos + 1 \<Longrightarrow> up_inv key pos a"
  unfolding up_inv_def down_inv_def by (intro conjI allI impI) (auto simp: parent_child)

lemma sift_down_inv: "pos < length a \<Longrightarrow> down_inv key pos a \<Longrightarrow> heap_inv key (sift_down_to_bottom key pos a)"
proof (induction key pos a rule: sift_down_to_bottom.induct)
  case (1 key pos a)
  let ?child = "2 * pos + 1"
  let ?c = "if key (a ! ?child) \<le> key (a ! (?child + 1)) then ?child + 1 else ?child"
  consider "?child + 1 < length a" | "length a = ?child + 1" | "length a \<le> ?child" by linarith
  then show ?case
  proof cases
    case 1
    have "down_inv key ?c (swap pos ?c a)"
    proof (rule down_inv_swap [OF "1.prems"(2)])
      fix i assume "i < length a" "0 < i" "parent i = pos"
      then have "i = ?child \<or> i = ?child + 1" by (simp add: parent_child)
      then show "key (a ! i) \<le> key (a ! ?c)" by auto
    qed (use 1 in \<open>auto simp: parent_child\<close>)
    moreover have "?c < length (swap pos ?c a)" using 1 by simp
    ultimately show ?thesis
      using "1.IH"(1) [OF refl 1 refl] 1 by (subst sift_down_to_bottom.simps) (simp only: Let_def if_True)
  next
    case 2
    have "down_inv key ?child (swap pos ?child a)"
      by (rule down_inv_swap [OF "1.prems"(2)]) (use 2 in \<open>auto simp: parent_child\<close>)
    then have "up_inv key ?child (swap pos ?child a)" using 2 by (intro up_inv_of_down) simp_all
    then have "heap_inv key (sift_up key ?child (swap pos ?child a))" using 2 by (intro sift_up_inv) simp_all
    with 2 show ?thesis by (subst sift_down_to_bottom.simps) (simp add: Let_def)
  next
    case 3
    then have "heap_inv key (sift_up key pos a)" using "1.prems" by (intro sift_up_inv up_inv_of_down)
    with 3 show ?thesis by (subst sift_down_to_bottom.simps) (simp add: Let_def)
  qed
qed

lemma heap_inv_push: "heap_inv key a \<Longrightarrow> heap_inv key (heap_push key x a)"
  unfolding heap_push_def
proof (rule sift_up_inv)
  assume inv: "heap_inv key a"
  have "parent i \<noteq> length a" if "i < length (a @ [x])" "0 < i" for i
    using that parent_less [OF that(2)] by (simp del: parent_less)
  with inv show "up_inv key (length a) (a @ [x])" by (auto simp: heap_inv_def up_inv_def nth_append less_Suc_eq)
qed simp

lemma heap_inv_pop:
  assumes "heap_inv key a" and "heap_pop key a = Some (x, b)"
  shows "heap_inv key b"
proof (cases "butlast a = []")
  case True
  with assms(2) have "b = []" by (auto simp: heap_pop_def Let_def split: if_splits)
  then show ?thesis by (simp add: heap_inv_def)
next
  case False
  with assms(2) have b: "b = sift_down_to_bottom key 0 ((butlast a)[0 := last a])"
    by (auto simp: heap_pop_def Let_def split: if_splits)
  have "down_inv key 0 ((butlast a)[0 := last a])"
    using assms(1) by (auto simp: down_inv_def heap_inv_def nth_butlast nth_list_update less_imp_le_nat)
  moreover have "0 < length ((butlast a)[0 := last a])" using False by (cases "butlast a") simp_all
  ultimately show ?thesis unfolding b by (intro sift_down_inv)
qed

lemma heap_root_max: "heap_inv key a \<Longrightarrow> i < length a \<Longrightarrow> key (a ! i) \<le> key (a ! 0)"
proof (induction i rule: less_induct)
  case (less i)
  show ?case
  proof (cases "i = 0")
    case False
    then have "key (a ! i) \<le> key (a ! parent i)" "parent i < i" using less.prems by (auto simp: heap_inv_def)
    with less.IH [of "parent i"] less.prems show ?thesis by (auto intro: order_trans)
  qed simp
qed

lemma heap_pop_max:
  assumes "heap_inv key a" and "heap_pop key a = Some (x, b)" and "y \<in> set a"
  shows "key y \<le> key x"
proof -
  have "x = a ! 0"
    using assms(2) by (cases a rule: rev_cases) (auto simp: heap_pop_def Let_def nth_append split: if_splits)
  with assms heap_root_max [OF assms(1)] show ?thesis by (auto simp: in_set_conv_nth)
qed

section \<open>The contract\<close>

text \<open>What the mempool relies on: a bag of entries from which \<open>pop\<close> takes a greatest one.\<close>

locale max_heap =
  fixes push :: "'a \<Rightarrow> 'q \<Rightarrow> 'q" and pop :: "'q \<Rightarrow> ('a \<times> 'q) option" and peek :: "'q \<Rightarrow> 'a option"
    and empty :: 'q and contents :: "'q \<Rightarrow> 'a multiset" and invar :: "'q \<Rightarrow> bool"
    and key :: "'a \<Rightarrow> 'k::linorder"
  assumes invar_empty: "invar empty" and contents_empty: "contents empty = {#}"
    and invar_push: "invar q \<Longrightarrow> invar (push x q)"
    and contents_push: "contents (push x q) = add_mset x (contents q)"
    and pop_None: "pop q = None \<longleftrightarrow> contents q = {#}"
    and contents_pop: "pop q = Some (x, r) \<Longrightarrow> contents q = add_mset x (contents r)"
    and invar_pop: "invar q \<Longrightarrow> pop q = Some (x, r) \<Longrightarrow> invar r"
    and pop_max: "invar q \<Longrightarrow> pop q = Some (x, r) \<Longrightarrow> y \<in># contents q \<Longrightarrow> key y \<le> key x"
    and peek_pop: "peek q = map_option fst (pop q)"
begin

text \<open>Popping until the heap is empty gives the entries from the greatest key down.\<close>

inductive drains :: "'q \<Rightarrow> 'a list \<Rightarrow> 'q \<Rightarrow> bool" where
  drains_Nil: "drains q [] q"
| drains_Cons: "pop q = Some (x, r) \<Longrightarrow> drains r xs s \<Longrightarrow> drains q (x # xs) s"

lemma drains_contents: "drains q xs s \<Longrightarrow> contents q = mset xs + contents s"
  by (induction rule: drains.induct) (auto dest: contents_pop)

lemma drains_invar: "drains q xs s \<Longrightarrow> invar q \<Longrightarrow> invar s"
  by (induction rule: drains.induct) (auto dest: invar_pop)

lemma drains_sorted:
  "drains q xs s \<Longrightarrow> invar q \<Longrightarrow>
     sorted_wrt (\<lambda>x y. key y \<le> key x) xs \<and> (\<forall>x \<in> set xs. \<forall>y \<in># contents s. key y \<le> key x)"
proof (induction rule: drains.induct)
  case (drains_Cons q x r xs s)
  have "y \<in># contents r \<Longrightarrow> key y \<le> key x" for y
    using pop_max [OF drains_Cons.prems drains_Cons.hyps(1)] contents_pop [OF drains_Cons.hyps(1)] by simp
  then have "y \<in> set xs \<or> y \<in># contents s \<Longrightarrow> key y \<le> key x" for y
    using drains_contents [OF drains_Cons.hyps(2)] by auto
  with drains_Cons.IH invar_pop [OF drains_Cons.prems drains_Cons.hyps(1)] show ?case by auto
qed simp

lemma drains_append: "drains q xs r \<Longrightarrow> drains r ys s \<Longrightarrow> drains q (xs @ ys) s"
  by (induction rule: drains.induct) (auto intro: drains.intros)

end

interpretation bh: max_heap "heap_push key" "heap_pop key" heap_peek "[]" mset "heap_inv key" key
  for key :: "'a \<Rightarrow> 'k::linorder"
proof
  show "heap_peek q = map_option fst (heap_pop key q)" for q :: "'a list"
    by (cases q rule: rev_cases) (auto simp: heap_peek_def heap_pop_def Let_def nth_append)
  show "key y \<le> key x" if "heap_inv key q" "heap_pop key q = Some (x, r)" "y \<in># mset q" for q x r y
    using that by (intro heap_pop_max) simp_all
qed (auto simp: heap_inv_push mset_heap_push mset_heap_pop heap_inv_pop, simp add: heap_inv_def)

end
