(* ===== verification/Mempool.thy ===== *)
theory Mempool
  imports Binary_Heap "HOL-Library.Sublist"
begin

text \<open>
  The transaction pool (\<open>crates/app/mempool/src\<close>): sender keys and ordering keys (\<open>traits.rs\<close>), and the
  in-memory pool with its hash index, priority queue, sender index and in-flight set (\<open>pool.rs\<close>).
\<close>

section \<open>Sender keys\<close>

definition MAX_SENDER_KEY_LEN :: nat where "MAX_SENDER_KEY_LEN = 64"

record sender_key =
  sk_len :: u8
  sk_bytes :: bytes

definition sender_key_new :: "bytes \<Rightarrow> sender_key option" where
  "sender_key_new bs =
     (if length bs > MAX_SENDER_KEY_LEN then None
      else Some \<lparr>sk_len = of_nat (length bs), sk_bytes = bs @ replicate (MAX_SENDER_KEY_LEN - length bs) 0\<rparr>)"

definition sender_key_as_slice :: "sender_key \<Rightarrow> bytes" where
  "sender_key_as_slice k = take (unat (sk_len k)) (sk_bytes k)"

lemma sender_key_slice: "sender_key_new bs = Some k \<Longrightarrow> sender_key_as_slice k = bs"
  by (auto simp: sender_key_new_def sender_key_as_slice_def MAX_SENDER_KEY_LEN_def unat_of_nat split: if_splits)

lemma sender_key_inject: "sender_key_new a = Some k \<Longrightarrow> sender_key_new b = Some k \<Longrightarrow> a = b"
  by (metis sender_key_slice)

section \<open>Ordering keys\<close>

datatype ordering = Less | Equal | Greater

definition cmp :: "'a::linorder \<Rightarrow> 'a \<Rightarrow> ordering" where
  "cmp a b = (if a < b then Less else if a = b then Equal else Greater)"

definition then_with :: "ordering \<Rightarrow> ordering \<Rightarrow> ordering" where
  "then_with o1 o2 = (case o1 of Equal \<Rightarrow> o2 | _ \<Rightarrow> o1)"

text \<open>A higher gas price wins, for the same price the lower nonce; with timestamps the older wins.\<close>

datatype gas_price_ordering = GasPriceOrdering (go_gas_price: u128) (go_nonce: u64)

definition gas_price_cmp :: "gas_price_ordering \<Rightarrow> gas_price_ordering \<Rightarrow> ordering" where
  "gas_price_cmp a b = then_with (cmp (go_gas_price a) (go_gas_price b)) (cmp (go_nonce b) (go_nonce a))"

datatype fifo_ordering = FifoOrdering (fo_timestamp: u64)

definition fifo_cmp :: "fifo_ordering \<Rightarrow> fifo_ordering \<Rightarrow> ordering" where
  "fifo_cmp a b = cmp (fo_timestamp b) (fo_timestamp a)"

text \<open>The orders of the two keys are those of their comparisons.\<close>

instantiation gas_price_ordering :: linorder
begin

definition less_eq_gas_price_ordering :: "gas_price_ordering \<Rightarrow> gas_price_ordering \<Rightarrow> bool" where
  "less_eq_gas_price_ordering a b \<longleftrightarrow> gas_price_cmp a b \<noteq> Greater"

definition less_gas_price_ordering :: "gas_price_ordering \<Rightarrow> gas_price_ordering \<Rightarrow> bool" where
  "less_gas_price_ordering a b \<longleftrightarrow> gas_price_cmp a b = Less"

instance
  by standard (auto simp: less_eq_gas_price_ordering_def less_gas_price_ordering_def gas_price_cmp_def
      cmp_def then_with_def intro: gas_price_ordering.expand split: if_splits)

end

instantiation fifo_ordering :: linorder
begin

definition less_eq_fifo_ordering :: "fifo_ordering \<Rightarrow> fifo_ordering \<Rightarrow> bool" where
  "less_eq_fifo_ordering a b \<longleftrightarrow> fifo_cmp a b \<noteq> Greater"

definition less_fifo_ordering :: "fifo_ordering \<Rightarrow> fifo_ordering \<Rightarrow> bool" where
  "less_fifo_ordering a b \<longleftrightarrow> fifo_cmp a b = Less"

instance
  by standard (auto simp: less_eq_fifo_ordering_def less_fifo_ordering_def fifo_cmp_def cmp_def
      intro: fifo_ordering.expand split: if_splits)

end

lemma less_eq_gas_price_ordering_iff:
  "a \<le> b \<longleftrightarrow> go_gas_price a < go_gas_price b \<or> go_gas_price a = go_gas_price b \<and> go_nonce b \<le> go_nonce (a :: gas_price_ordering)"
  by (auto simp: less_eq_gas_price_ordering_def gas_price_cmp_def cmp_def then_with_def)

section \<open>The pool\<close>

text \<open>A transaction by what the trait \<open>MempoolTx\<close> says of it.\<close>

record 'k mempool_tx =
  mt_id :: bytes
  mt_ordering_key :: 'k
  mt_sender_key :: "sender_key option"
  mt_gas_limit :: u64

record 'k ordered_entry =
  oe_hash :: bytes
  oe_key :: 'k

datatype mempool_error =
  DecodeFailed string
| InvalidChainId u64 u64
| MissingChainId
| AlreadyExists
| ContractCreationNotSupported
| InternalError string

text \<open>A \<open>BTreeMap\<close> is the list of its entries in ascending order of the keys.\<close>

definition btree_insert :: "'a::linorder \<Rightarrow> 'b \<Rightarrow> ('a \<times> 'b) list \<Rightarrow> ('a \<times> 'b) list" where
  "btree_insert k v m = filter (\<lambda>(k', _). k' < k) m @ (k, v) # filter (\<lambda>(k', _). k < k') m"

record 'k mempool =
  by_hash :: "(bytes, 'k mempool_tx) hashmap"
  by_priority :: "'k ordered_entry list"
  by_sender :: "(sender_key, (u64 \<times> bytes) list) hashmap"
  by_sender_seq :: "(sender_key, u64) hashmap"
  in_flight :: "bytes list"

definition mempool_new :: "'k mempool" where
  "mempool_new = \<lparr>by_hash = [], by_priority = [], by_sender = [], by_sender_seq = [], in_flight = []\<rparr>"

definition mempool_len :: "'k mempool \<Rightarrow> nat" where
  "mempool_len p = length (by_hash p)"

definition mempool_is_empty :: "'k mempool \<Rightarrow> bool" where
  "mempool_is_empty p \<longleftrightarrow> by_hash p = []"

definition next_sender_sequence :: "sender_key \<Rightarrow> ('k mempool, mempool_error, u64) comp" where
  "next_sender_sequence sender p =
     (let current = (case hm_get (by_sender_seq p) sender of None \<Rightarrow> 0 | Some n \<Rightarrow> n) in
      case checked_add current 1 of
        None \<Rightarrow> (Panic, p)
      | Some n \<Rightarrow> (Ok current, p\<lparr>by_sender_seq := hm_insert sender n (by_sender_seq p)\<rparr>))"

definition mempool_add :: "'k::linorder mempool_tx \<Rightarrow> ('k mempool, mempool_error, bytes) comp" where
  "mempool_add tx p =
     (let tx_id = mt_id tx in
      if hm_get (by_hash p) tx_id \<noteq> None then (Err AlreadyExists, p)
      else
        let p = p\<lparr>by_hash := hm_insert tx_id tx (by_hash p),
                  by_priority := heap_push oe_key \<lparr>oe_hash = tx_id, oe_key = mt_ordering_key tx\<rparr> (by_priority p)\<rparr>
        in case mt_sender_key tx of
             None \<Rightarrow> (Ok tx_id, p)
           | Some sender \<Rightarrow>
               andThen (next_sender_sequence sender) (\<lambda>secondary_key p.
                 let nonces = (case hm_get (by_sender p) sender of None \<Rightarrow> [] | Some m \<Rightarrow> m)
                 in (Ok tx_id, p\<lparr>by_sender := hm_insert sender (btree_insert secondary_key tx_id nonces) (by_sender p)\<rparr>)) p)"

definition mempool_get :: "bytes \<Rightarrow> 'k mempool \<Rightarrow> 'k mempool_tx option" where
  "mempool_get hash p = hm_get (by_hash p) hash"

definition mempool_contains :: "bytes \<Rightarrow> 'k mempool \<Rightarrow> bool" where
  "mempool_contains hash p \<longleftrightarrow> hm_get (by_hash p) hash \<noteq> None"

definition mempool_remove :: "bytes \<Rightarrow> 'k mempool \<Rightarrow> 'k mempool_tx option \<times> 'k mempool" where
  "mempool_remove hash p =
     (case hm_get (by_hash p) hash of
        None \<Rightarrow> (None, p)
      | Some tx \<Rightarrow>
          let p = p\<lparr>by_hash := hm_remove hash (by_hash p)\<rparr> in
          (Some tx,
           case mt_sender_key tx of
             None \<Rightarrow> p
           | Some sender \<Rightarrow>
               (case hm_get (by_sender p) sender of
                  None \<Rightarrow> p
                | Some nonces \<Rightarrow>
                    let nonces = filter (\<lambda>(_, h). h \<noteq> hash) nonces in
                    if nonces = []
                    then p\<lparr>by_sender := hm_remove sender (by_sender p),
                           by_sender_seq := hm_remove sender (by_sender_seq p)\<rparr>
                    else p\<lparr>by_sender := hm_insert sender nonces (by_sender p)\<rparr>)))"

definition mempool_remove_many :: "bytes list \<Rightarrow> 'k mempool \<Rightarrow> 'k mempool" where
  "mempool_remove_many hashes p = fold (\<lambda>hash p. snd (mempool_remove hash p)) hashes p"

section \<open>Selection\<close>

lemma heap_pop_length: "heap_pop key q = Some (x, r) \<Longrightarrow> length r < length q"
  using mset_heap_pop [of key q x r] by (metis lessI size_add_mset size_mset)

function select_loop ::
    "nat \<Rightarrow> (bytes, 'k::linorder mempool_tx) hashmap \<Rightarrow> 'k ordered_entry list \<Rightarrow> 'k mempool_tx list \<Rightarrow>
       'k mempool_tx list \<times> 'k ordered_entry list" where
  "select_loop limit idx heap selected =
     (if length selected < limit then
        (case heap_pop oe_key heap of
           Some (entry, heap') \<Rightarrow>
             (case hm_get idx (oe_hash entry) of
                Some tx \<Rightarrow> select_loop limit idx heap' (selected @ [tx])
              | None \<Rightarrow> select_loop limit idx heap' selected)
         | None \<Rightarrow> (selected, heap))
      else (selected, heap))"
  by pat_completeness auto
termination
  by (relation "measure (\<lambda>(limit, idx, heap, selected). length heap)") (auto dest: heap_pop_length)

declare select_loop.simps [simp del]

definition mempool_select :: "nat \<Rightarrow> 'k::linorder mempool \<Rightarrow> 'k mempool_tx list \<times> 'k mempool" where
  "mempool_select limit p =
     (let (selected, heap) = select_loop limit (by_hash p) (by_priority p) [] in
      (selected, p\<lparr>by_priority := heap\<rparr>))"

function budget_loop ::
    "u64 \<Rightarrow> nat \<Rightarrow> (bytes, 'k::linorder mempool_tx) hashmap \<Rightarrow> 'k ordered_entry list \<Rightarrow>
       'k mempool_tx list \<Rightarrow> u64 \<Rightarrow> 'k ordered_entry list \<Rightarrow>
       'k mempool_tx list \<times> u64 \<times> 'k ordered_entry list \<times> 'k ordered_entry list" where
  "budget_loop max_gas max_txs idx heap selected total_gas skipped =
     (if max_txs = 0 \<or> length selected < max_txs then
        (case heap_pop oe_key heap of
           Some (entry, heap') \<Rightarrow>
             (case hm_get idx (oe_hash entry) of
                Some tx \<Rightarrow>
                  let tx_gas = mt_gas_limit tx in
                  if max_gas = 0 \<or> saturating_add total_gas tx_gas \<le> max_gas
                  then budget_loop max_gas max_txs idx heap' (selected @ [tx]) (saturating_add total_gas tx_gas) skipped
                  else budget_loop max_gas max_txs idx heap' selected total_gas (skipped @ [entry])
              | None \<Rightarrow> budget_loop max_gas max_txs idx heap' selected total_gas skipped)
         | None \<Rightarrow> (selected, total_gas, skipped, heap))
      else (selected, total_gas, skipped, heap))"
  by pat_completeness auto
termination
  by (relation "measure (\<lambda>(max_gas, max_txs, idx, heap, rest). length heap)") (auto dest: heap_pop_length)

declare budget_loop.simps [simp del]

definition select_with_gas_budget ::
    "u64 \<Rightarrow> nat \<Rightarrow> 'k::linorder mempool \<Rightarrow> ('k mempool_tx list \<times> u64) \<times> 'k mempool" where
  "select_with_gas_budget max_gas max_txs p =
     (let (selected, total_gas, skipped_entries, heap) =
            budget_loop max_gas max_txs (by_hash p) (by_priority p) [] 0 []
      in ((selected, total_gas), p\<lparr>by_priority := fold (heap_push oe_key) skipped_entries heap\<rparr>))"

definition hs_insert :: "'a \<Rightarrow> 'a list \<Rightarrow> 'a list" where
  "hs_insert x xs = (if x \<in> set xs then xs else xs @ [x])"

definition propose :: "u64 \<Rightarrow> nat \<Rightarrow> 'k::linorder mempool \<Rightarrow> ('k mempool_tx list \<times> u64) \<times> 'k mempool" where
  "propose max_gas max_txs p =
     (let ((selected, total_gas), p) = select_with_gas_budget max_gas max_txs p in
      ((selected, total_gas), p\<lparr>in_flight := fold (\<lambda>tx. hs_insert (mt_id tx)) selected (in_flight p)\<rparr>))"

definition return_in_flight ::
    "(bytes, 'k::linorder mempool_tx) hashmap \<Rightarrow> bytes \<Rightarrow> 'k ordered_entry list \<Rightarrow> 'k ordered_entry list" where
  "return_in_flight idx hash heap =
     (case hm_get idx hash of
        Some tx \<Rightarrow> heap_push oe_key \<lparr>oe_hash = hash, oe_key = mt_ordering_key tx\<rparr> heap
      | None \<Rightarrow> heap)"

definition finalize :: "bytes list \<Rightarrow> 'k::linorder mempool \<Rightarrow> 'k mempool" where
  "finalize executed p =
     (let p = mempool_remove_many executed p;
          flight = filter (\<lambda>hash. hash \<notin> set executed) (in_flight p)
      in p\<lparr>in_flight := [], by_priority := fold (return_in_flight (by_hash p)) flight (by_priority p)\<rparr>)"

definition mempool_peek :: "'k mempool \<Rightarrow> 'k mempool_tx option" where
  "mempool_peek p = (case heap_peek (by_priority p) of None \<Rightarrow> None | Some entry \<Rightarrow> hm_get (by_hash p) (oe_hash entry))"

definition get_sender_txs :: "sender_key \<Rightarrow> 'k mempool \<Rightarrow> bytes list" where
  "get_sender_txs sender p = (case hm_get (by_sender p) sender of None \<Rightarrow> [] | Some nonces \<Rightarrow> map snd nonces)"

definition mempool_clear :: "'k mempool \<Rightarrow> 'k mempool" where
  "mempool_clear p =
     p\<lparr>by_hash := [], by_priority := [], by_sender := [], by_sender_seq := [], in_flight := []\<rparr>"

end
