(* ===== verification/Mempool_Props.thy ===== *)
theory Mempool_Props
  imports Mempool
begin

text \<open>
  Invariants of the transaction pool: what its sender index holds, what a selection returns, and how
  transactions move between the queue and the in-flight set.
\<close>

abbreviation drains where
  "drains \<equiv> max_heap.drains (heap_pop oe_key)"

section \<open>What a selection does\<close>

text \<open>The entries popped by the loop: the live ones were either selected, in the order popped, or put
  aside because they did not fit.\<close>

definition picks ::
    "(bytes, 'k mempool_tx) hashmap \<Rightarrow> 'k ordered_entry list \<Rightarrow> 'k ordered_entry list \<Rightarrow> 'k ordered_entry list \<Rightarrow> bool" where
  "picks idx popped chosen aside \<longleftrightarrow>
     subseq chosen popped \<and>
     mset (filter (\<lambda>e. hm_get idx (oe_hash e) \<noteq> None) popped) = mset chosen + mset aside"

abbreviation tx_of :: "(bytes, 'k mempool_tx) hashmap \<Rightarrow> 'k ordered_entry \<Rightarrow> 'k mempool_tx" where
  "tx_of idx e \<equiv> the (hm_get idx (oe_hash e))"

lemma picks_Nil [simp]: "picks idx [] [] []"
  by (simp add: picks_def)

lemma picks_stale: "hm_get idx (oe_hash e) = None \<Longrightarrow> picks idx popped ch as \<Longrightarrow> picks idx (e # popped) ch as"
  by (auto simp: picks_def)

lemma picks_chosen:
  "hm_get idx (oe_hash e) = Some tx \<Longrightarrow> picks idx popped ch as \<Longrightarrow> picks idx (e # popped) (e # ch) as"
  by (auto simp: picks_def)

lemma picks_aside:
  "hm_get idx (oe_hash e) = Some tx \<Longrightarrow> picks idx popped ch as \<Longrightarrow> picks idx (e # popped) ch (e # as)"
  by (auto simp: picks_def)

lemma picks_live:
  assumes "picks idx popped ch as" "e \<in> set ch \<union> set as"
  shows "e \<in> set popped \<and> (\<exists>tx. hm_get idx (oe_hash e) = Some tx)"
proof -
  from assms have "e \<in># mset (filter (\<lambda>e. hm_get idx (oe_hash e) \<noteq> None) popped)"
    by (auto simp: picks_def)
  then show ?thesis by auto
qed

lemma subseq_sorted_wrt: "subseq xs ys \<Longrightarrow> sorted_wrt R ys \<Longrightarrow> sorted_wrt R xs"
proof (induction rule: list_emb.induct)
  case (list_emb_Cons2 x y xs ys)
  then show ?case by (auto dest: list_emb_set)
qed auto

definition budget_result ::
    "u64 \<Rightarrow> nat \<Rightarrow> (bytes, 'k::linorder mempool_tx) hashmap \<Rightarrow> 'k ordered_entry list \<Rightarrow> 'k mempool_tx list \<Rightarrow> u64 \<Rightarrow>
       'k ordered_entry list \<Rightarrow> 'k mempool_tx list \<times> u64 \<times> 'k ordered_entry list \<times> 'k ordered_entry list \<Rightarrow> bool" where
  "budget_result max_gas max_txs idx heap sel used sk res \<longleftrightarrow>
     (case res of (sel', used', sk', heap') \<Rightarrow>
        \<exists>popped ch as. drains heap popped heap' \<and> picks idx popped ch as \<and>
          sel' = sel @ map (tx_of idx) ch \<and> sk' = sk @ as \<and>
          used' = foldl saturating_add used (map (\<lambda>e. mt_gas_limit (tx_of idx e)) ch) \<and> used \<le> used' \<and>
          (max_gas \<noteq> 0 \<longrightarrow> used \<le> max_gas \<longrightarrow> used' \<le> max_gas) \<and>
          (\<forall>e \<in> set as. max_gas \<noteq> 0 \<and> max_gas < saturating_add used' (mt_gas_limit (tx_of idx e))) \<and>
          (heap' = [] \<or> max_txs \<noteq> 0 \<and> max_txs \<le> length sel') \<and>
          (max_txs \<noteq> 0 \<longrightarrow> length sel \<le> max_txs \<longrightarrow> length sel' \<le> max_txs))"

lemma budget_result_stop:
  "heap = [] \<or> max_txs \<noteq> 0 \<and> max_txs \<le> length sel \<Longrightarrow>
     budget_result max_gas max_txs idx heap sel used sk (sel, used, sk, heap)"
  unfolding budget_result_def prod.case
  by (intro exI [of _ "[]"] conjI bh.drains.intros) auto

lemma budget_result_stale:
  assumes "heap_pop oe_key heap = Some (e, r)" "hm_get idx (oe_hash e) = None"
    and "budget_result max_gas max_txs idx r sel used sk res"
  shows "budget_result max_gas max_txs idx heap sel used sk res"
proof -
  obtain sel' used' sk' heap' where res: "res = (sel', used', sk', heap')" by (cases res)
  from assms(3) obtain popped ch as where "drains r popped heap'" "picks idx popped ch as"
    and rest: "budget_result max_gas max_txs idx r sel used sk res"
      "sel' = sel @ map (tx_of idx) ch" "sk' = sk @ as"
      "used' = foldl saturating_add used (map (\<lambda>e. mt_gas_limit (tx_of idx e)) ch)" "used \<le> used'"
      "max_gas \<noteq> 0 \<longrightarrow> used \<le> max_gas \<longrightarrow> used' \<le> max_gas"
      "\<forall>e \<in> set as. max_gas \<noteq> 0 \<and> max_gas < saturating_add used' (mt_gas_limit (tx_of idx e))"
      "heap' = [] \<or> max_txs \<noteq> 0 \<and> max_txs \<le> length sel'"
      "max_txs \<noteq> 0 \<longrightarrow> length sel \<le> max_txs \<longrightarrow> length sel' \<le> max_txs"
    unfolding budget_result_def res prod.case by blast
  then show ?thesis
    using assms(1,2) unfolding budget_result_def res prod.case
    by (intro exI [of _ "e # popped"] exI [of _ ch] exI [of _ as] conjI bh.drains.intros picks_stale)
qed

lemma budget_result_chosen:
  assumes "heap_pop oe_key heap = Some (e, r)" "hm_get idx (oe_hash e) = Some tx"
    and fits: "max_gas = 0 \<or> saturating_add used (mt_gas_limit tx) \<le> max_gas"
    and room: "max_txs = 0 \<or> length sel < max_txs"
    and "budget_result max_gas max_txs idx r (sel @ [tx]) (saturating_add used (mt_gas_limit tx)) sk res"
  shows "budget_result max_gas max_txs idx heap sel used sk res"
proof -
  obtain sel' used' sk' heap' where res: "res = (sel', used', sk', heap')" by (cases res)
  from assms(5) obtain popped ch as where "drains r popped heap'" "picks idx popped ch as"
    and rest: "sel' = (sel @ [tx]) @ map (tx_of idx) ch" "sk' = sk @ as"
      "used' = foldl saturating_add (saturating_add used (mt_gas_limit tx)) (map (\<lambda>e. mt_gas_limit (tx_of idx e)) ch)"
      "saturating_add used (mt_gas_limit tx) \<le> used'"
      "max_gas \<noteq> 0 \<longrightarrow> saturating_add used (mt_gas_limit tx) \<le> max_gas \<longrightarrow> used' \<le> max_gas"
      "\<forall>e \<in> set as. max_gas \<noteq> 0 \<and> max_gas < saturating_add used' (mt_gas_limit (tx_of idx e))"
      "heap' = [] \<or> max_txs \<noteq> 0 \<and> max_txs \<le> length sel'"
      "max_txs \<noteq> 0 \<longrightarrow> length (sel @ [tx]) \<le> max_txs \<longrightarrow> length sel' \<le> max_txs"
    unfolding budget_result_def res prod.case by blast
  moreover have "used \<le> used'" using saturating_add_ge [of used "mt_gas_limit tx"] rest(4) by (rule order_trans)
  moreover have "sel' = sel @ map (tx_of idx) (e # ch)" using rest(1) assms(2) by simp
  moreover have "used' = foldl saturating_add used (map (\<lambda>e. mt_gas_limit (tx_of idx e)) (e # ch))"
    using rest(3) assms(2) by simp
  moreover have "max_gas \<noteq> 0 \<longrightarrow> used \<le> max_gas \<longrightarrow> used' \<le> max_gas" using rest(5) fits by blast
  moreover have "max_txs \<noteq> 0 \<longrightarrow> length sel \<le> max_txs \<longrightarrow> length sel' \<le> max_txs" using rest(8) room by auto
  ultimately show ?thesis
    using assms(1,2) unfolding budget_result_def res prod.case
    by (intro exI [of _ "e # popped"] exI [of _ "e # ch"] exI [of _ as] conjI bh.drains.intros picks_chosen)
qed

lemma budget_result_aside:
  assumes "heap_pop oe_key heap = Some (e, r)" "hm_get idx (oe_hash e) = Some tx"
    and big: "\<not> (max_gas = 0 \<or> saturating_add used (mt_gas_limit tx) \<le> max_gas)"
    and "budget_result max_gas max_txs idx r sel used (sk @ [e]) res"
  shows "budget_result max_gas max_txs idx heap sel used sk res"
proof -
  obtain sel' used' sk' heap' where res: "res = (sel', used', sk', heap')" by (cases res)
  from assms(4) obtain popped ch as where "drains r popped heap'" "picks idx popped ch as"
    and rest: "sel' = sel @ map (tx_of idx) ch" "sk' = (sk @ [e]) @ as"
      "used' = foldl saturating_add used (map (\<lambda>e. mt_gas_limit (tx_of idx e)) ch)" "used \<le> used'"
      "max_gas \<noteq> 0 \<longrightarrow> used \<le> max_gas \<longrightarrow> used' \<le> max_gas"
      "\<forall>e \<in> set as. max_gas \<noteq> 0 \<and> max_gas < saturating_add used' (mt_gas_limit (tx_of idx e))"
      "heap' = [] \<or> max_txs \<noteq> 0 \<and> max_txs \<le> length sel'"
      "max_txs \<noteq> 0 \<longrightarrow> length sel \<le> max_txs \<longrightarrow> length sel' \<le> max_txs"
    unfolding budget_result_def res prod.case by blast
  moreover have "max_gas < saturating_add used' (mt_gas_limit tx)"
    using big saturating_add_mono [OF rest(4) order_refl [of "mt_gas_limit tx"]] by auto
  with rest(6) big assms(2) have "\<forall>e \<in> set (e # as). max_gas \<noteq> 0 \<and> max_gas < saturating_add used' (mt_gas_limit (tx_of idx e))"
    by simp
  moreover have "sk' = sk @ e # as" using rest(2) by simp
  ultimately show ?thesis
    using assms(1,2) unfolding budget_result_def res prod.case
    by (intro exI [of _ "e # popped"] exI [of _ ch] exI [of _ "e # as"] conjI bh.drains.intros picks_aside)
qed

lemma budget_loop_spec:
  "budget_result max_gas max_txs idx heap sel used sk (budget_loop max_gas max_txs idx heap sel used sk)"
proof (induction max_gas max_txs idx heap sel used sk rule: budget_loop.induct)
  case (1 max_gas max_txs idx heap sel used sk)
  show ?case
  proof (cases "(max_txs = 0 \<or> length sel < max_txs) \<and> heap \<noteq> []")
    case False
    then show ?thesis
      by (subst budget_loop.simps) (auto intro!: budget_result_stop)
  next
    case True
    then obtain e r where pop: "heap_pop oe_key heap = Some (e, r)"
      using heap_pop_None [of oe_key heap] by (metis not_None_eq prod.exhaust)
    have room: "max_txs = 0 \<or> length sel < max_txs" using True by simp
    show ?thesis
    proof (cases "hm_get idx (oe_hash e)")
      case None
      with pop room "1.IH"(1) [OF room pop refl None] show ?thesis
        by (subst budget_loop.simps) (simp add: budget_result_stale [OF pop None])
    next
      case (Some tx)
      show ?thesis
      proof (cases "max_gas = 0 \<or> saturating_add used (mt_gas_limit tx) \<le> max_gas")
        case fits: True
        with pop room Some "1.IH"(2) [OF room pop refl Some refl fits] show ?thesis
          by (subst budget_loop.simps) (simp add: budget_result_chosen [OF pop Some fits room] Let_def)
      next
        case big: False
        with pop room Some "1.IH"(3) [OF room pop refl Some refl big] show ?thesis
          by (subst budget_loop.simps) (simp add: budget_result_aside [OF pop Some big] Let_def)
      qed
    qed
  qed
qed

section \<open>The sender index\<close>

definition sender_hashes :: "'k mempool \<Rightarrow> sender_key \<Rightarrow> bytes set" where
  "sender_hashes p s = {h. \<exists>tx. hm_get (by_hash p) h = Some tx \<and> mt_sender_key tx = Some s}"

definition sender_entry_ok :: "'k mempool \<Rightarrow> sender_key \<Rightarrow> bool" where
  "sender_entry_ok p s \<longleftrightarrow>
     (case hm_get (by_sender p) s of
        None \<Rightarrow> hm_get (by_sender_seq p) s = None \<and> sender_hashes p s = {}
      | Some m \<Rightarrow> m \<noteq> [] \<and> sorted_wrt (<) (map fst m) \<and> distinct (map snd m) \<and>
          set (map snd m) = sender_hashes p s \<and>
          (\<exists>n. hm_get (by_sender_seq p) s = Some n \<and> (\<forall>k \<in> set (map fst m). k < n)))"

definition pool_wf :: "'k::linorder mempool \<Rightarrow> bool" where
  "pool_wf p \<longleftrightarrow> hm_wf (by_hash p) \<and> (\<forall>h tx. hm_get (by_hash p) h = Some tx \<longrightarrow> mt_id tx = h) \<and>
     heap_inv oe_key (by_priority p) \<and> (\<forall>s. sender_entry_ok p s)"

lemma sender_hashes_other [simp]:
  "sender_hashes (p\<lparr>by_priority := q\<rparr>) = sender_hashes p" "sender_hashes (p\<lparr>in_flight := f\<rparr>) = sender_hashes p"
  "sender_hashes (p\<lparr>by_sender := b\<rparr>) = sender_hashes p" "sender_hashes (p\<lparr>by_sender_seq := c\<rparr>) = sender_hashes p"
  by (auto simp: sender_hashes_def)

lemma sender_entry_ok_other [simp]:
  "sender_entry_ok (p\<lparr>by_priority := q\<rparr>) = sender_entry_ok p" "sender_entry_ok (p\<lparr>in_flight := f\<rparr>) = sender_entry_ok p"
  by (auto simp: sender_entry_ok_def fun_eq_iff split: option.splits)

lemma pool_wf_new: "pool_wf mempool_new" and pool_wf_clear: "pool_wf (mempool_clear p)"
  by (auto simp: pool_wf_def mempool_new_def mempool_clear_def sender_entry_ok_def sender_hashes_def heap_inv_def)

lemma pool_wf_in_flight [simp]: "pool_wf (p\<lparr>in_flight := f\<rparr>) = pool_wf p"
  by (simp add: pool_wf_def)

lemma pool_wf_priority: "pool_wf p \<Longrightarrow> heap_inv oe_key q \<Longrightarrow> pool_wf (p\<lparr>by_priority := q\<rparr>)"
  by (simp add: pool_wf_def)

lemma btree_insert_last:
  "\<forall>k' \<in> set (map fst m). k' < k \<Longrightarrow> btree_insert k v m = m @ [(k, v)]"
proof -
  assume "\<forall>k' \<in> set (map fst m). k' < k"
  then have "\<forall>(k', v') \<in> set m. k' < k" by auto
  then have "filter (\<lambda>(k', _). k' < k) m = m" "filter (\<lambda>(k', _). k < k') m = []"
    by (auto simp: filter_id_conv filter_empty_conv)
  then show ?thesis by (simp add: btree_insert_def)
qed

text \<open>Adding a transaction appends it to its sender's list.\<close>

lemma sender_entry_ok_append:
  fixes p :: "'k mempool"
  assumes ok: "sender_entry_ok p s" and fresh: "hm_get (by_hash p) h = None"
    and seq: "checked_add (case hm_get (by_sender_seq p) s of None \<Rightarrow> 0 | Some n \<Rightarrow> n) 1 = Some n"
    and tx: "mt_sender_key tx = Some s"
    and p': "by_hash p' = hm_insert h tx (by_hash p)" "by_sender_seq p' = hm_insert s n (by_sender_seq p)"
      "by_sender p' = hm_insert s (btree_insert (case hm_get (by_sender_seq p) s of None \<Rightarrow> 0 | Some n \<Rightarrow> n) h
         (case hm_get (by_sender p) s of None \<Rightarrow> [] | Some m \<Rightarrow> m)) (by_sender p)"
  shows "sender_entry_ok p' s"
proof -
  define cur where "cur = (case hm_get (by_sender_seq p) s of None \<Rightarrow> 0 | Some n \<Rightarrow> n)"
  define m where "m = (case hm_get (by_sender p) s of None \<Rightarrow> [] | Some m \<Rightarrow> m)"
  have hashes: "sender_hashes p' s = insert h (sender_hashes p s)"
    using fresh tx p'(1) by (auto simp: sender_hashes_def)
  have m: "sorted_wrt (<) (map fst m)" "distinct (map snd m)" "set (map snd m) = sender_hashes p s"
    "\<forall>k \<in> set (map fst m). k < cur"
    using ok by (auto simp: sender_entry_ok_def m_def cur_def split: option.splits)
  then have ins: "btree_insert cur h m = m @ [(cur, h)]" by (intro btree_insert_last)
  have "h \<notin> set (map snd m)" using m(3) fresh by (auto simp: sender_hashes_def)
  moreover have "cur < n" using seq checked_add_Some [of cur 1 n] by (simp add: cur_def word_less_nat_alt)
  then have "\<forall>k \<in> set (map fst (m @ [(cur, h)])). k < n" using m(4) by (auto intro: less_trans)
  ultimately show ?thesis
    using m p'(2,3) hashes ins unfolding sender_entry_ok_def
    by (auto simp: m_def [symmetric] cur_def [symmetric] sorted_wrt_append)
qed

lemma sender_entry_ok_elsewhere:
  assumes "sender_entry_ok p s" "hm_get (by_sender p') s = hm_get (by_sender p) s"
    "hm_get (by_sender_seq p') s = hm_get (by_sender_seq p) s" "sender_hashes p' s = sender_hashes p s"
  shows "sender_entry_ok p' s"
  using assms by (simp add: sender_entry_ok_def split: option.splits)

lemma mempool_add_Ok:
  assumes "mempool_add tx p = (Ok h, p')"
  shows "h = mt_id tx" "hm_get (by_hash p) h = None" "by_hash p' = hm_insert h tx (by_hash p)" "in_flight p' = in_flight p"
    "by_priority p' = heap_push oe_key \<lparr>oe_hash = h, oe_key = mt_ordering_key tx\<rparr> (by_priority p)"
    "mt_sender_key tx = None \<Longrightarrow> by_sender p' = by_sender p \<and> by_sender_seq p' = by_sender_seq p"
    "mt_sender_key tx = Some s \<Longrightarrow> \<exists>n.
       checked_add (case hm_get (by_sender_seq p) s of None \<Rightarrow> 0 | Some n \<Rightarrow> n) 1 = Some n \<and>
       by_sender_seq p' = hm_insert s n (by_sender_seq p) \<and>
       by_sender p' = hm_insert s (btree_insert (case hm_get (by_sender_seq p) s of None \<Rightarrow> 0 | Some n \<Rightarrow> n) h
         (case hm_get (by_sender p) s of None \<Rightarrow> [] | Some m \<Rightarrow> m)) (by_sender p)"
  using assms
  by (auto simp: mempool_add_def Let_def andThen_def next_sender_sequence_def split: option.splits if_splits)

lemma pool_wf_add:
  assumes wf: "pool_wf p" and add: "mempool_add tx p = (Ok h, p')"
  shows "pool_wf p'"
proof -
  note shape = mempool_add_Ok [OF add]
  have "sender_entry_ok p' s" for s
  proof (cases "mt_sender_key tx = Some s")
    case True
    from shape(7) [OF this] obtain n where n: "checked_add (case hm_get (by_sender_seq p) s of None \<Rightarrow> 0 | Some n \<Rightarrow> n) 1 = Some n"
      "by_sender_seq p' = hm_insert s n (by_sender_seq p)"
      "by_sender p' = hm_insert s (btree_insert (case hm_get (by_sender_seq p) s of None \<Rightarrow> 0 | Some n \<Rightarrow> n) h
         (case hm_get (by_sender p) s of None \<Rightarrow> [] | Some m \<Rightarrow> m)) (by_sender p)" by blast
    have "sender_entry_ok p s" using wf by (simp add: pool_wf_def)
    then show ?thesis by (rule sender_entry_ok_append [OF _ shape(2) n(1) True shape(3) n(2,3)])
  next
    case False
    have "sender_hashes p' s = sender_hashes p s"
      using False shape(2,3) by (auto simp: sender_hashes_def)
    moreover have "hm_get (by_sender p') s = hm_get (by_sender p) s \<and> hm_get (by_sender_seq p') s = hm_get (by_sender_seq p) s"
    proof (cases "mt_sender_key tx")
      case None
      with shape(6) show ?thesis by simp
    next
      case (Some s')
      from shape(7) [OF this] Some False show ?thesis by auto
    qed
    moreover have "sender_entry_ok p s" using wf by (simp add: pool_wf_def)
    ultimately show ?thesis by (metis sender_entry_ok_elsewhere)
  qed
  with wf shape(1-5) show ?thesis by (auto simp: pool_wf_def heap_inv_push)
qed

lemma mempool_remove_shape:
  "by_hash (snd (mempool_remove hash p)) = hm_remove hash (by_hash p)"
  "by_priority (snd (mempool_remove hash p)) = by_priority p" "in_flight (snd (mempool_remove hash p)) = in_flight p"
  "fst (mempool_remove hash p) = hm_get (by_hash p) hash"
  by (auto simp: mempool_remove_def Let_def hm_remove_fresh split: option.splits)

lemma sorted_wrt_map_filter: "sorted_wrt R (map f xs) \<Longrightarrow> sorted_wrt R (map f (filter P xs))"
  by (induction xs) auto

lemma sender_entry_ok_filtered:
  assumes ok: "sender_entry_ok p s" and m: "hm_get (by_sender p) s = Some m"
    and hashes: "sender_hashes p' s = sender_hashes p s - {hash}"
    and p': "let m' = filter (\<lambda>(_, h). h \<noteq> hash) m in
      if m' = [] then hm_get (by_sender p') s = None \<and> hm_get (by_sender_seq p') s = None
      else hm_get (by_sender p') s = Some m' \<and> hm_get (by_sender_seq p') s = hm_get (by_sender_seq p) s"
  shows "sender_entry_ok p' s"
proof -
  let ?m = "filter (\<lambda>(_, h). h \<noteq> hash) m"
  from ok m have m_ok: "sorted_wrt (<) (map fst m)" "distinct (map snd m)" "set (map snd m) = sender_hashes p s"
    "\<exists>n. hm_get (by_sender_seq p) s = Some n \<and> (\<forall>k \<in> set (map fst m). k < n)"
    by (simp_all add: sender_entry_ok_def)
  have "set (map snd ?m) = set (map snd m) - {hash}" by force
  then have set: "set (map snd ?m) = sender_hashes p' s" using m_ok(3) hashes by simp
  show ?thesis
  proof (cases "?m = []")
    case True
    with set have "sender_hashes p' s = {}" by simp
    with True p' show ?thesis by (simp add: sender_entry_ok_def)
  next
    case False
    with p' have "hm_get (by_sender p') s = Some ?m" "hm_get (by_sender_seq p') s = hm_get (by_sender_seq p) s"
      by simp_all
    moreover have "\<exists>n. hm_get (by_sender_seq p) s = Some n \<and> (\<forall>k \<in> set (map fst ?m). k < n)" using m_ok(4) by fastforce
    ultimately show ?thesis
      using False set sorted_wrt_map_filter [OF m_ok(1)] distinct_map_filter [OF m_ok(2)]
      unfolding sender_entry_ok_def by simp
  qed
qed

lemma pool_wf_remove:
  assumes wf: "pool_wf p"
  shows "pool_wf (snd (mempool_remove hash p))"
proof (cases "hm_get (by_hash p) hash")
  case None
  with wf show ?thesis by (simp add: mempool_remove_def)
next
  case (Some tx)
  let ?p = "snd (mempool_remove hash p)"
  have hashes: "sender_hashes ?p s = sender_hashes p s - {hash}" for s
    by (auto simp: sender_hashes_def mempool_remove_shape)
  have "sender_entry_ok ?p s" for s
  proof (cases "mt_sender_key tx = Some s")
    case True
    from wf have ok: "sender_entry_ok p s" by (simp add: pool_wf_def)
    moreover have "hash \<in> sender_hashes p s" using Some True by (auto simp: sender_hashes_def)
    ultimately obtain m where m: "hm_get (by_sender p) s = Some m" by (auto simp: sender_entry_ok_def split: option.splits)
    show ?thesis
      by (rule sender_entry_ok_filtered [OF ok m hashes])
        (use Some True m in \<open>simp add: mempool_remove_def Let_def\<close>)
  next
    case False
    then have "hash \<notin> sender_hashes p s" using Some by (auto simp: sender_hashes_def)
    then have "sender_hashes ?p s = sender_hashes p s" using hashes by simp
    moreover have "hm_get (by_sender ?p) s = hm_get (by_sender p) s \<and> hm_get (by_sender_seq ?p) s = hm_get (by_sender_seq p) s"
      using Some False by (auto simp: mempool_remove_def Let_def split: option.splits)
    moreover have "sender_entry_ok p s" using wf by (simp add: pool_wf_def)
    ultimately show ?thesis by (metis sender_entry_ok_elsewhere)
  qed
  with wf show ?thesis by (auto simp: pool_wf_def mempool_remove_shape split: if_splits)
qed

end
