(* ===== verification/Mempool_Clean.thy ===== *)
theory Mempool_Clean
  imports Mempool_Props
begin

text \<open>
  The contract of \<open>MempoolOps\<close>, and pools whose queue and in-flight set share out the pending
  transactions: every operation keeps them, and a proposal takes the best the queue has.
\<close>

section \<open>Every operation keeps the indexes\<close>

lemma mset_fold_push: "mset (fold (heap_push key) es q) = mset es + mset q"
  by (induction es arbitrary: q) (simp_all add: mset_heap_push)

lemma heap_inv_fold_push: "heap_inv key q \<Longrightarrow> heap_inv key (fold (heap_push key) es q)"
  by (induction es arbitrary: q) (simp_all add: heap_inv_push)

lemma remove_many_shape:
  "hm_get (by_hash (mempool_remove_many hs p)) h = (if h \<in> set hs then None else hm_get (by_hash p) h)"
  "by_priority (mempool_remove_many hs p) = by_priority p" "in_flight (mempool_remove_many hs p) = in_flight p"
  by (induction hs arbitrary: p) (auto simp: mempool_remove_many_def mempool_remove_shape)

lemma pool_wf_remove_many: "pool_wf p \<Longrightarrow> pool_wf (mempool_remove_many hs p)"
  by (induction hs arbitrary: p) (simp_all add: mempool_remove_many_def pool_wf_remove)

lemma return_in_flight_fold:
  "mset (fold (return_in_flight idx) fl q) =
     mset (map (\<lambda>h. \<lparr>oe_hash = h, oe_key = mt_ordering_key (the (hm_get idx h))\<rparr>) (filter (\<lambda>h. hm_get idx h \<noteq> None) fl)) + mset q"
  "heap_inv oe_key q \<Longrightarrow> heap_inv oe_key (fold (return_in_flight idx) fl q)"
  by (induction fl arbitrary: q) (auto simp: return_in_flight_def mset_heap_push heap_inv_push split: option.splits)

lemma select_loop_drains:
  "\<exists>popped. drains heap popped (snd (select_loop limit idx heap sel))"
proof (induction limit idx heap sel rule: select_loop.induct)
  case (1 limit idx heap sel)
  show ?case
  proof (cases "length sel < limit \<and> heap \<noteq> []")
    case False
    then show ?thesis by (subst select_loop.simps) (auto intro: bh.drains.intros)
  next
    case True
    then obtain e r where pop: "heap_pop oe_key heap = Some (e, r)"
      using heap_pop_None [of oe_key heap] by (metis not_None_eq prod.exhaust)
    have room: "length sel < limit" using True by simp
    show ?thesis
    proof (cases "hm_get idx (oe_hash e)")
      case None
      from "1.IH"(1) [OF room pop refl None] obtain popped where "drains r popped (snd (select_loop limit idx r sel))" ..
      with bh.drains_Cons [OF pop] None room pop show ?thesis by (subst select_loop.simps) auto
    next
      case (Some tx)
      from "1.IH"(2) [OF room pop refl Some] obtain popped where "drains r popped (snd (select_loop limit idx r (sel @ [tx])))" ..
      with bh.drains_Cons [OF pop] Some room pop show ?thesis by (subst select_loop.simps) auto
    qed
  qed
qed

lemma propose_shape:
  fixes p :: "'a::linorder mempool"
  assumes "propose max_gas max_txs p = ((sel, gas), p')"
  obtains popped ch as rest where "drains (by_priority p) popped rest" "picks (by_hash p) popped ch as"
    "sel = map (tx_of (by_hash p)) ch" "mset (by_priority p') = mset as + mset rest"
    "heap_inv oe_key (by_priority p) \<Longrightarrow> heap_inv oe_key (by_priority p')"
    "p' = p\<lparr>by_priority := by_priority p', in_flight := fold (\<lambda>tx. hs_insert (mt_id tx)) sel (in_flight p)\<rparr>"
    "by_hash p' = by_hash p" "in_flight p' = fold (\<lambda>tx. hs_insert (mt_id tx)) sel (in_flight p)"
    "gas = foldl saturating_add 0 (map mt_gas_limit sel)" "max_gas \<noteq> 0 \<Longrightarrow> gas \<le> max_gas"
    "\<And>e. e \<in> set as \<Longrightarrow> max_gas \<noteq> 0 \<and> max_gas < saturating_add gas (mt_gas_limit (tx_of (by_hash p) e))"
    "rest = [] \<or> max_txs \<noteq> 0 \<and> max_txs \<le> length sel" "max_txs \<noteq> 0 \<Longrightarrow> length sel \<le> max_txs"
proof -
  obtain sel' gas' sk rest where run: "budget_loop max_gas max_txs (by_hash p) (by_priority p) [] 0 [] = (sel', gas', sk, rest)"
    by (metis prod.exhaust)
  from budget_loop_spec [of max_gas max_txs "by_hash p" "by_priority p" "[]" 0 "[]"]
  obtain popped ch as where spec: "drains (by_priority p) popped rest" "picks (by_hash p) popped ch as"
    "sel' = map (tx_of (by_hash p)) ch" "sk = as"
    "gas' = foldl saturating_add 0 (map (\<lambda>e. mt_gas_limit (tx_of (by_hash p) e)) ch)"
    "max_gas \<noteq> 0 \<longrightarrow> 0 \<le> max_gas \<longrightarrow> gas' \<le> max_gas"
    "\<forall>e \<in> set as. max_gas \<noteq> 0 \<and> max_gas < saturating_add gas' (mt_gas_limit (tx_of (by_hash p) e))"
    "rest = [] \<or> max_txs \<noteq> 0 \<and> max_txs \<le> length sel'"
    "max_txs \<noteq> 0 \<longrightarrow> length ([] :: 'a mempool_tx list) \<le> max_txs \<longrightarrow> length sel' \<le> max_txs"
    unfolding budget_result_def run prod.case append_Nil by blast
  have p': "sel = sel'" "gas = gas'" "by_priority p' = fold (heap_push oe_key) sk rest"
    "p' = p\<lparr>by_priority := by_priority p', in_flight := fold (\<lambda>tx. hs_insert (mt_id tx)) sel (in_flight p)\<rparr>"
    using assms run by (auto simp: propose_def select_with_gas_budget_def Let_def)
  show ?thesis
  proof (rule that [of popped rest ch as])
    show "mset (by_priority p') = mset as + mset rest" by (simp add: p'(3) spec(4) mset_fold_push)
    show "heap_inv oe_key (by_priority p')" if "heap_inv oe_key (by_priority p)"
      using bh.drains_invar [OF spec(1) that] by (simp add: p'(3) heap_inv_fold_push)
    show "gas = foldl saturating_add 0 (map mt_gas_limit sel)" by (simp add: p'(1,2) spec(3,5) comp_def)
    show "p' = p\<lparr>by_priority := by_priority p', in_flight := fold (\<lambda>tx. hs_insert (mt_id tx)) sel (in_flight p)\<rparr>"
      by (rule p'(4))
    show "by_hash p' = by_hash p" "in_flight p' = fold (\<lambda>tx. hs_insert (mt_id tx)) sel (in_flight p)"
      by (subst p'(4), simp)+
  qed (use spec p'(1,2) in simp_all)
qed

section \<open>Sequences of operations\<close>

datatype 'k pool_op =
  OpAdd "'k mempool_tx"
| OpRemove bytes
| OpRemoveMany "bytes list"
| OpSelect nat
| OpSelectBudget u64 nat
| OpPropose u64 nat
| OpFinalize "bytes list"
| OpClear

text \<open>\<open>None\<close> when the operation panics.\<close>

fun pool_step :: "'k::linorder pool_op \<Rightarrow> 'k mempool \<Rightarrow> 'k mempool option" where
  "pool_step (OpAdd tx) p = (case mempool_add tx p of (Ok _, p') \<Rightarrow> Some p' | (Err _, p') \<Rightarrow> Some p' | _ \<Rightarrow> None)"
| "pool_step (OpRemove h) p = Some (snd (mempool_remove h p))"
| "pool_step (OpRemoveMany hs) p = Some (mempool_remove_many hs p)"
| "pool_step (OpSelect n) p = Some (snd (mempool_select n p))"
| "pool_step (OpSelectBudget g n) p = Some (snd (select_with_gas_budget g n p))"
| "pool_step (OpPropose g n) p = Some (snd (propose g n p))"
| "pool_step (OpFinalize hs) p = Some (finalize hs p)"
| "pool_step OpClear p = Some (mempool_clear p)"

fun pool_run :: "'k::linorder pool_op list \<Rightarrow> 'k mempool \<Rightarrow> 'k mempool option" where
  "pool_run [] p = Some p"
| "pool_run (op # ops) p = (case pool_step op p of None \<Rightarrow> None | Some p' \<Rightarrow> pool_run ops p')"

lemma pool_wf_select: "pool_wf p \<Longrightarrow> pool_wf (snd (mempool_select n p))"
  using select_loop_drains [of "by_priority p" n "by_hash p" "[]"]
  by (auto simp: mempool_select_def pool_wf_def split: prod.splits intro: bh.drains_invar)

lemma select_budget_propose:
  "\<exists>f. snd (select_with_gas_budget g n p) = (snd (propose g n p))\<lparr>in_flight := f\<rparr>"
  by (auto simp: propose_def select_with_gas_budget_def Let_def split: prod.splits
      intro!: exI [of _ "in_flight p"])

lemma pool_wf_propose: "pool_wf p \<Longrightarrow> pool_wf (snd (propose g n p))"
proof -
  assume wf: "pool_wf p"
  obtain sel gas p' where run: "propose g n p = ((sel, gas), p')" by (metis prod.exhaust)
  then obtain q f where p': "p' = p\<lparr>by_priority := q, in_flight := f\<rparr>" "heap_inv oe_key (by_priority p) \<Longrightarrow> heap_inv oe_key q"
    by (rule propose_shape) metis
  with wf run show ?thesis by (simp add: pool_wf_def)
qed

lemma pool_wf_finalize: "pool_wf p \<Longrightarrow> pool_wf (finalize hs p)"
  using pool_wf_remove_many [of p hs]
  by (simp add: finalize_def Let_def pool_wf_def return_in_flight_fold)

lemma mempool_add_Err: "mempool_add tx p = (Err e, p') \<Longrightarrow> p' = p \<and> e = AlreadyExists"
  by (auto simp: mempool_add_def Let_def andThen_def next_sender_sequence_def split: option.splits if_splits)

lemma pool_wf_step: "pool_wf p \<Longrightarrow> pool_step op p = Some p' \<Longrightarrow> pool_wf p'"
proof (induction op p rule: pool_step.induct)
  case (1 tx p)
  then show ?case by (auto split: prod.splits outcome.splits dest: mempool_add_Err pool_wf_add)
next
  case (5 g n p)
  then show ?case using select_budget_propose [of g n p] pool_wf_propose [of p g n] by auto
qed (auto simp: pool_wf_remove pool_wf_remove_many pool_wf_select pool_wf_propose pool_wf_finalize pool_wf_clear)

lemma pool_wf_run: "pool_wf p \<Longrightarrow> pool_run ops p = Some p' \<Longrightarrow> pool_wf p'"
  by (induction ops arbitrary: p) (auto split: option.splits dest: pool_wf_step)

section \<open>The contract of a pool\<close>

text \<open>What the callers of \<open>MempoolOps\<close> rely on: a map from identifiers to transactions.\<close>

locale tx_pool =
  fixes add :: "'t \<Rightarrow> 'p \<Rightarrow> ('e, 'h) outcome \<times> 'p" and remove :: "'h \<Rightarrow> 'p \<Rightarrow> 't option \<times> 'p"
    and lookup :: "'h \<Rightarrow> 'p \<Rightarrow> 't option" and ident :: "'t \<Rightarrow> 'h" and duplicate :: 'e
  assumes add_new: "add t p = (Ok h, p') \<Longrightarrow> h = ident t \<and> lookup h p = None \<and>
      (\<forall>k. lookup k p' = (if k = h then Some t else lookup k p))"
    and add_dup: "add t p = (Err e, p') \<Longrightarrow> e = duplicate \<and> p' = p \<and> lookup (ident t) p \<noteq> None"
    and remove_lookup: "remove h p = (r, p') \<Longrightarrow> r = lookup h p \<and> (\<forall>k. lookup k p' = (if k = h then None else lookup k p))"
begin

lemma add_remove: "add t p = (Ok h, p') \<Longrightarrow> \<exists>p''. remove h p' = (Some t, p'') \<and> (\<forall>k. lookup k p'' = lookup k p)"
  using add_new [of t p h p'] remove_lookup [of h p'] by (cases "remove h p'") fastforce

lemma add_twice: "add t p = (Ok h, p') \<Longrightarrow> fst (add t p') \<noteq> Ok h'"
  using add_new [of t p h p'] add_new [of t p' h'] by (metis option.distinct(1) prod.collapse)

end

interpretation mp: tx_pool mempool_add mempool_remove mempool_get mt_id AlreadyExists
proof
  show "h = mt_id t \<and> mempool_get h p = None \<and> (\<forall>k. mempool_get k p' = (if k = h then Some t else mempool_get k p))"
    if "mempool_add t p = (Ok h, p')" for t :: "'a::linorder mempool_tx" and p h p'
    using mempool_add_Ok(1-3) [OF that] by (auto simp: mempool_get_def)
  show "e = AlreadyExists \<and> p' = p \<and> mempool_get (mt_id t) p \<noteq> None"
    if "mempool_add t p = (Err e, p')" for t :: "'a::linorder mempool_tx" and p e p'
    using mempool_add_Err [OF that] that
    by (auto simp: mempool_get_def mempool_add_def Let_def andThen_def next_sender_sequence_def split: option.splits if_splits)
  show "r = mempool_get h p \<and> (\<forall>k. mempool_get k p' = (if k = h then None else mempool_get k p))"
    if "mempool_remove h p = (r, p')" for h and p :: "'a mempool" and r p'
    using mempool_remove_shape [of h p] that by (auto simp: mempool_get_def)
qed

section \<open>Proposals\<close>

definition unique_mset :: "'a multiset \<Rightarrow> bool" where
  "unique_mset M \<longleftrightarrow> (\<forall>x. count M x \<le> 1)"

lemma unique_mset_add [simp]: "unique_mset (add_mset x M) \<longleftrightarrow> x \<notin># M \<and> unique_mset M"
proof
  assume u: "unique_mset (add_mset x M)"
  then have "count (add_mset x M) x \<le> 1" by (simp add: unique_mset_def del: count_add_mset)
  moreover have "count M y \<le> 1" for y
    using u by (metis count_add_mset Suc_leD unique_mset_def)
  ultimately show "x \<notin># M \<and> unique_mset M" by (simp add: unique_mset_def not_in_iff)
qed (auto simp: unique_mset_def not_in_iff)

lemma unique_mset_empty [simp]: "unique_mset {#}"
  by (simp add: unique_mset_def)

lemma unique_mset_mset [simp]: "unique_mset (mset xs) \<longleftrightarrow> distinct xs"
  by (induction xs) simp_all

lemma unique_mset_union: "unique_mset (A + B) \<Longrightarrow> unique_mset A \<and> unique_mset B"
  unfolding unique_mset_def by (metis add_leD1 add_leD2 count_union)

lemma unique_mset_disjoint: "unique_mset (A + B) \<Longrightarrow> x \<in># A \<Longrightarrow> x \<notin># B"
proof -
  assume "unique_mset (A + B)" "x \<in># A"
  then have "count A x + count B x \<le> 1" "1 \<le> count A x" by (simp_all add: unique_mset_def del: One_nat_def)
  then have "count B x = 0" by linarith
  then show ?thesis by (simp only: not_in_iff)
qed

text \<open>The queue and the in-flight set share out the pending transactions: every entry once, with its
  transaction's own key.\<close>

definition pool_clean :: "'k::linorder mempool \<Rightarrow> bool" where
  "pool_clean p \<longleftrightarrow> pool_wf p \<and>
     unique_mset (image_mset oe_hash (mset (by_priority p)) + mset (in_flight p)) \<and>
     (\<forall>e \<in> set (by_priority p). \<forall>tx. hm_get (by_hash p) (oe_hash e) = Some tx \<longrightarrow> oe_key e = mt_ordering_key tx) \<and>
     (\<forall>h. hm_get (by_hash p) h \<noteq> None \<longrightarrow> h \<in> oe_hash ` set (by_priority p) \<union> set (in_flight p))"

text \<open>The pools reached when no transaction comes back whose removal left an entry behind.\<close>

inductive pool_reach :: "'k::linorder mempool \<Rightarrow> bool" where
  reach_new: "pool_reach mempool_new"
| reach_add: "pool_reach p \<Longrightarrow> mempool_add tx p = (Ok h, p') \<Longrightarrow>
    h \<notin> oe_hash ` set (by_priority p) \<union> set (in_flight p) \<Longrightarrow> pool_reach p'"
| reach_remove: "pool_reach p \<Longrightarrow> pool_reach (snd (mempool_remove h p))"
| reach_propose: "pool_reach p \<Longrightarrow> pool_reach (snd (propose max_gas max_txs p))"
| reach_finalize: "pool_reach p \<Longrightarrow> pool_reach (finalize executed p)"

lemma clean_add:
  assumes "pool_clean p" "mempool_add tx p = (Ok h, p')" "h \<notin> oe_hash ` set (by_priority p) \<union> set (in_flight p)"
  shows "pool_clean p'"
proof -
  note shape = mempool_add_Ok [OF assms(2)]
  have q: "mset (by_priority p') = add_mset \<lparr>oe_hash = h, oe_key = mt_ordering_key tx\<rparr> (mset (by_priority p))"
    by (simp add: shape(5) mset_heap_push)
  then have set: "set (by_priority p') = insert \<lparr>oe_hash = h, oe_key = mt_ordering_key tx\<rparr> (set (by_priority p))"
    by (metis set_mset_add_mset_insert set_mset_mset)
  have "pool_wf p'" using assms(1) pool_wf_add [OF _ assms(2)] by (simp add: pool_clean_def)
  moreover have "unique_mset (image_mset oe_hash (mset (by_priority p')) + mset (in_flight p'))"
    using assms(1,3) by (auto simp: q shape(4) pool_clean_def)
  ultimately show ?thesis
    using assms(1,3) unfolding pool_clean_def set shape(3,4) by auto
qed

lemma clean_remove: "pool_clean p \<Longrightarrow> pool_clean (snd (mempool_remove h p))"
  using pool_wf_remove [of p h] by (auto simp: pool_clean_def mempool_remove_shape)

lemma mset_fold_hs_insert:
  "unique_mset (image_mset f (mset xs) + mset ys) \<Longrightarrow>
     mset (fold (\<lambda>x. hs_insert (f x)) xs ys) = image_mset f (mset xs) + mset ys"
proof (induction xs arbitrary: ys)
  case (Cons x xs)
  then have "f x \<notin> set ys" by auto
  then have ins: "hs_insert (f x) ys = ys @ [f x]" by (simp add: hs_insert_def)
  with Cons.prems have "unique_mset (image_mset f (mset xs) + mset (hs_insert (f x) ys))" by simp
  from Cons.IH [OF this] ins show ?case by simp
qed simp

lemma clean_propose_parts:
  assumes "pool_clean p" "drains (by_priority p) popped rest" "picks (by_hash p) popped ch as"
  obtains stale where "mset (by_priority p) = mset ch + mset as + mset rest + stale"
    "\<And>e. e \<in> set ch \<Longrightarrow> \<exists>tx. hm_get (by_hash p) (oe_hash e) = Some tx \<and> mt_id tx = oe_hash e \<and> mt_ordering_key tx = oe_key e"
    "\<And>e. e \<in># stale \<Longrightarrow> hm_get (by_hash p) (oe_hash e) = None"
proof -
  let ?live = "\<lambda>e. hm_get (by_hash p) (oe_hash e) \<noteq> None"
  have pops: "mset (by_priority p) = mset popped + mset rest" by (rule bh.drains_contents [OF assms(2)])
  have live: "filter_mset ?live (mset popped) = mset ch + mset as"
    using assms(3) by (simp add: picks_def)
  have "mset popped = mset ch + mset as + filter_mset (\<lambda>e. \<not> ?live e) (mset popped)"
    unfolding live [symmetric] by (rule multiset_partition)
  with pops have "mset (by_priority p) = mset ch + mset as + mset rest + filter_mset (\<lambda>e. \<not> ?live e) (mset popped)"
    by (metis (no_types, lifting) union_commute union_assoc)
  moreover have "\<exists>tx. hm_get (by_hash p) (oe_hash e) = Some tx \<and> mt_id tx = oe_hash e \<and> mt_ordering_key tx = oe_key e"
    if "e \<in> set ch" for e
  proof -
    from picks_live [OF assms(3), of e] that obtain tx where tx: "hm_get (by_hash p) (oe_hash e) = Some tx" and "e \<in> set popped"
      by auto
    then have "e \<in> set (by_priority p)" using pops by (metis set_mset_mset UnI1 set_mset_union)
    with tx assms(1) show ?thesis unfolding pool_clean_def pool_wf_def by metis
  qed
  ultimately show ?thesis by (intro that [of "filter_mset (\<lambda>e. \<not> ?live e) (mset popped)"]) auto
qed

lemma clean_propose:
  assumes clean: "pool_clean p" and run: "propose max_gas max_txs p = ((sel, gas), p')"
  shows "pool_clean p' \<and> mset (in_flight p') = mset (map mt_id sel) + mset (in_flight p)"
proof -
  from run obtain popped ch as rest where d: "drains (by_priority p) popped rest" "picks (by_hash p) popped ch as"
    and sel: "sel = map (tx_of (by_hash p)) ch" and q: "mset (by_priority p') = mset as + mset rest"
    and p': "by_hash p' = by_hash p" "in_flight p' = fold (\<lambda>tx. hs_insert (mt_id tx)) sel (in_flight p)"
    by (rule propose_shape)
  from clean_propose_parts [OF clean d] obtain stale where
    parts: "mset (by_priority p) = mset ch + mset as + mset rest + stale"
    and ch: "\<And>e. e \<in> set ch \<Longrightarrow> \<exists>tx. hm_get (by_hash p) (oe_hash e) = Some tx \<and> mt_id tx = oe_hash e \<and> mt_ordering_key tx = oe_key e"
    and stale: "\<And>e. e \<in># stale \<Longrightarrow> hm_get (by_hash p) (oe_hash e) = None" by metis
  have ids: "map mt_id sel = map oe_hash ch" using ch unfolding sel by fastforce
  have "unique_mset (image_mset oe_hash (mset as + mset rest) + (image_mset oe_hash (mset ch) + mset (in_flight p))
      + image_mset oe_hash stale)"
    using clean unfolding pool_clean_def parts by (simp add: ac_simps)
  then have u: "unique_mset (image_mset oe_hash (mset as + mset rest) + (image_mset oe_hash (mset ch) + mset (in_flight p)))"
    using unique_mset_union by blast
  then have "unique_mset (image_mset mt_id (mset sel) + mset (in_flight p))"
    using unique_mset_union ids by (metis mset_map)
  then have fl: "mset (in_flight p') = mset (map mt_id sel) + mset (in_flight p)"
    unfolding p'(2) by (simp add: mset_fold_hs_insert)
  then have fl_set: "set (in_flight p') = oe_hash ` set ch \<union> set (in_flight p)"
    unfolding ids by (metis list.set_map set_mset_mset set_mset_union)
  have q_set: "set (by_priority p') = set as \<union> set rest" using q by (metis set_mset_mset set_mset_union)
  have p_set: "set (by_priority p) = set ch \<union> set as \<union> set rest \<union> set_mset stale"
    using parts by (metis set_mset_mset set_mset_union)
  have "unique_mset (image_mset oe_hash (mset (by_priority p')) + mset (in_flight p'))"
    using u by (simp add: q fl ids)
  moreover have "pool_wf p'" using pool_wf_propose [of p max_gas max_txs] clean run by (simp add: pool_clean_def)
  moreover have "h \<in> oe_hash ` set (by_priority p') \<union> set (in_flight p')" if "hm_get (by_hash p) h \<noteq> None" for h
  proof -
    from that clean have "h \<in> oe_hash ` set (by_priority p) \<union> set (in_flight p)" by (simp add: pool_clean_def)
    with that stale show ?thesis unfolding p_set q_set fl_set by auto
  qed
  ultimately show ?thesis
    using clean fl unfolding pool_clean_def p'(1) p_set q_set by auto
qed

lemma clean_finalize:
  assumes clean: "pool_clean p"
  shows "pool_clean (finalize executed p)"
proof -
  define idx where "idx = by_hash (mempool_remove_many executed p)"
  define fl where "fl = filter (\<lambda>h. hm_get idx h \<noteq> None) (filter (\<lambda>h. h \<notin> set executed) (in_flight p))"
  define entry where "entry = (\<lambda>h. \<lparr>oe_hash = h, oe_key = mt_ordering_key (the (hm_get idx h))\<rparr>)"
  have idx: "hm_get idx h = (if h \<in> set executed then None else hm_get (by_hash p) h)" for h
    by (simp add: idx_def remove_many_shape)
  have shape: "by_hash (finalize executed p) = idx" "in_flight (finalize executed p) = []"
    "by_priority (finalize executed p) =
      fold (return_in_flight idx) (filter (\<lambda>h. h \<notin> set executed) (in_flight p)) (by_priority p)"
    by (simp_all add: finalize_def Let_def idx_def remove_many_shape(2,3))
  have q: "mset (by_priority (finalize executed p)) = mset (map entry fl) + mset (by_priority p)"
    unfolding shape(3) return_in_flight_fold(1) fl_def entry_def by (rule refl)
  have q_set: "set (by_priority (finalize executed p)) = entry ` set fl \<union> set (by_priority p)"
    using arg_cong [OF q, of set_mset] by simp
  have hashes: "image_mset oe_hash (mset (map entry fl)) = mset fl"
    by (simp add: image_mset.compositionality comp_def entry_def)
  have "mset fl \<subseteq># mset (in_flight p)" by (simp add: fl_def)
  then obtain X where "mset (in_flight p) = mset fl + X" by (metis subset_mset.le_iff_add)
  then have "unique_mset ((mset fl + image_mset oe_hash (mset (by_priority p))) + X)"
    using clean by (simp add: pool_clean_def ac_simps)
  then have "unique_mset (mset fl + image_mset oe_hash (mset (by_priority p)))" using unique_mset_union by blast
  then have u: "unique_mset (image_mset oe_hash (mset (by_priority (finalize executed p))) + mset (in_flight (finalize executed p)))"
    using hashes by (simp add: q shape(2))
  have "oe_key e = mt_ordering_key tx"
    if "e \<in> entry ` set fl \<union> set (by_priority p)" "hm_get idx (oe_hash e) = Some tx" for e tx
    using that clean by (auto simp: idx pool_clean_def entry_def split: if_splits)
  moreover have "h \<in> oe_hash ` (entry ` set fl \<union> set (by_priority p))" if "hm_get idx h \<noteq> None" for h
  proof -
    from that clean have "h \<in> oe_hash ` set (by_priority p) \<union> set (in_flight p)"
      by (auto simp: idx pool_clean_def split: if_splits)
    moreover have "h = oe_hash (entry h)" by (simp add: entry_def)
    moreover have "h \<in> set fl" if "h \<in> set (in_flight p)"
      using \<open>hm_get idx h \<noteq> None\<close> that by (auto simp: fl_def idx split: if_splits)
    ultimately show ?thesis by blast
  qed
  ultimately show ?thesis
    using u pool_wf_finalize [of p executed] clean unfolding pool_clean_def shape(1,2) q_set by auto
qed

lemma clean_reach: "pool_reach p \<Longrightarrow> pool_clean p"
proof (induction rule: pool_reach.induct)
  case reach_new
  show ?case using pool_wf_new by (simp add: pool_clean_def) (simp add: mempool_new_def)
next
  case (reach_propose p max_gas max_txs)
  then show ?case using clean_propose [of p max_gas max_txs] by (metis prod.collapse)
qed (auto intro: clean_add clean_remove clean_finalize)

lemma propose_greedy:
  assumes "pool_reach p" and "propose max_gas max_txs p = ((sel, gas), p')"
  shows "sorted_wrt (\<lambda>a b. mt_ordering_key b \<le> mt_ordering_key a) sel \<and> distinct (map mt_id sel) \<and>
    (\<forall>tx \<in> set sel. mempool_get (mt_id tx) p = Some tx \<and> mt_id tx \<notin> set (in_flight p)) \<and>
    gas = foldl saturating_add 0 (map mt_gas_limit sel) \<and> (max_gas \<noteq> 0 \<longrightarrow> gas \<le> max_gas) \<and>
    (max_txs \<noteq> 0 \<longrightarrow> length sel \<le> max_txs) \<and>
    (\<forall>tx. mempool_get (mt_id tx) p = Some tx \<longrightarrow> mt_id tx \<notin> set (in_flight p) \<longrightarrow> tx \<notin> set sel \<longrightarrow>
       max_txs \<noteq> 0 \<and> length sel = max_txs \<or> max_gas \<noteq> 0 \<and> max_gas < saturating_add gas (mt_gas_limit tx))"
proof -
  have clean: "pool_clean p" using assms(1) by (rule clean_reach)
  from assms(2) obtain popped ch as rest where d: "drains (by_priority p) popped rest" "picks (by_hash p) popped ch as"
    and sel: "sel = map (tx_of (by_hash p)) ch"
    and gas: "gas = foldl saturating_add 0 (map mt_gas_limit sel)" "max_gas \<noteq> 0 \<Longrightarrow> gas \<le> max_gas"
    and aside: "\<And>e. e \<in> set as \<Longrightarrow> max_gas \<noteq> 0 \<and> max_gas < saturating_add gas (mt_gas_limit (tx_of (by_hash p) e))"
    and num: "rest = [] \<or> max_txs \<noteq> 0 \<and> max_txs \<le> length sel" "max_txs \<noteq> 0 \<Longrightarrow> length sel \<le> max_txs"
    by (rule propose_shape) blast
  from clean_propose_parts [OF clean d] obtain stale where
    parts: "mset (by_priority p) = mset ch + mset as + mset rest + stale"
    and ch: "\<And>e. e \<in> set ch \<Longrightarrow> \<exists>tx. hm_get (by_hash p) (oe_hash e) = Some tx \<and> mt_id tx = oe_hash e \<and> mt_ordering_key tx = oe_key e"
    and stale: "\<And>e. e \<in># stale \<Longrightarrow> hm_get (by_hash p) (oe_hash e) = None" by metis
  have p_set: "set (by_priority p) = set ch \<union> set as \<union> set rest \<union> set_mset stale"
    using arg_cong [OF parts, of set_mset] by simp
  have key: "mt_ordering_key (tx_of (by_hash p) e) = oe_key e" if "e \<in> set ch" for e
    using ch [OF that] by (metis option.sel)
  have "heap_inv oe_key (by_priority p)" using clean by (simp add: pool_clean_def pool_wf_def)
  then have "sorted_wrt (\<lambda>a b. oe_key b \<le> oe_key a) ch"
    using bh.drains_sorted [OF d(1)] d(2) subseq_sorted_wrt by (auto simp: picks_def)
  then have sorted: "sorted_wrt (\<lambda>a b. mt_ordering_key b \<le> mt_ordering_key a) sel"
    unfolding sel sorted_wrt_map by (rule sorted_wrt_mono_rel [rotated]) (simp add: key)
  have fl: "unique_mset (mset (map mt_id sel) + mset (in_flight p))"
    using clean_propose [OF clean assms(2)] unique_mset_union unfolding pool_clean_def by metis
  have chosen: "mempool_get (mt_id tx) p = Some tx \<and> mt_id tx \<notin> set (in_flight p)" if "tx \<in> set sel" for tx
  proof -
    have "mt_id tx \<in># mset (map mt_id sel)" using that by simp
    then have "mt_id tx \<notin> set (in_flight p)" using unique_mset_disjoint [OF fl] by fastforce
    with that ch show ?thesis unfolding sel by (fastforce simp: mempool_get_def)
  qed
  have left: "max_txs \<noteq> 0 \<and> length sel = max_txs \<or> max_gas \<noteq> 0 \<and> max_gas < saturating_add gas (mt_gas_limit tx)"
    if "mempool_get (mt_id tx) p = Some tx" "mt_id tx \<notin> set (in_flight p)" "tx \<notin> set sel" for tx
  proof -
    from that(1,2) clean obtain e where e: "e \<in> set (by_priority p)" "oe_hash e = mt_id tx"
      by (auto simp: mempool_get_def pool_clean_def)
    then have tx: "tx_of (by_hash p) e = tx" using that(1) by (simp add: mempool_get_def)
    then have "e \<notin> set ch" using that(3) by (auto simp: sel)
    moreover have "e \<notin># stale" using stale [of e] e(2) that(1) by (auto simp: mempool_get_def)
    ultimately have "e \<in> set as \<or> e \<in> set rest" using e(1) p_set by blast
    then show ?thesis using aside tx num by fastforce
  qed
  show ?thesis
    using sorted unique_mset_union [OF fl] chosen gas num(2) left by (auto simp del: mset_map)
qed

lemma finalize_get:
  "mempool_get h (finalize executed p) = (if h \<in> set executed then None else mempool_get h p)"
  "in_flight (finalize executed p) = []"
  by (simp_all add: mempool_get_def finalize_def Let_def remove_many_shape)

end
