(* ===== verification/Mempool_Queue.thy ===== *)
theory Mempool_Queue
  imports Mempool_Clean
begin

text \<open>
  What a proposal takes from the queue, as a function of the pending transactions in priority order;
  and that no sequence of operations loses track of a pending transaction.
\<close>

section \<open>The greedy choice\<close>

text \<open>What a proposal takes of transactions in a given order: each one that still fits the gas left by those taken
  before it, until the count is reached. A limit of 0 is none.\<close>

fun greedy :: "u64 \<Rightarrow> nat \<Rightarrow> u64 \<Rightarrow> nat \<Rightarrow> 'k mempool_tx list \<Rightarrow> 'k mempool_tx list" where
  "greedy max_gas max_txs used taken [] = []"
| "greedy max_gas max_txs used taken (tx # txs) =
     (if max_txs \<noteq> 0 \<and> max_txs \<le> taken then []
      else if max_gas \<noteq> 0 \<and> max_gas < saturating_add used (mt_gas_limit tx) then greedy max_gas max_txs used taken txs
      else tx # greedy max_gas max_txs (saturating_add used (mt_gas_limit tx)) (Suc taken) txs)"

lemma greedy_full: "max_txs \<noteq> 0 \<Longrightarrow> max_txs \<le> taken \<Longrightarrow> greedy max_gas max_txs used taken txs = []"
  by (cases txs) simp_all

lemma drains_all: "\<exists>popped. drains heap popped []"
proof (induction heap rule: measure_induct_rule [of length])
  case (less heap)
  show ?case
  proof (cases "heap_pop oe_key heap")
    case None
    then show ?thesis using bh.drains.intros by auto
  next
    case (Some er)
    then obtain e r where pop: "heap_pop oe_key heap = Some (e, r)" by (cases er) auto
    from less [OF heap_pop_length [OF pop]] obtain popped where "drains r popped []" ..
    with bh.drains_Cons [OF pop] show ?thesis by blast
  qed
qed

abbreviation live_txs :: "(bytes, 'k mempool_tx) hashmap \<Rightarrow> 'k ordered_entry list \<Rightarrow> 'k mempool_tx list" where
  "live_txs idx es \<equiv> map (tx_of idx) (filter (\<lambda>e. hm_get idx (oe_hash e) \<noteq> None) es)"

lemma budget_loop_greedy:
  "drains heap popped [] \<Longrightarrow>
     fst (budget_loop max_gas max_txs idx heap sel used sk) = sel @ greedy max_gas max_txs used (length sel) (live_txs idx popped)"
proof (induction max_gas max_txs idx heap sel used sk arbitrary: popped rule: budget_loop.induct)
  case (1 max_gas max_txs idx heap sel used sk)
  show ?case
  proof (cases "max_txs = 0 \<or> length sel < max_txs")
    case False
    then show ?thesis by (subst budget_loop.simps) (simp add: greedy_full)
  next
    case room: True
    show ?thesis
    proof (cases "heap_pop oe_key heap")
      case None
      then have "popped = []" using "1.prems" by (auto elim: bh.drains.cases)
      with None show ?thesis by (subst budget_loop.simps) simp
    next
      case (Some er)
      then obtain e r where pop: "heap_pop oe_key heap = Some (e, r)" by (cases er) auto
      with "1.prems" obtain popped' where p: "popped = e # popped'" "drains r popped' []"
        by (auto elim: bh.drains.cases)
      note IH = "1.IH" [OF room pop refl]
      show ?thesis
      proof (cases "hm_get idx (oe_hash e)")
        case None
        with pop room p IH(1) [OF None p(2)] show ?thesis by (subst budget_loop.simps) simp
      next
        case (Some tx)
        show ?thesis
        proof (cases "max_gas = 0 \<or> saturating_add used (mt_gas_limit tx) \<le> max_gas")
          case fits: True
          with pop room p Some IH(2) [OF Some refl fits p(2)] show ?thesis
            by (subst budget_loop.simps) (auto simp: Let_def not_less)
        next
          case big: False
          with pop room p Some IH(3) [OF Some refl big p(2)] show ?thesis
            by (subst budget_loop.simps) (auto simp: Let_def not_le)
        qed
      qed
    qed
  qed
qed

lemma clean_queue:
  assumes clean: "pool_clean p" and d: "drains (by_priority p) popped []"
  defines "queue \<equiv> live_txs (by_hash p) popped"
  shows "sorted_wrt (\<lambda>a b. mt_ordering_key b \<le> mt_ordering_key a) queue" "distinct (map mt_id queue)"
    "set queue = {tx. mempool_get (mt_id tx) p = Some tx \<and> mt_id tx \<notin> set (in_flight p)}"
proof -
  let ?live = "filter (\<lambda>e. hm_get (by_hash p) (oe_hash e) \<noteq> None) popped"
  have m: "mset popped = mset (by_priority p)" using bh.drains_contents [OF d] by simp
  then have s: "set popped = set (by_priority p)" by (metis set_mset_mset)
  have tx: "\<exists>t. hm_get (by_hash p) (oe_hash e) = Some t" "mt_id (tx_of (by_hash p) e) = oe_hash e"
      "mt_ordering_key (tx_of (by_hash p) e) = oe_key e" if "e \<in> set ?live" for e
    using that clean s unfolding pool_clean_def pool_wf_def by auto
  have u: "unique_mset (image_mset oe_hash (mset popped) + mset (in_flight p))" using clean m by (simp add: pool_clean_def)
  have "heap_inv oe_key (by_priority p)" using clean by (simp add: pool_clean_def pool_wf_def)
  from conjunct1 [OF bh.drains_sorted [OF d this]] have "sorted_wrt (\<lambda>a b. oe_key b \<le> oe_key a) ?live"
    by (rule sorted_wrt_filter)
  then show "sorted_wrt (\<lambda>a b. mt_ordering_key b \<le> mt_ordering_key a) queue"
    unfolding queue_def sorted_wrt_map by (rule sorted_wrt_mono_rel [rotated]) (simp only: tx(3))
  have ids: "map mt_id queue = map oe_hash ?live" unfolding queue_def using tx(2) by simp
  have "unique_mset (mset (map oe_hash popped))" using unique_mset_union [OF u] unfolding mset_map ..
  then have "distinct (map oe_hash popped)" by (simp only: unique_mset_mset)
  then show "distinct (map mt_id queue)" unfolding ids by (rule distinct_map_filter)
  show "set queue = {tx. mempool_get (mt_id tx) p = Some tx \<and> mt_id tx \<notin> set (in_flight p)}"
  proof (intro equalityI subsetI CollectI conjI)
    fix t assume "t \<in> set queue"
    then obtain e where e: "e \<in> set ?live" "t = tx_of (by_hash p) e" unfolding queue_def set_map by blast
    with tx(1,2) [OF e(1)] show "mempool_get (mt_id t) p = Some t" by (auto simp: mempool_get_def)
    have "oe_hash e \<in># image_mset oe_hash (mset popped)" using e(1) by auto
    from unique_mset_disjoint [OF u this] tx(2) [OF e(1)] e(2) show "mt_id t \<notin> set (in_flight p)" by simp
  next
    fix t assume t: "t \<in> {tx. mempool_get (mt_id tx) p = Some tx \<and> mt_id tx \<notin> set (in_flight p)}"
    then have "hm_get (by_hash p) (mt_id t) \<noteq> None" "mt_id t \<notin> set (in_flight p)" by (simp_all add: mempool_get_def)
    with clean have "mt_id t \<in> oe_hash ` set popped" unfolding pool_clean_def s by blast
    then obtain e where e: "e \<in> set popped" "oe_hash e = mt_id t" by auto
    with t have "e \<in> set ?live" "tx_of (by_hash p) e = t" by (simp_all add: mempool_get_def)
    then show "t \<in> set queue" unfolding queue_def set_map by blast
  qed
qed

lemma propose_takes:
  assumes "pool_reach p" and "propose max_gas max_txs p = ((sel, gas), p')"
  shows "\<exists>queue. set queue = {tx. mempool_get (mt_id tx) p = Some tx \<and> mt_id tx \<notin> set (in_flight p)} \<and>
    distinct (map mt_id queue) \<and> sorted_wrt (\<lambda>a b. mt_ordering_key b \<le> mt_ordering_key a) queue \<and>
    sel = greedy max_gas max_txs 0 0 queue"
proof -
  obtain popped where d: "drains (by_priority p) popped []" using drains_all by blast
  have "sel = fst (budget_loop max_gas max_txs (by_hash p) (by_priority p) [] 0 [])"
    using assms(2) by (auto simp: propose_def select_with_gas_budget_def split: prod.splits)
  with budget_loop_greedy [OF d, of max_gas max_txs "by_hash p" "[]" 0 "[]"]
  have "sel = greedy max_gas max_txs 0 0 (live_txs (by_hash p) popped)" by simp
  with clean_queue [OF clean_reach [OF assms(1)] d] show ?thesis by blast
qed

section \<open>Nothing is lost\<close>

definition queued_or_flying :: "'k::linorder mempool \<Rightarrow> bool" where
  "queued_or_flying p \<longleftrightarrow> pool_wf p \<and>
     (\<forall>h. mempool_contains h p \<longrightarrow> h \<in> oe_hash ` set (by_priority p) \<union> set (in_flight p))"

text \<open>The operations that take a transaction from the queue without putting it in flight.\<close>

fun keeps_track :: "'k pool_op \<Rightarrow> bool" where
  "keeps_track (OpSelect _) = False"
| "keeps_track (OpSelectBudget _ _) = False"
| "keeps_track _ = True"

lemma set_fold_hs_insert: "set (fold (\<lambda>x. hs_insert (f x)) xs ys) = f ` set xs \<union> set ys"
  by (induction xs arbitrary: ys) (auto simp: hs_insert_def)

lemma queued_propose:
  assumes "queued_or_flying p" shows "queued_or_flying (snd (propose g n p))"
proof -
  obtain sel gas p' where run: "propose g n p = ((sel, gas), p')" by (metis prod.exhaust)
  then obtain popped ch as rest where d: "drains (by_priority p) popped rest" "picks (by_hash p) popped ch as"
    and sel: "sel = map (tx_of (by_hash p)) ch" and q: "mset (by_priority p') = mset as + mset rest"
    and p': "by_hash p' = by_hash p" "in_flight p' = fold (\<lambda>tx. hs_insert (mt_id tx)) sel (in_flight p)"
    by (rule propose_shape)
  have q': "set (by_priority p') = set as \<union> set rest" using arg_cong [OF q, of set_mset] by simp
  have s: "set (by_priority p) = set popped \<union> set rest"
    using arg_cong [OF bh.drains_contents [OF d(1)], of set_mset] by simp
  have live: "{e \<in> set popped. hm_get (by_hash p) (oe_hash e) \<noteq> None} = set ch \<union> set as"
    using arg_cong [OF d(2) [unfolded picks_def, THEN conjunct2], of set_mset] by auto
  have ids: "mt_id (tx_of (by_hash p) e) = oe_hash e" if "e \<in> set ch" for e
  proof -
    from picks_live [OF d(2), of e] that obtain tx where "hm_get (by_hash p) (oe_hash e) = Some tx" by auto
    with assms show ?thesis unfolding queued_or_flying_def pool_wf_def by auto
  qed
  have "h \<in> oe_hash ` set (by_priority p') \<union> set (in_flight p')" if h: "mempool_contains h p" for h
  proof -
    from h assms consider e where "e \<in> set popped" "h = oe_hash e" | e where "e \<in> set rest" "h = oe_hash e" | "h \<in> set (in_flight p)"
      by (auto simp: queued_or_flying_def s)
    then show ?thesis
    proof cases
      case 1
      with h live have "e \<in> set ch \<union> set as" by (auto simp: mempool_contains_def)
      with 1 ids show ?thesis by (auto simp: p'(2) set_fold_hs_insert sel q' image_image)
    qed (auto simp: p'(2) set_fold_hs_insert q')
  qed
  moreover have "pool_wf p'" using pool_wf_propose [of p g n] assms run by (simp add: queued_or_flying_def)
  ultimately show ?thesis using run by (simp add: queued_or_flying_def mempool_contains_def p'(1))
qed

lemma queued_finalize:
  assumes "queued_or_flying p" shows "queued_or_flying (finalize hs p)"
proof -
  let ?p = "mempool_remove_many hs p" and ?fl = "filter (\<lambda>h. h \<notin> set hs) (in_flight p)"
  have f: "by_hash (finalize hs p) = by_hash ?p" "in_flight (finalize hs p) = []"
    "by_priority (finalize hs p) = fold (return_in_flight (by_hash ?p)) ?fl (by_priority p)"
    by (simp_all add: finalize_def Let_def remove_many_shape)
  have s: "set (by_priority (finalize hs p)) =
      (\<lambda>h. \<lparr>oe_hash = h, oe_key = mt_ordering_key (the (hm_get (by_hash ?p) h))\<rparr>) ` set (filter (\<lambda>h. hm_get (by_hash ?p) h \<noteq> None) ?fl) \<union>
      set (by_priority p)"
    using arg_cong [OF return_in_flight_fold(1) [of "by_hash ?p" ?fl "by_priority p"], of set_mset] by (simp add: f(3))
  have "h \<in> oe_hash ` set (by_priority (finalize hs p))" if h: "hm_get (by_hash ?p) h \<noteq> None" for h
  proof -
    from h have "h \<notin> set hs" "mempool_contains h p" by (auto simp: remove_many_shape mempool_contains_def split: if_splits)
    with assms have "h \<in> oe_hash ` set (by_priority p) \<or> h \<in> set ?fl" by (auto simp: queued_or_flying_def)
    with h show ?thesis unfolding s by (auto simp: image_Un image_image)
  qed
  with pool_wf_finalize [of p hs] assms show ?thesis by (simp add: queued_or_flying_def mempool_contains_def f)
qed

lemma queued_step:
  assumes "queued_or_flying p" "keeps_track op" "pool_step op p = Some p'"
  shows "queued_or_flying p'"
proof -
  have wf: "pool_wf p'" using assms by (auto simp: queued_or_flying_def intro: pool_wf_step)
  show ?thesis
  proof (cases op)
    case (OpAdd tx)
    with assms(3) consider h where "mempool_add tx p = (Ok h, p')" | "p' = p"
      by (auto split: prod.splits outcome.splits dest: mempool_add_Err)
    then show ?thesis
    proof cases
      case 1
      note shape = mempool_add_Ok [OF 1]
      have "set (by_priority p') = insert \<lparr>oe_hash = h, oe_key = mt_ordering_key tx\<rparr> (set (by_priority p))"
        using arg_cong [OF mset_heap_push [of oe_key "\<lparr>oe_hash = h, oe_key = mt_ordering_key tx\<rparr>" "by_priority p"], of set_mset]
        by (simp add: shape(5))
      with assms(1) wf show ?thesis by (auto simp: queued_or_flying_def mempool_contains_def shape(3,4) split: if_splits)
    qed (use assms(1) in simp)
  next
    case (OpPropose g n)
    with assms queued_propose show ?thesis by auto
  next
    case (OpFinalize hs)
    with assms queued_finalize show ?thesis by auto
  next
    case OpClear
    with assms(3) wf show ?thesis by (auto simp: queued_or_flying_def mempool_contains_def mempool_clear_def)
  next
    case (OpRemove h)
    with assms(3) have "p' = snd (mempool_remove h p)" by simp
    with assms(1) wf show ?thesis
      by (simp add: queued_or_flying_def mempool_contains_def mempool_remove_shape)
  next
    case (OpRemoveMany hs)
    with assms(3) have "p' = mempool_remove_many hs p" by simp
    with assms(1) wf show ?thesis
      by (simp add: queued_or_flying_def mempool_contains_def remove_many_shape)
  qed (use assms(2) in simp_all)
qed

lemma queued_run: "queued_or_flying p \<Longrightarrow> list_all keeps_track ops \<Longrightarrow> pool_run ops p = Some p' \<Longrightarrow> queued_or_flying p'"
  by (induction ops arbitrary: p) (auto split: option.splits dest: queued_step)

lemma queued_new: "queued_or_flying mempool_new"
  using pool_wf_new by (simp add: queued_or_flying_def) (simp add: mempool_contains_def mempool_new_def)

text \<open>No transaction is added while an entry for it is still queued or in flight.\<close>

fun fresh_adds :: "'k::linorder pool_op list \<Rightarrow> 'k mempool \<Rightarrow> bool" where
  "fresh_adds [] p = True"
| "fresh_adds (op # ops) p =
     ((case op of
         OpAdd tx \<Rightarrow> mempool_contains (mt_id tx) p \<or> mt_id tx \<notin> oe_hash ` set (by_priority p) \<union> set (in_flight p)
       | _ \<Rightarrow> True) \<and>
      (case pool_step op p of None \<Rightarrow> True | Some p' \<Rightarrow> fresh_adds ops p'))"

lemma clean_clear: "pool_clean (mempool_clear p)"
  using pool_wf_clear [of p] by (simp add: pool_clean_def) (simp add: mempool_clear_def)

lemma clean_remove_many: "pool_clean p \<Longrightarrow> pool_clean (mempool_remove_many hs p)"
  by (induction hs arbitrary: p) (simp_all add: mempool_remove_many_def clean_remove)

lemma clean_step:
  assumes "pool_clean p" "keeps_track op" "fresh_adds [op] p" "pool_step op p = Some p'"
  shows "pool_clean p'"
proof (cases op)
  case (OpAdd tx)
  with assms(4) consider h where "mempool_add tx p = (Ok h, p')" | "p' = p"
    by (auto split: prod.splits outcome.splits dest: mempool_add_Err)
  then show ?thesis
  proof cases
    case 1
    with assms(3) OpAdd mempool_add_Ok(1,2) [OF 1] have "h \<notin> oe_hash ` set (by_priority p) \<union> set (in_flight p)"
      by (auto simp: mempool_contains_def)
    with clean_add [OF assms(1) 1] show ?thesis .
  qed (use assms(1) in simp)
next
  case (OpPropose g n)
  with assms clean_propose [of p g n] show ?thesis by (metis option.inject pool_step.simps(6) prod.collapse)
qed (use assms clean_remove clean_remove_many clean_finalize clean_clear in auto)

lemma clean_run:
  "pool_clean p \<Longrightarrow> list_all keeps_track ops \<Longrightarrow> fresh_adds ops p \<Longrightarrow> pool_run ops p = Some p' \<Longrightarrow> pool_clean p'"
proof (induction ops arbitrary: p)
  case (Cons op ops)
  then obtain p1 where "pool_step op p = Some p1" "pool_run ops p1 = Some p'" by (auto split: option.splits)
  moreover with Cons.prems have "fresh_adds [op] p" "fresh_adds ops p1" by simp_all
  ultimately show ?case using Cons.IH [of p1] clean_step [of p op p1] Cons.prems by simp
qed simp

lemma clean_new: "pool_clean mempool_new"
  using clean_reach [OF reach_new] .

lemma clean_once:
  assumes clean: "pool_clean p" and "mempool_contains h p"
  shows "count (mset (map oe_hash (by_priority p))) h + count (mset (in_flight p)) h = 1"
proof -
  from assms have "h \<in># mset (map oe_hash (by_priority p)) + mset (in_flight p)"
    by (auto simp: mempool_contains_def pool_clean_def)
  moreover have "count (mset (map oe_hash (by_priority p)) + mset (in_flight p)) h \<le> 1"
    using clean by (simp add: pool_clean_def unique_mset_def)
  moreover have "0 < count (mset (map oe_hash (by_priority p)) + mset (in_flight p)) h"
    using calculation(1) by (simp only: count_greater_zero_iff)
  ultimately show ?thesis by (simp only: count_union)
qed

end
