(* ===== verification/Mempool_Theorems.thy ===== *)
theory Mempool_Theorems
  imports Mempool_Queue
begin

text \<open>
  The properties of the transaction pool: the exactness of the sender index, what a proposal contains, and that proposing and finalizing neither lose nor duplicate a
  transaction. A transaction added again after its removal breaks the last of these.
\<close>

section \<open>The sender index\<close>

text \<open>C27. After any sequence of operations on a new pool that does not panic, the sender index is exact: the
  hashes listed for a sender are those of the pending transactions of that sender, each once, and
  every pending transaction is stored under its own hash.\<close>

theorem sender_index_exact:
  assumes "pool_run ops mempool_new = Some p"
  shows "distinct (get_sender_txs s p) \<and>
    set (get_sender_txs s p) = {h. \<exists>tx. mempool_get h p = Some tx \<and> mt_sender_key tx = Some s} \<and>
    (mempool_get h p = Some tx \<longrightarrow> mt_id tx = h)"
proof -
  from pool_wf_run [OF pool_wf_new assms] have "sender_entry_ok p s" and "mempool_get h p = Some tx \<longrightarrow> mt_id tx = h"
    by (simp_all add: pool_wf_def mempool_get_def)
  then show ?thesis
    by (auto simp: sender_entry_ok_def get_sender_txs_def sender_hashes_def mempool_get_def split: option.splits)
qed

section \<open>Proposals\<close>

text \<open>C28. A proposal is the greedy choice. Let the pending transactions that are not in flight be listed in
  descending priority (transactions of equal priority in some order). The proposal is what one takes
  going down that list: each transaction exactly when it fits the gas left by those taken before it,
  until the count is reached; a limit of 0 is none. Its gas is the saturating sum of its
  transactions' gas limits. The pool is one in which no transaction was added while an entry for it
  was still queued or in flight (\<open>pool_reach\<close>).\<close>

theorem proposal_is_greedy:
  assumes "pool_reach p" and "propose max_gas max_txs p = ((sel, gas), p')"
  shows "\<exists>queue. set queue = {tx. mempool_get (mt_id tx) p = Some tx \<and> mt_id tx \<notin> set (in_flight p)} \<and>
    distinct (map mt_id queue) \<and> sorted_wrt (\<lambda>a b. mt_ordering_key b \<le> mt_ordering_key a) queue \<and>
    sel = greedy max_gas max_txs 0 0 queue \<and> gas = foldl saturating_add 0 (map mt_gas_limit sel)"
  using propose_takes [OF assms] propose_greedy [OF assms] by blast

definition example_pool_tx :: "u8 \<Rightarrow> u128 \<Rightarrow> u64 \<Rightarrow> gas_price_ordering mempool_tx" where
  "example_pool_tx i price gas = \<lparr>mt_id = [i], mt_ordering_key = GasPriceOrdering price 0,
     mt_sender_key = None, mt_gas_limit = gas\<rparr>"

definition example_entry :: "u8 \<Rightarrow> u128 \<Rightarrow> gas_price_ordering ordered_entry" where
  "example_entry i price = \<lparr>oe_hash = [i], oe_key = GasPriceOrdering price 0\<rparr>"

definition example_pool :: "gas_price_ordering mempool" where
  "example_pool = \<lparr>by_hash = [([1], example_pool_tx 1 50 30000), ([2], example_pool_tx 2 100 21000)],
     by_priority = [example_entry 2 100, example_entry 1 50], by_sender = [], by_sender_seq = [], in_flight = []\<rparr>"

lemmas pool_eval =
  mempool_add_def mempool_new_def heap_push_def sift_up.simps sift_down_to_bottom.simps heap_pop_def swap_def
  parent_def less_eq_gas_price_ordering_iff example_pool_tx_def example_entry_def Let_def

lemma example_pool_reach: "pool_reach example_pool"
proof -
  let ?a = "example_pool_tx 1 50 30000" and ?b = "example_pool_tx 2 100 21000"
  let ?p = "snd (mempool_add ?a mempool_new)"
  have p: "?p = \<lparr>by_hash = [([1], ?a)], by_priority = [example_entry 1 50], by_sender = [], by_sender_seq = [], in_flight = []\<rparr>"
    by (simp add: pool_eval)
  have a: "mempool_add ?a mempool_new = (Ok [1], ?p)" by (simp add: pool_eval)
  have b: "mempool_add ?b ?p = (Ok [2], example_pool)" unfolding p by (simp add: pool_eval example_pool_def)
  have "pool_reach ?p" by (rule reach_add [OF reach_new a]) (simp add: mempool_new_def)
  from reach_add [OF this b] show ?thesis unfolding p by (simp add: example_entry_def)
qed

lemma example_propose: "fst (propose 50000 0 example_pool) = ([example_pool_tx 2 100 21000], 21000)"
  by (simp add: propose_def select_with_gas_budget_def budget_loop.simps pool_eval example_pool_def
      saturating_add_def)

theorem proposal_is_greedy_witness:
  "\<exists>p' queue. propose 50000 0 example_pool = (([example_pool_tx 2 100 21000], 21000), p') \<and>
     set queue = {example_pool_tx 1 50 30000, example_pool_tx 2 100 21000} \<and>
     [example_pool_tx 2 100 21000] = greedy 50000 0 0 0 queue"
proof -
  from example_propose obtain p' where run: "propose 50000 0 example_pool = (([example_pool_tx 2 100 21000], 21000), p')"
    by (metis prod.collapse)
  have "{tx. mempool_get (mt_id tx) example_pool = Some tx \<and> mt_id tx \<notin> set (in_flight example_pool)} =
      {example_pool_tx 1 50 30000, example_pool_tx 2 100 21000}"
    by (auto simp: mempool_get_def example_pool_def example_pool_tx_def split: if_splits)
  with proposal_is_greedy [OF example_pool_reach run] run show ?thesis by auto
qed

definition example_sender :: sender_key where
  "example_sender = \<lparr>sk_len = 1, sk_bytes = 7 # replicate 63 0\<rparr>"

theorem sender_index_exact_witness:
  "\<exists>p. pool_run [OpAdd ((example_pool_tx 1 50 30000)\<lparr>mt_sender_key := Some example_sender\<rparr>)] mempool_new = Some p \<and>
     set (get_sender_txs example_sender p) =
       {h. \<exists>tx. mempool_get h p = Some tx \<and> mt_sender_key tx = Some example_sender}"
proof -
  obtain p where run: "pool_run [OpAdd ((example_pool_tx 1 50 30000)\<lparr>mt_sender_key := Some example_sender\<rparr>)] mempool_new
      = Some p"
    by (simp add: pool_eval andThen_def next_sender_sequence_def checked_add_def)
  with sender_index_exact [OF run] show ?thesis by blast
qed



text \<open>A transaction that is removed and added again while its old entry is still queued is proposed
  twice in one block: removal leaves the entry in the priority queue, and adding the transaction
  again revives it beside the new one.\<close>

theorem readded_tx_proposed_twice:
  fixes tx :: "'k::linorder mempool_tx"
  shows "\<exists>p1 p2 p3. mempool_add tx mempool_new = (Ok (mt_id tx), p1) \<and> mempool_remove (mt_id tx) p1 = (Some tx, p2) \<and>
    mempool_add tx p2 = (Ok (mt_id tx), p3) \<and> fst (fst (propose 0 0 p3)) = [tx, tx]"
proof -
  let ?e = "\<lparr>oe_hash = mt_id tx, oe_key = mt_ordering_key tx\<rparr>"
  let ?p2 = "\<lparr>by_hash = [], by_priority = [?e], by_sender = [], by_sender_seq = [], in_flight = []\<rparr>"
  define p1 where "p1 = snd (mempool_add tx mempool_new)"
  define p3 where "p3 = snd (mempool_add tx ?p2)"
  have p1: "mempool_add tx mempool_new = (Ok (mt_id tx), p1)"
    by (cases "mt_sender_key tx")
      (simp_all add: p1_def mempool_add_def mempool_new_def andThen_def next_sender_sequence_def checked_add_def Let_def)
  have p2: "mempool_remove (mt_id tx) p1 = (Some tx, ?p2)"
    by (cases "mt_sender_key tx")
      (simp_all add: p1_def mempool_add_def mempool_new_def andThen_def next_sender_sequence_def checked_add_def Let_def
        mempool_remove_def btree_insert_def heap_push_def sift_up.simps)
  have p3: "mempool_add tx ?p2 = (Ok (mt_id tx), p3)"
    by (cases "mt_sender_key tx")
      (simp_all add: p3_def mempool_add_def andThen_def next_sender_sequence_def checked_add_def Let_def)
  have "by_priority p3 = [?e, ?e]" "by_hash p3 = [(mt_id tx, tx)]"
    using mempool_add_Ok(3,5) [OF p3] by (simp_all add: heap_push_def sift_up.simps parent_def)
  then have "fst (fst (propose 0 0 p3)) = [tx, tx]"
    by (simp add: propose_def select_with_gas_budget_def budget_loop.simps heap_pop_def sift_down_to_bottom.simps
        sift_up.simps split: prod.splits)
  with p1 p2 p3 show ?thesis by blast
qed

end
