(* ===== verification/Mock_Env.thy ===== *)
theory Mock_Env
  imports Invoker
begin

text \<open>
  The test environment \<open>MockEnv\<close> (\<open>crates/app/sdk/testing/src/lib.rs\<close>): a second implementation of the
  environment traits, with a hash map for the storage and handlers for the calls of other accounts.
  Account code runs on it by \<open>mock_run\<close>, as it runs on the invoker by \<open>run\<close>. The lemmas give the
  effect of the storage requests on what the environment stores.
\<close>

section \<open>The environment\<close>

type_synonym mock_query_handler = "account_id \<Rightarrow> invoke_request \<Rightarrow> error_code + invoke_response"
type_synonym mock_exec_handler =
  "account_id \<Rightarrow> invoke_request \<Rightarrow> fungible_asset list \<Rightarrow> error_code + invoke_response"

record mock_env =
  me_whoami :: account_id
  me_sender :: account_id
  me_funds :: "fungible_asset list"
  me_state :: "(bytes, bytes) hashmap"
  me_query_handlers :: "(u64, mock_query_handler) hashmap"
  me_exec_handlers :: "(u64, mock_exec_handler) hashmap"
  me_block_height :: u64
  me_block_time :: u64
  me_unique_counter :: u64

definition mock_new :: "account_id \<Rightarrow> account_id \<Rightarrow> mock_env" where
  "mock_new who from = \<lparr>me_whoami = who, me_sender = from, me_funds = [], me_state = [],
     me_query_handlers = [], me_exec_handlers = [], me_block_height = 0, me_block_time = 0,
     me_unique_counter = 0\<rparr>"

definition with_block_height :: "u64 \<Rightarrow> mock_env \<Rightarrow> mock_env" where
  "with_block_height h e = e\<lparr>me_block_height := h\<rparr>"

definition with_block_time :: "u64 \<Rightarrow> mock_env \<Rightarrow> mock_env" where
  "with_block_time t e = e\<lparr>me_block_time := t\<rparr>"

definition with_sender :: "account_id \<Rightarrow> mock_env \<Rightarrow> mock_env" where
  "with_sender a e = e\<lparr>me_sender := a\<rparr>"

definition with_funds :: "fungible_asset list \<Rightarrow> mock_env \<Rightarrow> mock_env" where
  "with_funds fs e = e\<lparr>me_funds := fs\<rparr>"

definition with_whoami :: "account_id \<Rightarrow> mock_env \<Rightarrow> mock_env" where
  "with_whoami a e = e\<lparr>me_whoami := a\<rparr>"

definition with_query_handler ::
    "'q invokable \<Rightarrow> 'r borsh \<Rightarrow> (account_id \<Rightarrow> 'q \<Rightarrow> error_code + 'r) \<Rightarrow> mock_env \<Rightarrow> mock_env" where
  "with_query_handler Q R handler e =
     (let wrapped = (\<lambda>from raw_req.
            bind_result (invoke_request_get (msg_codec Q) raw_req) (\<lambda>req.
            bind_result (handler from req) (response_new R)))
      in e\<lparr>me_query_handlers := hm_insert (FUNCTION_IDENTIFIER Q) wrapped (me_query_handlers e)\<rparr>)"

definition with_exec_handler ::
    "'q invokable \<Rightarrow> 'r borsh \<Rightarrow> (account_id \<Rightarrow> 'q \<Rightarrow> fungible_asset list \<Rightarrow> error_code + 'r) \<Rightarrow>
       mock_env \<Rightarrow> mock_env" where
  "with_exec_handler Q R handler e =
     (let wrapped = (\<lambda>from raw_req fs.
            bind_result (invoke_request_get (msg_codec Q) raw_req) (\<lambda>req.
            bind_result (handler from req fs) (response_new R)))
      in e\<lparr>me_exec_handlers := hm_insert (FUNCTION_IDENTIFIER Q) wrapped (me_exec_handlers e)\<rparr>)"

section \<open>Its storage account\<close>

definition mock_handle_storage_exec ::
    "host \<Rightarrow> invoke_request \<Rightarrow> (mock_env, error_code, invoke_response) comp" where
  "mock_handle_storage_exec H request e =
     (if req_function request = FUNCTION_IDENTIFIER (StorageSetRequest H) then
        andThen (lift_result (invoke_request_get (h_storage_set_request H) request)) (\<lambda>storage_set e.
        let key = ACCOUNT_STORAGE_PREFIX # me_whoami e @ ss_key storage_set in
        andThen (lift_result (message_as_vec (ss_value storage_set))) (\<lambda>v e.
        lift_result (response_new (h_unit H) ()) (e\<lparr>me_state := hm_insert key v (me_state e)\<rparr>)) e) e
      else if req_function request = FUNCTION_IDENTIFIER (StorageRemoveRequest H) then
        andThen (lift_result (invoke_request_get (h_storage_remove_request H) request)) (\<lambda>storage_remove e.
        let key = ACCOUNT_STORAGE_PREFIX # me_whoami e @ sr_key storage_remove in
        lift_result (response_new (h_unit H) ()) (e\<lparr>me_state := hm_remove key (me_state e)\<rparr>)) e
      else (Err ERR_UNKNOWN_FUNCTION, e))"

definition mock_handle_storage_query ::
    "host \<Rightarrow> invoke_request \<Rightarrow> (mock_env, error_code, invoke_response) comp" where
  "mock_handle_storage_query H request e =
     (if req_function request = FUNCTION_IDENTIFIER (StorageGetRequest H) then
        andThen (lift_result (invoke_request_get (h_storage_get_request H) request)) (\<lambda>storage_get e.
        let key = ACCOUNT_STORAGE_PREFIX # sg_account_id storage_get @ sg_key storage_get;
            value = hm_get (me_state e) key
        in lift_result (response_new (h_storage_get_response H)
             \<lparr>sg_value = map_option message_from_bytes value\<rparr>) e) e
      else (Err ERR_UNKNOWN_FUNCTION, e))"

section \<open>The environment traits\<close>

definition mock_view :: "mock_env \<Rightarrow> env_view" where
  "mock_view e = \<lparr>env_whoami = me_whoami e, env_sender = me_sender e, env_funds = me_funds e,
     env_block = \<lparr>bc_height = me_block_height e, bc_time = me_block_time e\<rparr>\<rparr>"

definition mock_do_query ::
    "host \<Rightarrow> account_id \<Rightarrow> invoke_request \<Rightarrow> (mock_env, error_code, invoke_response) comp" where
  "mock_do_query H to data e =
     (if to = STORAGE_ACCOUNT_ID then mock_handle_storage_query H data e
      else case hm_get (me_query_handlers e) (req_function data) of
        Some handler \<Rightarrow> lift_result (handler to data) e
      | None \<Rightarrow> (Err ERR_UNKNOWN_FUNCTION, e))"

definition mock_do_exec ::
    "host \<Rightarrow> account_id \<Rightarrow> invoke_request \<Rightarrow> fungible_asset list \<Rightarrow>
       (mock_env, error_code, invoke_response) comp" where
  "mock_do_exec H to data fs e =
     (if to = STORAGE_ACCOUNT_ID then mock_handle_storage_exec H data e
      else case hm_get (me_exec_handlers e) (req_function data) of
        Some handler \<Rightarrow> lift_result (handler to data fs) e
      | None \<Rightarrow> (Err ERR_UNKNOWN_FUNCTION, e))"

definition mock_emit_event :: "string \<Rightarrow> bytes \<Rightarrow> (mock_env, error_code, unit) comp" where
  "mock_emit_event name data = ret ()"

definition mock_unique_id :: "(mock_env, error_code, bytes) comp" where
  "mock_unique_id e =
     (let e' = e\<lparr>me_unique_counter := me_unique_counter e + 1\<rparr>
      in (Ok (be_bytes 8 (me_unique_counter e') @ replicate 24 0), e'))"

primrec mock_run_query :: "host \<Rightarrow> 'a qprog \<Rightarrow> (mock_env, error_code, 'a) comp" where
  "mock_run_query H (QReturn r) = lift_result r"
| "mock_run_query H QUnwind = unwind"
| "mock_run_query H (QAsk k) = (\<lambda>e. mock_run_query H (k (mock_view e)) e)"
| "mock_run_query H (QQuery to data k) = attempt (mock_do_query H to data) (\<lambda>r. mock_run_query H (k r))"

primrec mock_run :: "host \<Rightarrow> 'a prog \<Rightarrow> (mock_env, error_code, 'a) comp" where
  "mock_run H (Return r) = lift_result r"
| "mock_run H Unwind = unwind"
| "mock_run H (Ask k) = (\<lambda>e. mock_run H (k (mock_view e)) e)"
| "mock_run H (DoQuery to data k) = attempt (mock_do_query H to data) (\<lambda>r. mock_run H (k r))"
| "mock_run H (DoExec to data fs k) = attempt (mock_do_exec H to data fs) (\<lambda>r. mock_run H (k r))"
| "mock_run H (EmitEvent name data k) = attempt (mock_emit_event name data) (\<lambda>r. mock_run H (k r))"
| "mock_run H (UniqueId k) = attempt mock_unique_id (\<lambda>r. mock_run H (k r))"

section \<open>Composition\<close>

lemma mock_run_pcatch: "mock_run H (pcatch p f) = attempt (mock_run H p) (\<lambda>r. mock_run H (f r))"
  by (induction p) (auto simp: fun_eq_iff attempt_def lift_result_def unwind_def of_result_def
      split: sum.splits prod.splits outcome.splits)

lemma mock_run_pbind: "mock_run H (pbind p f) = andThen (mock_run H p) (\<lambda>a. mock_run H (f a))"
  by (auto simp: fun_eq_iff pbind_def mock_run_pcatch attempt_def andThen_def lift_result_def of_result_def
      split: prod.splits outcome.splits)

lemma mock_run_query_qcatch:
  "mock_run_query H (qcatch p f) = attempt (mock_run_query H p) (\<lambda>r. mock_run_query H (f r))"
  by (induction p) (auto simp: fun_eq_iff attempt_def lift_result_def unwind_def of_result_def
      split: sum.splits prod.splits outcome.splits)

lemma mock_run_query_qbind:
  "mock_run_query H (qbind p f) = andThen (mock_run_query H p) (\<lambda>a. mock_run_query H (f a))"
  by (auto simp: fun_eq_iff qbind_def mock_run_query_qcatch attempt_def andThen_def lift_result_def of_result_def
      split: prod.splits outcome.splits)

lemma mock_run_of_query: "mock_run H (of_query p) = mock_run_query H p"
  by (induction p) simp_all

lemmas mock_run_simps = mock_run_pcatch mock_run_pbind mock_run_query_qcatch mock_run_query_qbind
  mock_run_of_query

end
