(* ===== verification/Collections.thy ===== *)
theory Collections
  imports Sdk_Env
begin

text \<open>
  The storage collections of \<open>crates/app/sdk/collections\<close>: \<open>Map\<close>, \<open>Item\<close>, \<open>Vector\<close>, \<open>Queue\<close> and
  \<open>UnorderedMap\<close>, one definition per method, as account code over the environment. A collection's type
  parameters are the codecs of its keys and values. \<open>u64\<close> arithmetic wraps.
\<close>

section \<open>Map\<close>

record ('k, 'v) smap =
  sm_prefix :: u8
  sm_key :: "'k borsh"
  sm_value :: "'v borsh"

definition map_new :: "u8 \<Rightarrow> 'k borsh \<Rightarrow> 'v borsh \<Rightarrow> ('k, 'v) smap" where
  "map_new p K V = \<lparr>sm_prefix = p, sm_key = K, sm_value = V\<rparr>"

definition make_key :: "('k, 'v) smap \<Rightarrow> 'k \<Rightarrow> error_code + bytes" where
  "make_key m key = bind_result (encode (sm_key m) key) (\<lambda>b. Inr (sm_prefix m # b))"

definition map_set :: "host \<Rightarrow> ('k, 'v) smap \<Rightarrow> 'k \<Rightarrow> 'v \<Rightarrow> unit prog" where
  "map_set H m key val =
     (case bind_result (make_key m key) (\<lambda>kb.
           bind_result (message_new (sm_value m) val) (\<lambda>v.
           invoke_request_new (StorageSetRequest H) \<lparr>ss_key = kb, ss_value = v\<rparr>)) of
        Inl e \<Rightarrow> Return (Inl e)
      | Inr req \<Rightarrow> DoExec STORAGE_ACCOUNT_ID req [] (\<lambda>r. Return (bind_result r (\<lambda>_. Inr ()))))"

definition map_may_get :: "host \<Rightarrow> ('k, 'v) smap \<Rightarrow> 'k \<Rightarrow> 'v option qprog" where
  "map_may_get H m key =
     (case make_key m key of
        Inl e \<Rightarrow> QReturn (Inl e)
      | Inr bytes_key \<Rightarrow> QAsk (\<lambda>env.
          case invoke_request_new (StorageGetRequest H)
                 \<lparr>sg_account_id = env_whoami env, sg_key = bytes_key\<rparr> of
            Inl e \<Rightarrow> QReturn (Inl e)
          | Inr req \<Rightarrow> QQuery STORAGE_ACCOUNT_ID req (\<lambda>r. QReturn (
              bind_result r (\<lambda>resp.
              bind_result (response_get (h_storage_get_response H) resp) (\<lambda>resp.
              case sg_value resp of
                None \<Rightarrow> Inr None
              | Some v \<Rightarrow> bind_result (message_get (sm_value m) v) (\<lambda>x. Inr (Some x))))))))"

definition map_get :: "host \<Rightarrow> ('k, 'v) smap \<Rightarrow> 'k \<Rightarrow> 'v qprog" where
  "map_get H m key = qbind (map_may_get H m key) (\<lambda>v. QReturn (ok_or ERR_NOT_FOUND v))"

definition map_exists :: "host \<Rightarrow> ('k, 'v) smap \<Rightarrow> 'k \<Rightarrow> bool qprog" where
  "map_exists H m key = qbind (map_may_get H m key) (\<lambda>v. QReturn (Inr (v \<noteq> None)))"

definition map_remove :: "host \<Rightarrow> ('k, 'v) smap \<Rightarrow> 'k \<Rightarrow> unit prog" where
  "map_remove H m key =
     (case bind_result (make_key m key) (\<lambda>kb.
           invoke_request_new (StorageRemoveRequest H) \<lparr>sr_key = kb\<rparr>) of
        Inl e \<Rightarrow> Return (Inl e)
      | Inr req \<Rightarrow> DoExec STORAGE_ACCOUNT_ID req [] (\<lambda>r. Return (bind_result r (\<lambda>_. Inr ()))))"

definition map_update ::
    "host \<Rightarrow> ('k, 'v) smap \<Rightarrow> 'k \<Rightarrow> ('v option \<Rightarrow> error_code + 'v) \<Rightarrow> 'v prog" where
  "map_update H m key update_fn =
     pbind (of_query (map_may_get H m key)) (\<lambda>old_value.
     case update_fn old_value of
       Inl e \<Rightarrow> Return (Inl e)
     | Inr new_value \<Rightarrow> pbind (map_set H m key new_value) (\<lambda>_. Return (Inr new_value)))"

section \<open>Item\<close>

text \<open>An item is a map with the unit key.\<close>

type_synonym 'v item = "(unit, 'v) smap"

definition item_new :: "host \<Rightarrow> u8 \<Rightarrow> 'v borsh \<Rightarrow> 'v item" where
  "item_new H p V = map_new p (h_unit H) V"

definition item_may_get :: "host \<Rightarrow> 'v item \<Rightarrow> 'v option qprog" where
  "item_may_get H i = map_may_get H i ()"

definition item_get :: "host \<Rightarrow> 'v item \<Rightarrow> 'v qprog" where
  "item_get H i = qbind (item_may_get H i) (\<lambda>v. QReturn (ok_or ERR_NOT_FOUND v))"

definition item_set :: "host \<Rightarrow> 'v item \<Rightarrow> 'v \<Rightarrow> unit prog" where
  "item_set H i val = map_set H i () val"

definition item_update :: "host \<Rightarrow> 'v item \<Rightarrow> ('v option \<Rightarrow> error_code + 'v) \<Rightarrow> 'v prog" where
  "item_update H i update_fn = map_update H i () update_fn"

definition item_remove :: "host \<Rightarrow> 'v item \<Rightarrow> unit prog" where
  "item_remove H i = map_remove H i ()"

section \<open>Vector\<close>

definition unwrap_or_default :: "'a::zero option \<Rightarrow> 'a" where
  "unwrap_or_default v = (case v of None \<Rightarrow> 0 | Some x \<Rightarrow> x)"

record 'v vector =
  v_index :: "u64 item"
  v_elems :: "(u64, 'v) smap"

definition vector_new :: "host \<Rightarrow> u8 \<Rightarrow> u8 \<Rightarrow> 'v borsh \<Rightarrow> 'v vector" where
  "vector_new H index_prefix elems_prefix V =
     \<lparr>v_index = item_new H index_prefix (h_u64 H), v_elems = map_new elems_prefix (h_u64 H) V\<rparr>"

definition vector_may_get :: "host \<Rightarrow> 'v vector \<Rightarrow> u64 \<Rightarrow> 'v option qprog" where
  "vector_may_get H v i = map_may_get H (v_elems v) i"

definition vector_get :: "host \<Rightarrow> 'v vector \<Rightarrow> u64 \<Rightarrow> 'v qprog" where
  "vector_get H v i = map_get H (v_elems v) i"

definition vector_push :: "host \<Rightarrow> 'v vector \<Rightarrow> 'v \<Rightarrow> unit prog" where
  "vector_push H v x =
     pbind (of_query (item_may_get H (v_index v))) (\<lambda>n.
     let index = unwrap_or_default n in
     pbind (map_set H (v_elems v) index x) (\<lambda>_.
     item_set H (v_index v) (index + 1)))"

primrec extend_loop :: "host \<Rightarrow> 'v vector \<Rightarrow> 'v list \<Rightarrow> u64 \<Rightarrow> u64 prog" where
  "extend_loop H v [] index = Return (Inr index)"
| "extend_loop H v (x # xs) index =
     pbind (map_set H (v_elems v) index x) (\<lambda>_. extend_loop H v xs (index + 1))"

definition vector_extend :: "host \<Rightarrow> 'v vector \<Rightarrow> 'v list \<Rightarrow> unit prog" where
  "vector_extend H v xs =
     pbind (of_query (item_may_get H (v_index v))) (\<lambda>n.
     pbind (extend_loop H v xs (unwrap_or_default n)) (\<lambda>index.
     item_set H (v_index v) index))"

definition vector_pop :: "host \<Rightarrow> 'v vector \<Rightarrow> 'v option prog" where
  "vector_pop H v =
     pbind (of_query (item_may_get H (v_index v))) (\<lambda>n. case n of
       Some index \<Rightarrow>
         pbind (of_query (map_get H (v_elems v) (index - 1))) (\<lambda>val.
         pbind (if index = 1 then item_remove H (v_index v) else item_set H (v_index v) (index - 1)) (\<lambda>_.
         Return (Inr (Some val))))
     | None \<Rightarrow> Return (Inr None))"

definition vector_len :: "host \<Rightarrow> 'v vector \<Rightarrow> u64 qprog" where
  "vector_len H v = qbind (item_may_get H (v_index v)) (\<lambda>n. QReturn (Inr (unwrap_or_default n)))"

text \<open>The position and the length held by a \<open>VectorIter\<close>; \<open>next\<close> returns the item, if any, and the
  iterator after it. An item is itself a result, since the read can fail.\<close>

record vector_iter =
  vi_index :: u64
  vi_length :: u64

definition vector_iter_new :: "host \<Rightarrow> 'v vector \<Rightarrow> vector_iter qprog" where
  "vector_iter_new H v = qbind (vector_len H v) (\<lambda>n. QReturn (Inr \<lparr>vi_index = 0, vi_length = n\<rparr>))"

definition vector_iter_next ::
    "host \<Rightarrow> 'v vector \<Rightarrow> vector_iter \<Rightarrow> ((error_code + 'v) option \<times> vector_iter) qprog" where
  "vector_iter_next H v it =
     (if vi_index it \<ge> vi_length it then QReturn (Inr (None, it))
      else qcatch (vector_get H v (vi_index it)) (\<lambda>result.
        QReturn (Inr (Some result, it\<lparr>vi_index := vi_index it + 1\<rparr>))))"

section \<open>Queue\<close>

record 'v queue =
  q_front :: "u64 item"
  q_back :: "u64 item"
  q_items :: "(u64, 'v) smap"

definition queue_new :: "host \<Rightarrow> u8 \<Rightarrow> u8 \<Rightarrow> u8 \<Rightarrow> 'v borsh \<Rightarrow> 'v queue" where
  "queue_new H front_prefix back_prefix items_prefix V =
     \<lparr>q_front = item_new H front_prefix (h_u64 H), q_back = item_new H back_prefix (h_u64 H),
      q_items = map_new items_prefix (h_u64 H) V\<rparr>"

definition get_back :: "host \<Rightarrow> 'v queue \<Rightarrow> u64 qprog" where
  "get_back H q = qbind (item_may_get H (q_back q)) (\<lambda>n. QReturn (Inr (unwrap_or_default n)))"

definition get_front :: "host \<Rightarrow> 'v queue \<Rightarrow> u64 qprog" where
  "get_front H q = qbind (item_may_get H (q_front q)) (\<lambda>n. QReturn (Inr (unwrap_or_default n)))"

definition push_back :: "host \<Rightarrow> 'v queue \<Rightarrow> 'v \<Rightarrow> unit prog" where
  "push_back H q x =
     pbind (of_query (get_back H q)) (\<lambda>back.
     pbind (map_set H (q_items q) back x) (\<lambda>_.
     item_set H (q_back q) (back + 1)))"

definition pop_front :: "host \<Rightarrow> 'v queue \<Rightarrow> 'v prog" where
  "pop_front H q =
     pbind (of_query (get_front H q)) (\<lambda>front.
     pbind (of_query (get_back H q)) (\<lambda>back.
     if front = back then Return (Inl ERR_EMPTY)
     else pbind (of_query (map_get H (q_items q) front)) (\<lambda>x.
       pbind (map_remove H (q_items q) front) (\<lambda>_.
       pbind (item_set H (q_front q) (front + 1)) (\<lambda>_.
       Return (Inr x))))))"

definition pop_back :: "host \<Rightarrow> 'v queue \<Rightarrow> 'v prog" where
  "pop_back H q =
     pbind (of_query (get_front H q)) (\<lambda>front.
     pbind (of_query (get_back H q)) (\<lambda>back.
     if back = front then Return (Inl ERR_EMPTY)
     else let last_index = back - 1 in
       pbind (of_query (map_get H (q_items q) last_index)) (\<lambda>x.
       pbind (map_remove H (q_items q) last_index) (\<lambda>_.
       pbind (item_set H (q_back q) last_index) (\<lambda>_.
       Return (Inr x))))))"

definition queue_is_empty :: "host \<Rightarrow> 'v queue \<Rightarrow> bool qprog" where
  "queue_is_empty H q =
     qbind (get_front H q) (\<lambda>front. qbind (get_back H q) (\<lambda>back. QReturn (Inr (front = back))))"

record queue_iter =
  qi_index :: u64
  qi_end :: u64

definition queue_iter_new :: "host \<Rightarrow> 'v queue \<Rightarrow> queue_iter qprog" where
  "queue_iter_new H q =
     qbind (get_front H q) (\<lambda>front. qbind (get_back H q) (\<lambda>back.
       QReturn (Inr \<lparr>qi_index = front, qi_end = back\<rparr>)))"

definition queue_iter_next ::
    "host \<Rightarrow> 'v queue \<Rightarrow> queue_iter \<Rightarrow> ((error_code + 'v) option \<times> queue_iter) qprog" where
  "queue_iter_next H q it =
     (if qi_index it \<ge> qi_end it then QReturn (Inr (None, it))
      else qcatch (map_may_get H (q_items q) (qi_index it)) (\<lambda>item_result.
        let it' = it\<lparr>qi_index := qi_index it + 1\<rparr> in
        QReturn (Inr (Some (bind_result item_result (ok_or ERR_DATA_CORRUPTION)), it'))))"

section \<open>UnorderedMap\<close>

record ('k, 'v) unordered_map =
  um_index_map :: "('k, u64) smap"
  um_keys_vec :: "'k vector"
  um_values_map :: "('k, 'v) smap"

definition unordered_map_new ::
    "host \<Rightarrow> u8 \<Rightarrow> u8 \<Rightarrow> u8 \<Rightarrow> u8 \<Rightarrow> 'k borsh \<Rightarrow> 'v borsh \<Rightarrow> ('k, 'v) unordered_map" where
  "unordered_map_new H index_map_prefix keys_vec_index_prefix keys_vec_elems_prefix values_map_prefix K V =
     \<lparr>um_index_map = map_new index_map_prefix K (h_u64 H),
      um_keys_vec = vector_new H keys_vec_index_prefix keys_vec_elems_prefix K,
      um_values_map = map_new values_map_prefix K V\<rparr>"

definition um_len :: "host \<Rightarrow> ('k, 'v) unordered_map \<Rightarrow> u64 qprog" where
  "um_len H m = vector_len H (um_keys_vec m)"

definition um_is_empty :: "host \<Rightarrow> ('k, 'v) unordered_map \<Rightarrow> bool qprog" where
  "um_is_empty H m = qbind (um_len H m) (\<lambda>n. QReturn (Inr (n = 0)))"

definition um_may_get :: "host \<Rightarrow> ('k, 'v) unordered_map \<Rightarrow> 'k \<Rightarrow> 'v option qprog" where
  "um_may_get H m key = map_may_get H (um_values_map m) key"

definition um_get :: "host \<Rightarrow> ('k, 'v) unordered_map \<Rightarrow> 'k \<Rightarrow> 'v qprog" where
  "um_get H m key = map_get H (um_values_map m) key"

definition um_insert :: "host \<Rightarrow> ('k, 'v) unordered_map \<Rightarrow> 'k \<Rightarrow> 'v \<Rightarrow> 'v option prog" where
  "um_insert H m key val =
     pbind (of_query (map_may_get H (um_index_map m) key)) (\<lambda>i.
     if i \<noteq> None then
       pbind (of_query (map_get H (um_values_map m) key)) (\<lambda>old_value.
       pbind (map_set H (um_values_map m) key val) (\<lambda>_.
       Return (Inr (Some old_value))))
     else
       pbind (of_query (vector_len H (um_keys_vec m))) (\<lambda>new_index.
       pbind (vector_push H (um_keys_vec m) key) (\<lambda>_.
       pbind (map_set H (um_index_map m) key new_index) (\<lambda>_.
       pbind (map_set H (um_values_map m) key val) (\<lambda>_.
       Return (Inr None))))))"

definition swap_remove :: "host \<Rightarrow> ('k, 'v) unordered_map \<Rightarrow> u64 \<Rightarrow> u64 \<Rightarrow> unit prog" where
  "swap_remove H m removed_index last_index =
     (if removed_index < last_index then
        pbind (of_query (vector_get H (um_keys_vec m) last_index)) (\<lambda>last_key.
        pbind (map_set H (v_elems (um_keys_vec m)) removed_index last_key) (\<lambda>_.
        map_set H (um_index_map m) last_key removed_index))
      else Return (Inr ()))"

definition um_remove :: "host \<Rightarrow> ('k, 'v) unordered_map \<Rightarrow> 'k \<Rightarrow> 'v option prog" where
  "um_remove H m key =
     pbind (of_query (map_may_get H (um_index_map m) key)) (\<lambda>i. case i of
       None \<Rightarrow> Return (Inr None)
     | Some removed_index \<Rightarrow>
         pbind (map_remove H (um_index_map m) key) (\<lambda>_.
         pbind (of_query (map_get H (um_values_map m) key)) (\<lambda>old_value.
         pbind (map_remove H (um_values_map m) key) (\<lambda>_.
         pbind (of_query (vector_len H (um_keys_vec m))) (\<lambda>n.
         pbind (swap_remove H m removed_index (n - 1)) (\<lambda>_.
         pbind (vector_pop H (um_keys_vec m)) (\<lambda>_.
         Return (Inr (Some old_value)))))))))"

definition um_update ::
    "host \<Rightarrow> ('k, 'v) unordered_map \<Rightarrow> 'k \<Rightarrow> ('v option \<Rightarrow> error_code + 'v) \<Rightarrow> 'v prog" where
  "um_update H m key update_fn =
     pbind (of_query (um_may_get H m key)) (\<lambda>old_value.
     case update_fn old_value of
       Inl e \<Rightarrow> Return (Inl e)
     | Inr new_value \<Rightarrow> pbind (um_insert H m key new_value) (\<lambda>_. Return (Inr new_value)))"

record unordered_map_iter =
  ui_index :: u64
  ui_length :: u64

definition um_iter_new :: "host \<Rightarrow> ('k, 'v) unordered_map \<Rightarrow> unordered_map_iter qprog" where
  "um_iter_new H m = qbind (um_len H m) (\<lambda>n. QReturn (Inr \<lparr>ui_index = 0, ui_length = n\<rparr>))"

definition um_iter_next ::
    "host \<Rightarrow> ('k, 'v) unordered_map \<Rightarrow> unordered_map_iter \<Rightarrow>
       ((error_code + 'k \<times> 'v) option \<times> unordered_map_iter) qprog" where
  "um_iter_next H m it =
     (if ui_index it \<ge> ui_length it then QReturn (Inr (None, it))
      else qcatch (vector_may_get H (um_keys_vec m) (ui_index it)) (\<lambda>maybe_key.
        let it' = it\<lparr>ui_index := ui_index it + 1\<rparr> in
        case maybe_key of
          Inr (Some k) \<Rightarrow>
            qcatch (map_may_get H (um_values_map m) k) (\<lambda>maybe_value. QReturn (Inr (Some (
              case maybe_value of
                Inr (Some v) \<Rightarrow> Inr (k, v)
              | Inr None \<Rightarrow> Inl ERR_VALUE_MISSING
              | Inl e \<Rightarrow> Inl e), it')))
        | Inr None \<Rightarrow> QReturn (Inr (Some (Inl ERR_KEY_MISSING), it'))
        | Inl e \<Rightarrow> QReturn (Inr (Some (Inl e), it'))))"

end
