(* ===== verification/Typed_Storage.thy ===== *)
theory Typed_Storage
  imports Mock_Env Collections
begin

text \<open>
  What the collections rely on of the storage: a map from byte strings to byte strings (the locale
  \<open>kv_storage\<close>, interpreted on the test environment), and what they promise of one typed map in it
  (the locale \<open>typed_map\<close>): the effect of \<open>set\<close>, \<open>may_get\<close>, \<open>remove\<close> and \<open>update\<close> on its contents, and
  that maps of different prefixes do not interfere.
\<close>

section \<open>Storage of an account as a map of byte strings\<close>

locale kv_storage =
  fixes lookup :: "'s \<Rightarrow> bytes \<Rightarrow> bytes option"
    and put :: "bytes \<Rightarrow> bytes \<Rightarrow> 's \<Rightarrow> 's"
    and del :: "bytes \<Rightarrow> 's \<Rightarrow> 's"
  assumes lookup_put: "lookup (put k v s) = (lookup s)(k := Some v)"
    and lookup_del: "lookup (del k s) = (lookup s)(k := None)"
begin

lemma put_same: "lookup (put k v s) k = Some v"
  by (simp add: lookup_put)

lemma put_other: "k' \<noteq> k \<Longrightarrow> lookup (put k v s) k' = lookup s k'"
  by (simp add: lookup_put)

lemma put_put: "lookup (put k v (put k v' s)) = lookup (put k v s)"
  by (simp add: lookup_put)

lemma put_swap: "k \<noteq> k' \<Longrightarrow> lookup (put k v (put k' v' s)) = lookup (put k' v' (put k v s))"
  by (simp add: lookup_put fun_upd_twist)

end

definition mock_lookup :: "mock_env \<Rightarrow> bytes \<Rightarrow> bytes option" where
  "mock_lookup e k = hm_get (me_state e) (storage_key (me_whoami e) k)"

definition mock_put :: "bytes \<Rightarrow> bytes \<Rightarrow> mock_env \<Rightarrow> mock_env" where
  "mock_put k v e = e\<lparr>me_state := hm_insert (storage_key (me_whoami e) k) v (me_state e)\<rparr>"

definition mock_del :: "bytes \<Rightarrow> mock_env \<Rightarrow> mock_env" where
  "mock_del k e = e\<lparr>me_state := hm_remove (storage_key (me_whoami e) k) (me_state e)\<rparr>"

interpretation mock: kv_storage mock_lookup mock_put mock_del
  by unfold_locales (auto simp: mock_lookup_def mock_put_def mock_del_def storage_key_def fun_eq_iff)

lemmas mock_store [simp] = mock.lookup_put mock.lookup_del

lemma mock_put_frame [simp]:
  "me_whoami (mock_put k v e) = me_whoami e" "me_sender (mock_put k v e) = me_sender e"
  "mock_view (mock_put k v e) = mock_view e"
  "me_whoami (mock_del k e) = me_whoami e" "me_sender (mock_del k e) = me_sender e"
  "mock_view (mock_del k e) = mock_view e"
  by (simp_all add: mock_put_def mock_del_def mock_view_def)

section \<open>Storage requests on the test environment\<close>

lemma mock_storage_set:
  assumes H: "host_ok H" and ok: "vec_ok k" "message_ok v"
  obtains req resp where "invoke_request_new (StorageSetRequest H) \<lparr>ss_key = k, ss_value = v\<rparr> = Inr req"
    "\<And>e. mock_do_exec H STORAGE_ACCOUNT_ID req fs e = (Ok resp, mock_put k (case v of OwnedBytes b \<Rightarrow> b) e)"
    "invoke_request_get (h_storage_set_request H) req = Inr \<lparr>ss_key = k, ss_value = v\<rparr>"
    "req_function req = FUNCTION_IDENTIFIER (StorageSetRequest H)"
proof -
  let ?r = "\<lparr>ss_key = k, ss_value = v\<rparr>"
  have "storage_set_request_ok ?r" using ok by (simp add: storage_set_request_ok_def)
  then obtain req where req: "invoke_request_new (StorageSetRequest H) ?r = Inr req"
    "invoke_request_get (h_storage_set_request H) req = Inr ?r"
    "req_function req = FUNCTION_IDENTIFIER (StorageSetRequest H)"
    using borsh_ok_request [of storage_set_request_ok "StorageSetRequest H"] host_ok_storage(3) [OF H]
    by (metis StorageSetRequest_def invokable.select_convs(3))
  obtain resp where resp: "response_new (h_unit H) () = Inr resp"
    using borsh_ok_response [OF host_ok_storage(5) [OF H]] by blast
  show ?thesis
    by (rule that [OF req(1) _ req(2,3), of resp])
      (cases v, simp add: mock_do_exec_def mock_handle_storage_exec_def req andThen_def lift_result_def resp
        mock_put_def storage_key_def)
qed

lemma mock_storage_remove:
  assumes H: "host_ok H" and ok: "vec_ok k"
  obtains req resp where "invoke_request_new (StorageRemoveRequest H) \<lparr>sr_key = k\<rparr> = Inr req"
    "\<And>e. mock_do_exec H STORAGE_ACCOUNT_ID req fs e = (Ok resp, mock_del k e)"
proof -
  let ?r = "\<lparr>sr_key = k\<rparr>"
  have "storage_remove_request_ok ?r" using ok by (simp add: storage_remove_request_ok_def)
  then obtain req where req: "invoke_request_new (StorageRemoveRequest H) ?r = Inr req"
    "invoke_request_get (h_storage_remove_request H) req = Inr ?r"
    "req_function req = FUNCTION_IDENTIFIER (StorageRemoveRequest H)"
    using borsh_ok_request [of storage_remove_request_ok "StorageRemoveRequest H"] host_ok_storage(4) [OF H]
    by (metis StorageRemoveRequest_def invokable.select_convs(3))
  obtain resp where resp: "response_new (h_unit H) () = Inr resp"
    using borsh_ok_response [OF host_ok_storage(5) [OF H]] by blast
  show ?thesis
    by (rule that [OF req(1), of resp])
      (simp add: mock_do_exec_def mock_handle_storage_exec_def req andThen_def lift_result_def resp
        mock_del_def storage_key_def StorageSetRequest_def StorageRemoveRequest_def)
qed

lemma mock_storage_get:
  assumes H: "host_ok H" and ok: "vec_ok k" "account_wf (me_whoami e)"
    and size: "\<And>b. mock_lookup e k = Some b \<Longrightarrow> vec_ok b"
  obtains req resp where
    "invoke_request_new (StorageGetRequest H) \<lparr>sg_account_id = me_whoami e, sg_key = k\<rparr> = Inr req"
    "mock_do_query H STORAGE_ACCOUNT_ID req e = (Ok resp, e)"
    "response_get (h_storage_get_response H) resp = Inr \<lparr>sg_value = map_option OwnedBytes (mock_lookup e k)\<rparr>"
proof -
  let ?r = "\<lparr>sg_account_id = me_whoami e, sg_key = k\<rparr>" and ?v = "\<lparr>sg_value = map_option OwnedBytes (mock_lookup e k)\<rparr>"
  have "storage_get_request_ok ?r" using ok by (simp add: storage_get_request_ok_def)
  then obtain req where req: "invoke_request_new (StorageGetRequest H) ?r = Inr req"
    "invoke_request_get (h_storage_get_request H) req = Inr ?r"
    "req_function req = FUNCTION_IDENTIFIER (StorageGetRequest H)"
    using borsh_ok_request [of storage_get_request_ok "StorageGetRequest H"] host_ok_storage(1) [OF H]
    by (metis StorageGetRequest_def invokable.select_convs(3))
  have "storage_get_response_ok ?v" using size by (simp add: storage_get_response_ok_def split: option.splits)
  then obtain resp where resp: "response_new (h_storage_get_response H) ?v = Inr resp"
    "response_get (h_storage_get_response H) resp = Inr ?v"
    using borsh_ok_response [OF host_ok_storage(2) [OF H]] by blast
  have "map_option message_from_bytes = map_option OwnedBytes" by (auto simp: message_from_bytes_def [abs_def])
  with resp show ?thesis
    by (intro that [OF req(1) _ resp(2)])
      (simp add: mock_do_query_def mock_handle_storage_query_def req andThen_def lift_result_def
        mock_lookup_def storage_key_def)
qed

section \<open>A typed map\<close>

text \<open>The values of a type that can be keys or values: Borsh writes and reads them, in fewer than
  \<open>2 ^ 32 - 1\<close> bytes.\<close>

definition storable :: "('a \<Rightarrow> bool) \<Rightarrow> 'a borsh \<Rightarrow> bool" where
  "storable D B \<longleftrightarrow> borsh_ok D B \<and> (\<forall>x b. D x \<longrightarrow> serialize B x = Some b \<longrightarrow> length b < 2 ^ 32 - 1)"

lemma storable_host:
  assumes "host_ok H"
  shows "storable (\<lambda>_. True) (h_u64 H)" "storable (\<lambda>_. True) (h_u128 H)" "storable (\<lambda>_. True) (h_unit H)"
    "storable account_wf (h_account_id H)"
  using assms by (auto simp: host_ok_def storable_def)

definition key_bytes :: "('k, 'v) smap \<Rightarrow> 'k \<Rightarrow> bytes" where
  "key_bytes m k = sm_prefix m # the (serialize (sm_key m) k)"

definition value_bytes :: "('k, 'v) smap \<Rightarrow> 'v \<Rightarrow> bytes" where
  "value_bytes m v = the (serialize (sm_value m) v)"

text \<open>The contents of a map as the storage holds them.\<close>

definition contents :: "('k, 'v) smap \<Rightarrow> mock_env \<Rightarrow> 'k \<Rightarrow> 'v option" where
  "contents m e k = Option.bind (mock_lookup e (key_bytes m k)) (from_slice (sm_value m))"

definition typed :: "('k \<Rightarrow> bool) \<Rightarrow> ('v \<Rightarrow> bool) \<Rightarrow> ('k, 'v) smap \<Rightarrow> mock_env \<Rightarrow> bool" where
  "typed K V m e \<longleftrightarrow> (\<forall>k. K k \<longrightarrow> mock_lookup e (key_bytes m k) \<in> {None} \<union> Some ` value_bytes m ` {v. V v})"

locale typed_map =
  fixes H :: host and K :: "'k \<Rightarrow> bool" and V :: "'v \<Rightarrow> bool" and m :: "('k, 'v) smap"
  assumes host: "host_ok H" and keys: "storable K (sm_key m)" and vals: "storable V (sm_value m)"
begin

lemma key_bytes_ok:
  assumes "K k"
  shows "make_key m k = Inr (key_bytes m k)" "vec_ok (key_bytes m k)"
proof -
  obtain b where "serialize (sm_key m) k = Some b" "length b < 2 ^ 32 - 1"
    using assms keys unfolding storable_def by (metis borsh_okD)
  then show "make_key m k = Inr (key_bytes m k)" "vec_ok (key_bytes m k)"
    by (simp_all add: make_key_def encode_def to_vec_def key_bytes_def vec_ok_def)
qed

lemma value_bytes_ok:
  assumes "V v"
  shows "message_new (sm_value m) v = Inr (OwnedBytes (value_bytes m v))" "vec_ok (value_bytes m v)"
    "from_slice (sm_value m) (value_bytes m v) = Some v"
    "decode (sm_value m) (value_bytes m v) = Inr v"
proof -
  obtain b where b: "serialize (sm_value m) v = Some b" "length b < 2 ^ 32 - 1"
    "deserialize_reader (sm_value m) (b @ []) = Some (v, [])"
    using assms vals unfolding storable_def by (metis borsh_okD)
  then show "message_new (sm_value m) v = Inr (OwnedBytes (value_bytes m v))" "vec_ok (value_bytes m v)"
    "from_slice (sm_value m) (value_bytes m v) = Some v" "decode (sm_value m) (value_bytes m v) = Inr v"
    by (simp_all add: message_new_def encode_def to_vec_def value_bytes_def vec_ok_def from_slice_def decode_def)
qed

lemma key_bytes_inject: "K k \<Longrightarrow> K k' \<Longrightarrow> key_bytes m k = key_bytes m k' \<longleftrightarrow> k = k'"
  using keys unfolding storable_def key_bytes_def
  by (metis append_Nil2 borsh_okD list.inject option.inject option.sel prod.inject)

lemma set_run:
  assumes "K k" "V v"
  shows "mock_run H (map_set H m k v) e = (Ok (), mock_put (key_bytes m k) (value_bytes m v) e)"
proof -
  obtain req resp where
    "invoke_request_new (StorageSetRequest H) \<lparr>ss_key = key_bytes m k, ss_value = OwnedBytes (value_bytes m v)\<rparr> = Inr req"
    "\<And>e. mock_do_exec H STORAGE_ACCOUNT_ID req [] e = (Ok resp, mock_put (key_bytes m k) (value_bytes m v) e)"
    by (rule mock_storage_set [OF host, where k = "key_bytes m k" and v = "OwnedBytes (value_bytes m v)" and fs = "[]"])
      (use key_bytes_ok [OF assms(1)] value_bytes_ok [OF assms(2)] in simp_all)
  then show ?thesis
    by (simp add: map_set_def key_bytes_ok assms value_bytes_ok attempt_def lift_result_def)
qed

lemma remove_run:
  assumes "K k"
  shows "mock_run H (map_remove H m k) e = (Ok (), mock_del (key_bytes m k) e)"
proof -
  obtain req resp where "invoke_request_new (StorageRemoveRequest H) \<lparr>sr_key = key_bytes m k\<rparr> = Inr req"
    "\<And>e. mock_do_exec H STORAGE_ACCOUNT_ID req [] e = (Ok resp, mock_del (key_bytes m k) e)"
    using mock_storage_remove [OF host key_bytes_ok(2) [OF assms]] by blast
  then show ?thesis
    by (simp add: map_remove_def key_bytes_ok assms attempt_def lift_result_def)
qed

lemma may_get_run:
  assumes "K k" "typed K V m e" "account_wf (me_whoami e)"
  shows "mock_run_query H (map_may_get H m k) e = (Ok (contents m e k), e)"
proof -
  have stored: "mock_lookup e (key_bytes m k) \<in> {None} \<union> Some ` value_bytes m ` {v. V v}"
    using assms by (auto simp: typed_def)
  then have "\<And>b. mock_lookup e (key_bytes m k) = Some b \<Longrightarrow> vec_ok b" by (auto simp: value_bytes_ok)
  then obtain req resp where req:
    "invoke_request_new (StorageGetRequest H) \<lparr>sg_account_id = me_whoami e, sg_key = key_bytes m k\<rparr> = Inr req"
    "mock_do_query H STORAGE_ACCOUNT_ID req e = (Ok resp, e)"
    "response_get (h_storage_get_response H) resp = Inr \<lparr>sg_value = map_option OwnedBytes (mock_lookup e (key_bytes m k))\<rparr>"
    using mock_storage_get [OF host key_bytes_ok(2) [OF assms(1)] assms(3)] by blast
  have view: "env_whoami (mock_view e) = me_whoami e" by (simp add: mock_view_def)
  show ?thesis using stored
    by (auto simp: map_may_get_def key_bytes_ok assms req view attempt_def lift_result_def contents_def
        value_bytes_ok)
qed

lemma get_run:
  assumes "K k" "typed K V m e" "account_wf (me_whoami e)"
  shows "mock_run_query H (map_get H m k) e = (of_result (ok_or ERR_NOT_FOUND (contents m e k)), e)"
  by (simp add: map_get_def mock_run_query_qbind andThen_def may_get_run [OF assms] lift_result_def)

lemma exists_run:
  assumes "K k" "typed K V m e" "account_wf (me_whoami e)"
  shows "mock_run_query H (map_exists H m k) e = (Ok (contents m e k \<noteq> None), e)"
  by (simp add: map_exists_def mock_run_query_qbind andThen_def may_get_run [OF assms] lift_result_def)

lemma update_run:
  assumes "K k" "typed K V m e" "account_wf (me_whoami e)" "\<And>v. f (contents m e k) = Inr v \<Longrightarrow> V v"
  shows "mock_run H (map_update H m k f) e =
    (case f (contents m e k) of
       Inl c \<Rightarrow> (Err c, e)
     | Inr v \<Rightarrow> (Ok v, mock_put (key_bytes m k) (value_bytes m v) e))"
  using assms(4)
  by (auto simp: map_update_def mock_run_simps andThen_def may_get_run [OF assms(1-3)] lift_result_def
      set_run [OF assms(1)] split: sum.splits)

lemma contents_put:
  assumes "K k" "V v" "K k'"
  shows "contents m (mock_put (key_bytes m k) (value_bytes m v) e) k' = (if k' = k then Some v else contents m e k')"
  using assms by (auto simp: contents_def key_bytes_inject value_bytes_ok)

lemma contents_del:
  assumes "K k" "K k'"
  shows "contents m (mock_del (key_bytes m k) e) k' = (if k' = k then None else contents m e k')"
  using assms by (auto simp: contents_def key_bytes_inject)

lemma typed_put [simp]: "K k \<Longrightarrow> V v \<Longrightarrow> typed K V m e \<Longrightarrow> typed K V m (mock_put (key_bytes m k) (value_bytes m v) e)"
  by (auto simp: typed_def)

lemma typed_del [simp]: "K k \<Longrightarrow> typed K V m e \<Longrightarrow> typed K V m (mock_del (key_bytes m k) e)"
  by (auto simp: typed_def)

lemma contents_valid: "K k \<Longrightarrow> typed K V m e \<Longrightarrow> contents m e k = Some v \<Longrightarrow> V v"
  by (auto simp: typed_def contents_def value_bytes_ok dest!: spec [of _ k])

end

lemma other_prefix [simp]:
  assumes "sm_prefix m \<noteq> sm_prefix n"
  shows "contents m (mock_put (key_bytes n k) b e) = contents m e"
    "contents m (mock_del (key_bytes n k) e) = contents m e"
    "typed K V m (mock_put (key_bytes n k) b e) \<longleftrightarrow> typed K V m e"
    "typed K V m (mock_del (key_bytes n k) e) \<longleftrightarrow> typed K V m e"
  using assms by (auto simp: contents_def typed_def key_bytes_def fun_eq_iff)

lemma fresh_storage [simp]:
  "contents m (mock_new a b) = Map.empty" "typed K V m (mock_new a b)"
  by (auto simp: contents_def typed_def mock_lookup_def mock_new_def)

end
