(* ===== verification/Data_Refinement.thy ===== *)
theory Data_Refinement
  imports Prelude
begin

text \<open>
  Sequences of operations and their simulation: the locale \<open>data_refinement\<close> says what it is for the
  operations of a component to simulate those of an abstract value, step by step, and gives the
  simulation of whole sequences.
\<close>

section \<open>Sequences of operations\<close>

primrec run_seq :: "('op \<Rightarrow> 's \<Rightarrow> 'r \<times> 's) \<Rightarrow> 'op list \<Rightarrow> 's \<Rightarrow> 'r list \<times> 's" where
  "run_seq step [] s = ([], s)"
| "run_seq step (op # ops) s =
     (case step op s of (r, s') \<Rightarrow> case run_seq step ops s' of (rs, s'') \<Rightarrow> (r # rs, s''))"

lemma run_seq_append:
  "run_seq step (xs @ ys) s =
     (fst (run_seq step xs s) @ fst (run_seq step ys (snd (run_seq step xs s))), snd (run_seq step ys (snd (run_seq step xs s))))"
  by (induction xs arbitrary: s) (simp_all add: split_beta)

primrec ops_ok :: "('op \<Rightarrow> 'a \<Rightarrow> 'r \<times> 'a) \<Rightarrow> ('op \<Rightarrow> 'a \<Rightarrow> bool) \<Rightarrow> 'op list \<Rightarrow> 'a \<Rightarrow> bool" where
  "ops_ok spec ok [] a = True"
| "ops_ok spec ok (op # ops) a = (ok op a \<and> ops_ok spec ok ops (snd (spec op a)))"

lemma ops_ok_True: "ops_ok spec (\<lambda>_ _. True) ops a"
  by (induction ops arbitrary: a) simp_all

locale data_refinement =
  fixes impl :: "'op \<Rightarrow> 'c \<Rightarrow> 'r \<times> 'c" and spec :: "'op \<Rightarrow> 'a \<Rightarrow> 'r \<times> 'a"
    and rel :: "'a \<Rightarrow> 'c \<Rightarrow> bool" and ok :: "'op \<Rightarrow> 'a \<Rightarrow> bool"
  assumes sim_result: "rel a c \<Longrightarrow> ok op a \<Longrightarrow> fst (impl op c) = fst (spec op a)"
    and sim_state: "rel a c \<Longrightarrow> ok op a \<Longrightarrow> rel (snd (spec op a)) (snd (impl op c))"
begin

lemma run_seq_sim:
  "rel a c \<Longrightarrow> ops_ok spec ok ops a \<Longrightarrow>
     fst (run_seq impl ops c) = fst (run_seq spec ops a) \<and>
     rel (snd (run_seq spec ops a)) (snd (run_seq impl ops c))"
proof (induction ops arbitrary: a c)
  case (Cons op ops)
  then have "fst (impl op c) = fst (spec op a)" "rel (snd (spec op a)) (snd (impl op c))"
    using sim_result sim_state by auto
  with Cons.IH [of "snd (spec op a)" "snd (impl op c)"] Cons.prems(2) show ?case
    by (auto split: prod.splits)
qed simp

end

end
