(* ===== verification/Vector_Props.thy ===== *)
theory Vector_Props
  imports Typed_Storage Data_Refinement
begin

text \<open>
  The storage vector refines a list: an instance of \<open>data_refinement\<close>, as the queue and the unordered
  map are.
\<close>

section \<open>The vector\<close>

locale typed_vector = i: typed_map H "\<lambda>_. True" "\<lambda>_. True" "v_index v" + e: typed_map H "\<lambda>_. True" V "v_elems v"
  for H :: host and V :: "'v \<Rightarrow> bool" and v :: "'v vector" +
  assumes prefixes: "sm_prefix (v_index v) \<noteq> sm_prefix (v_elems v)"

definition holds_list :: "('v \<Rightarrow> bool) \<Rightarrow> 'v vector \<Rightarrow> 'v list \<Rightarrow> mock_env \<Rightarrow> bool" where
  "holds_list V v xs e \<longleftrightarrow> account_wf (me_whoami e) \<and>
     typed (\<lambda>_. True) (\<lambda>_. True) (v_index v) e \<and> typed (\<lambda>_. True) V (v_elems v) e \<and>
     length xs < 2 ^ 64 \<and>
     contents (v_index v) e () = (if xs = [] then None else Some (of_nat (length xs))) \<and>
     (\<forall>i < length xs. contents (v_elems v) e (of_nat i) = Some (xs ! i))"

lemma of_nat_u64_inject: "i < 2 ^ 64 \<Longrightarrow> j < 2 ^ 64 \<Longrightarrow> (of_nat i :: u64) = of_nat j \<longleftrightarrow> i = j"
  by (simp add: word_unat_eq_iff unat_of_nat)

context typed_vector
begin

lemmas prefixes' = prefixes prefixes [symmetric]

lemma index_run:
  assumes "holds_list V v xs e"
  shows "mock_run_query H (item_may_get H (v_index v)) e =
      (Ok (if xs = [] then None else Some (of_nat (length xs))), e)"
    "mock_run_query H (vector_len H v) e = (Ok (of_nat (length xs)), e)"
  using assms i.may_get_run [where e = e and k = "()"]
  by (auto simp: holds_list_def item_may_get_def vector_len_def mock_run_query_qbind andThen_def lift_result_def
      unwrap_or_default_def)

lemma get_run:
  assumes "holds_list V v xs e" "i < length xs"
  shows "mock_run_query H (vector_get H v (of_nat i)) e = (Ok (xs ! i), e)"
    "mock_run_query H (vector_may_get H v (of_nat i)) e = (Ok (Some (xs ! i)), e)"
  using assms e.get_run [where e = e and k = "of_nat i"] e.may_get_run [where e = e and k = "of_nat i"]
  by (auto simp: holds_list_def vector_get_def vector_may_get_def)

lemma push_run:
  assumes "holds_list V v xs e" "V x"
  shows "mock_run H (vector_push H v x) e =
    (Ok (), mock_put (key_bytes (v_index v) ()) (value_bytes (v_index v) (of_nat (length xs) + 1))
              (mock_put (key_bytes (v_elems v) (of_nat (length xs))) (value_bytes (v_elems v) x) e))"
  using assms index_run(1) [OF assms(1)]
  by (auto simp: vector_push_def mock_run_simps andThen_def item_set_def e.set_run i.set_run Let_def
      unwrap_or_default_def)

lemma holds_push:
  assumes "holds_list V v xs e" "V x" "Suc (length xs) < 2 ^ 64"
  shows "holds_list V v (xs @ [x])
    (mock_put (key_bytes (v_index v) ()) (value_bytes (v_index v) (of_nat (length xs) + 1))
       (mock_put (key_bytes (v_elems v) (of_nat (length xs))) (value_bytes (v_elems v) x) e))"
  using assms
  by (auto simp: holds_list_def prefixes' i.contents_put e.contents_put nth_append of_nat_u64_inject
      less_Suc_eq add.commute)

lemma pop_run:
  assumes "holds_list V v xs e"
  shows "mock_run H (vector_pop H v) e =
    (if xs = [] then (Ok None, e)
     else (Ok (Some (last xs)),
           if length xs = 1 then mock_del (key_bytes (v_index v) ()) e
           else mock_put (key_bytes (v_index v) ()) (value_bytes (v_index v) (of_nat (length xs - 1))) e))"
proof (cases "xs = []")
  case True
  then show ?thesis using index_run(1) [OF assms] by (simp add: vector_pop_def mock_run_simps andThen_def lift_result_def)
next
  case False
  then obtain n where n: "length xs = Suc n" by (cases xs) auto
  have one: "(of_nat n :: u64) = 0 \<longleftrightarrow> n = 0"
    using of_nat_u64_inject [of n 0] assms n by (simp add: holds_list_def)
  have get: "mock_run_query H (map_get H (v_elems v) (of_nat n)) e = (Ok (last xs), e)"
    using get_run(1) [OF assms, of n] False n by (simp add: vector_get_def last_conv_nth)
  have "mock_run_query H (item_may_get H (v_index v)) e = (Ok (Some (1 + of_nat n)), e)"
    using index_run(1) [OF assms] False n by simp
  with False get show ?thesis
    by (cases "n = 0") (simp_all add: vector_pop_def mock_run_simps andThen_def get one lift_result_def n
        item_set_def item_remove_def i.set_run i.remove_run)
qed

lemma holds_pop:
  assumes "holds_list V v xs e" "xs \<noteq> []"
  shows "holds_list V v (butlast xs)
    (if length xs = 1 then mock_del (key_bytes (v_index v) ()) e
     else mock_put (key_bytes (v_index v) ()) (value_bytes (v_index v) (of_nat (length xs - 1))) e)"
proof -
  have "butlast xs = [] \<longleftrightarrow> length xs = 1" using assms(2) by (cases xs) auto
  with assms show ?thesis
    by (auto simp: holds_list_def prefixes' i.contents_put i.contents_del nth_butlast)
qed

lemma extend_loop_run:
  assumes "account_wf (me_whoami e)" "\<forall>x \<in> set ys. V x" "n + length ys < 2 ^ 64"
    "typed (\<lambda>_. True) (\<lambda>_. True) (v_index v) e" "typed (\<lambda>_. True) V (v_elems v) e"
  obtains e' where "mock_run H (extend_loop H v ys (of_nat n)) e = (Ok (of_nat (n + length ys)), e')"
    "me_whoami e' = me_whoami e" "contents (v_index v) e' = contents (v_index v) e"
    "typed (\<lambda>_. True) (\<lambda>_. True) (v_index v) e'" "typed (\<lambda>_. True) V (v_elems v) e'"
    "\<forall>i < 2 ^ 64. contents (v_elems v) e' (of_nat i) =
       (if n \<le> i \<and> i < n + length ys then Some (ys ! (i - n)) else contents (v_elems v) e (of_nat i))"
  using assms
proof (induction ys arbitrary: n e thesis)
  case Nil
  show ?case by (rule Nil.prems(1) [of e]) (use Nil.prems in \<open>auto simp: lift_result_def\<close>)
next
  case (Cons y ys)
  let ?e = "mock_put (key_bytes (v_elems v) (of_nat n)) (value_bytes (v_elems v) y) e"
  obtain e' where e': "mock_run H (extend_loop H v ys (of_nat (Suc n))) ?e = (Ok (of_nat (Suc n + length ys)), e')"
    "me_whoami e' = me_whoami ?e" "contents (v_index v) e' = contents (v_index v) ?e"
    "typed (\<lambda>_. True) (\<lambda>_. True) (v_index v) e'" "typed (\<lambda>_. True) V (v_elems v) e'"
    "\<forall>i < 2 ^ 64. contents (v_elems v) e' (of_nat i) =
       (if Suc n \<le> i \<and> i < Suc n + length ys then Some (ys ! (i - Suc n)) else contents (v_elems v) ?e (of_nat i))"
    by (rule Cons.IH [where e = ?e and n = "Suc n"]) (use Cons.prems in \<open>auto simp: prefixes'\<close>)
  have "contents (v_elems v) e' (of_nat i) =
      (if n \<le> i \<and> i < n + length (y # ys) then Some ((y # ys) ! (i - n)) else contents (v_elems v) e (of_nat i))"
    if "i < 2 ^ 64" for i
    using that e'(6) Cons.prems(3,4)
    by (auto simp: e.contents_put of_nat_u64_inject nth_Cons' Suc_diff_le not_le not_less_eq_eq)
  with e' Cons.prems(3) show ?case
    by (intro Cons.prems(1) [of e'])
      (auto simp: mock_run_simps andThen_def e.set_run prefixes' add.commute)
qed

lemma extend_run:
  assumes holds: "holds_list V v xs e" and ys: "\<forall>x \<in> set ys. V x" "length xs + length ys < 2 ^ 64" "xs @ ys \<noteq> []"
  obtains e' where "mock_run H (vector_extend H v ys) e = (Ok (), e')" "holds_list V v (xs @ ys) e'"
proof -
  obtain e' where e': "mock_run H (extend_loop H v ys (of_nat (length xs))) e = (Ok (of_nat (length xs + length ys)), e')"
    "me_whoami e' = me_whoami e" "contents (v_index v) e' = contents (v_index v) e"
    "typed (\<lambda>_. True) (\<lambda>_. True) (v_index v) e'" "typed (\<lambda>_. True) V (v_elems v) e'"
    "\<forall>i < 2 ^ 64. contents (v_elems v) e' (of_nat i) =
       (if length xs \<le> i \<and> i < length xs + length ys then Some (ys ! (i - length xs)) else contents (v_elems v) e (of_nat i))"
    by (rule extend_loop_run [where e = e and ys = ys and n = "length xs"])
      (use holds ys in \<open>auto simp: holds_list_def\<close>)
  let ?e = "mock_put (key_bytes (v_index v) ()) (value_bytes (v_index v) (of_nat (length xs + length ys))) e'"
  have "unwrap_or_default (if xs = [] then None else Some (of_nat (length xs) :: u64)) = of_nat (length xs)"
    by (simp add: unwrap_or_default_def)
  then have "mock_run H (vector_extend H v ys) e = (Ok (), ?e)"
    using index_run(1) [OF holds] e'(1)
    by (simp add: vector_extend_def mock_run_simps andThen_def item_set_def i.set_run del: of_nat_add)
  moreover have "contents (v_elems v) ?e (of_nat i) = Some ((xs @ ys) ! i)" if "i < length xs + length ys" for i
    using e'(6) [rule_format, of i] that holds ys(2) by (auto simp: holds_list_def prefixes' nth_append)
  ultimately show ?thesis using e' holds ys
    by (intro that [of ?e])
      (auto simp: holds_list_def prefixes' i.contents_put simp del: of_nat_add)
qed

text \<open>Extending an empty vector with nothing stores the index 0.\<close>

lemma extend_nothing_run:
  assumes "holds_list V v [] e"
  shows "mock_run H (vector_extend H v []) e =
    (Ok (), mock_put (key_bytes (v_index v) ()) (value_bytes (v_index v) 0) e)"
  using index_run(1) [OF assms]
  by (simp add: vector_extend_def mock_run_simps andThen_def item_set_def i.set_run lift_result_def
      unwrap_or_default_def)

lemma index_zero_run:
  assumes "holds_list V v [] e" "contents (v_elems v) e (- 1) = None"
  defines "e' \<equiv> mock_put (key_bytes (v_index v) ()) (value_bytes (v_index v) 0) e"
  shows "mock_run_query H (vector_len H v) e' = (Ok 0, e')" "mock_run H (vector_pop H v) e' = (Err ERR_NOT_FOUND, e')"
proof -
  have state: "account_wf (me_whoami e')" "typed (\<lambda>_. True) (\<lambda>_. True) (v_index v) e'"
    "typed (\<lambda>_. True) V (v_elems v) e'" "contents (v_index v) e' () = Some 0" "contents (v_elems v) e' (- 1) = None"
    using assms by (simp_all add: holds_list_def prefixes' i.contents_put)
  have idx: "mock_run_query H (item_may_get H (v_index v)) e' = (Ok (Some 0), e')"
    using i.may_get_run [where e = e' and k = "()"] state by (simp add: item_may_get_def)
  then show "mock_run_query H (vector_len H v) e' = (Ok 0, e')"
    by (simp add: vector_len_def mock_run_simps andThen_def lift_result_def unwrap_or_default_def)
  have "mock_run_query H (map_get H (v_elems v) (- 1)) e' = (Err ERR_NOT_FOUND, e')"
    using e.get_run [where e = e' and k = "- 1"] state by simp
  with idx show "mock_run H (vector_pop H v) e' = (Err ERR_NOT_FOUND, e')"
    by (simp add: vector_pop_def mock_run_simps andThen_def)
qed

text \<open>Popping leaves the element stored.\<close>

lemma pop_keeps_element:
  assumes "holds_list V v xs e" "xs \<noteq> []"
  shows "mock_run_query H (vector_may_get H v (of_nat (length xs - 1))) (snd (mock_run H (vector_pop H v) e)) =
    (Ok (Some (last xs)), snd (mock_run H (vector_pop H v) e))"
proof -
  let ?k = "of_nat (length xs - 1) :: u64" and ?e = "snd (mock_run H (vector_pop H v) e)"
  have "contents (v_elems v) e ?k = Some (last xs)" using assms by (simp add: holds_list_def last_conv_nth)
  then have "contents (v_elems v) ?e ?k = Some (last xs)" "account_wf (me_whoami ?e)" "typed (\<lambda>_. True) V (v_elems v) ?e"
    using assms pop_run [OF assms(1)] by (auto simp: holds_list_def prefixes')
  then show ?thesis using e.may_get_run [where e = ?e and k = ?k] by (simp add: vector_may_get_def)
qed

lemma iter_run:
  assumes "holds_list V v xs e"
  shows "mock_run_query H (vector_iter_new H v) e = (Ok \<lparr>vi_index = 0, vi_length = of_nat (length xs)\<rparr>, e)"
    "i < length xs \<Longrightarrow> mock_run_query H (vector_iter_next H v \<lparr>vi_index = of_nat i, vi_length = of_nat (length xs)\<rparr>) e =
       (Ok (Some (Inr (xs ! i)), \<lparr>vi_index = of_nat (Suc i), vi_length = of_nat (length xs)\<rparr>), e)"
    "mock_run_query H (vector_iter_next H v \<lparr>vi_index = of_nat (length xs), vi_length = of_nat (length xs)\<rparr>) e =
       (Ok (None, \<lparr>vi_index = of_nat (length xs), vi_length = of_nat (length xs)\<rparr>), e)"
proof -
  show "mock_run_query H (vector_iter_new H v) e = (Ok \<lparr>vi_index = 0, vi_length = of_nat (length xs)\<rparr>, e)"
    using index_run(2) [OF assms]
    by (simp add: vector_iter_new_def mock_run_simps andThen_def lift_result_def)
  show "mock_run_query H (vector_iter_next H v \<lparr>vi_index = of_nat (length xs), vi_length = of_nat (length xs)\<rparr>) e =
      (Ok (None, \<lparr>vi_index = of_nat (length xs), vi_length = of_nat (length xs)\<rparr>), e)"
    by (simp add: vector_iter_next_def lift_result_def)
  assume "i < length xs"
  moreover have "length xs < 2 ^ 64" using assms by (simp add: holds_list_def)
  ultimately have "\<not> (of_nat (length xs) :: u64) \<le> of_nat i" by (simp add: word_le_nat_alt unat_of_nat)
  then show "mock_run_query H (vector_iter_next H v \<lparr>vi_index = of_nat i, vi_length = of_nat (length xs)\<rparr>) e =
       (Ok (Some (Inr (xs ! i)), \<lparr>vi_index = of_nat (Suc i), vi_length = of_nat (length xs)\<rparr>), e)"
    using get_run(1) [OF assms \<open>i < length xs\<close>]
    by (simp add: vector_iter_next_def mock_run_simps attempt_def lift_result_def add.commute)
qed

end

section \<open>Operations of the vector against those of a list\<close>

text \<open>The items an iterator yields, at most \<open>n\<close> of them.\<close>

primrec drain :: "nat \<Rightarrow> ('it \<Rightarrow> ('r option \<times> 'it) qprog) \<Rightarrow> 'it \<Rightarrow> 'r list qprog" where
  "drain 0 next_item it = QReturn (Inr [])"
| "drain (Suc n) next_item it =
     qbind (next_item it) (\<lambda>(r, it'). case r of
       None \<Rightarrow> QReturn (Inr [])
     | Some x \<Rightarrow> qbind (drain n next_item it') (\<lambda>xs. QReturn (Inr (x # xs))))"

lemma drain_run:
  assumes "\<And>j. j < N \<Longrightarrow> mock_run_query H (next_item (it j)) e = (Ok (Some (r j), it (Suc j)), e)"
    "mock_run_query H (next_item (it N)) e = (Ok (None, it N), e)" "i \<le> N"
  shows "mock_run_query H (drain n next_item (it i)) e = (Ok (map r [i..<min (i + n) N]), e)"
  using assms(3)
proof (induction n arbitrary: i)
  case (Suc n)
  show ?case
  proof (cases "i = N")
    case True
    then show ?thesis using assms(2) by (simp add: mock_run_simps andThen_def lift_result_def)
  next
    case False
    with Suc have "i < N" by simp
    with Suc.IH [of "Suc i"] assms(1) [of i] show ?thesis
      by (simp add: mock_run_simps andThen_def lift_result_def upt_conv_Cons)
  qed
qed (simp add: lift_result_def)

datatype 'v vec_op = VPush 'v | VPop | VLen | VGet u64 | VExtend "'v list" | VIter nat
datatype 'v vec_result = VDone | VElem "'v option" | VNum u64 | VItems "(error_code + 'v) list"

primrec vec_prog :: "host \<Rightarrow> 'v vector \<Rightarrow> 'v vec_op \<Rightarrow> 'v vec_result prog" where
  "vec_prog H v (VPush x) = pbind (vector_push H v x) (\<lambda>_. Return (Inr VDone))"
| "vec_prog H v VPop = pbind (vector_pop H v) (\<lambda>x. Return (Inr (VElem x)))"
| "vec_prog H v VLen = pbind (of_query (vector_len H v)) (\<lambda>n. Return (Inr (VNum n)))"
| "vec_prog H v (VGet i) = pbind (of_query (vector_may_get H v i)) (\<lambda>x. Return (Inr (VElem x)))"
| "vec_prog H v (VExtend ys) = pbind (vector_extend H v ys) (\<lambda>_. Return (Inr VDone))"
| "vec_prog H v (VIter n) =
     pbind (of_query (qbind (vector_iter_new H v) (drain n (vector_iter_next H v)))) (\<lambda>xs. Return (Inr (VItems xs)))"

primrec vec_spec :: "'v vec_op \<Rightarrow> 'v list \<Rightarrow> (error_code, 'v vec_result) outcome \<times> 'v list" where
  "vec_spec (VPush x) xs = (Ok VDone, xs @ [x])"
| "vec_spec VPop xs = (Ok (VElem (if xs = [] then None else Some (last xs))), butlast xs)"
| "vec_spec VLen xs = (Ok (VNum (of_nat (length xs))), xs)"
| "vec_spec (VGet i) xs = (Ok (VElem (Some (xs ! unat i))), xs)"
| "vec_spec (VExtend ys) xs = (Ok VDone, xs @ ys)"
| "vec_spec (VIter n) xs = (Ok (VItems (map Inr (take n xs))), xs)"

primrec vec_op_ok :: "('v \<Rightarrow> bool) \<Rightarrow> 'v vec_op \<Rightarrow> 'v list \<Rightarrow> bool" where
  "vec_op_ok V (VPush x) xs = (V x \<and> Suc (length xs) < 2 ^ 64)"
| "vec_op_ok V VPop xs = True"
| "vec_op_ok V VLen xs = True"
| "vec_op_ok V (VGet i) xs = (unat i < length xs)"
| "vec_op_ok V (VExtend ys) xs = (list_all V ys \<and> length xs + length ys < 2 ^ 64 \<and> xs @ ys \<noteq> [])"
| "vec_op_ok V (VIter n) xs = True"

lemma map_nth_take: "map (\<lambda>i. f (xs ! i)) [0..<min n (length xs)] = map f (take n xs)"
  by (rule nth_equalityI) simp_all

context typed_vector
begin

lemma vec_sim:
  assumes "holds_list V v xs e" "vec_op_ok V op xs"
  shows "fst (mock_run H (vec_prog H v op) e) = fst (vec_spec op xs) \<and>
    holds_list V v (snd (vec_spec op xs)) (snd (mock_run H (vec_prog H v op) e))"
proof (cases op)
  case VPop
  then show ?thesis using assms(1) pop_run [OF assms(1)] holds_pop [OF assms(1)]
    by (cases "xs = []") (simp_all add: mock_run_simps andThen_def lift_result_def)
next
  case (VGet i)
  then show ?thesis using assms get_run(2) [OF assms(1), of "unat i"]
    by (simp add: mock_run_simps andThen_def lift_result_def)
next
  case (VExtend ys)
  with assms(2) have "\<forall>x \<in> set ys. V x" "length xs + length ys < 2 ^ 64" "xs @ ys \<noteq> []"
    by (auto simp: list_all_iff)
  from extend_run [OF assms(1) this] obtain e' where
    "mock_run H (vector_extend H v ys) e = (Ok (), e')" "holds_list V v (xs @ ys) e'" by blast
  with VExtend show ?thesis by (simp add: mock_run_simps andThen_def lift_result_def)
next
  case (VIter n)
  have "mock_run_query H (drain n (vector_iter_next H v) \<lparr>vi_index = of_nat 0, vi_length = of_nat (length xs)\<rparr>) e =
      (Ok (map (\<lambda>i. Inr (xs ! i)) [0..<min (0 + n) (length xs)]), e)"
    by (rule drain_run) (simp_all only: iter_run [OF assms(1)])
  with VIter assms(1) iter_run(1) [OF assms(1)] show ?thesis
    by (simp add: mock_run_simps andThen_def lift_result_def map_nth_take)
qed (use assms push_run [OF assms(1)] holds_push [OF assms(1)] index_run(2) [OF assms(1)] in \<open>simp_all add: mock_run_simps andThen_def lift_result_def\<close>)

end

sublocale typed_vector \<subseteq> vec: data_refinement "\<lambda>op. mock_run H (vec_prog H v op)" vec_spec "holds_list V v" "vec_op_ok V"
  by unfold_locales (simp_all add: vec_sim)

lemma typed_vector_new:
  assumes "host_ok H" "storable V B" "p \<noteq> q"
  shows "typed_vector H V (vector_new H p q B)"
  using assms storable_host [OF assms(1)]
  by (simp add: typed_vector_def typed_vector_axioms_def typed_map_def vector_new_def item_new_def map_new_def)

lemma holds_list_new:
  "account_wf a \<Longrightarrow> holds_list V v [] (mock_new a b)"
  by (simp add: holds_list_def) (simp add: mock_new_def)

end
