(* ===== verification/Queue_Props.thy ===== *)
theory Queue_Props
  imports Vector_Props
begin

text \<open>
  The storage queue refines a list with operations at both ends. The abstract state also counts the
  items taken from the front, which is where the stored front index stands; the indices never wrap
  while fewer than \<open>2 ^ 64\<close> items were pushed.
\<close>

locale typed_queue = f: typed_map H "\<lambda>_. True" "\<lambda>_. True" "q_front q" + b: typed_map H "\<lambda>_. True" "\<lambda>_. True" "q_back q"
    + i: typed_map H "\<lambda>_. True" V "q_items q"
  for H :: host and V :: "'v \<Rightarrow> bool" and q :: "'v queue" +
  assumes prefixes: "sm_prefix (q_front q) \<noteq> sm_prefix (q_back q)" "sm_prefix (q_front q) \<noteq> sm_prefix (q_items q)"
    "sm_prefix (q_back q) \<noteq> sm_prefix (q_items q)"

definition holds_queue :: "('v \<Rightarrow> bool) \<Rightarrow> 'v queue \<Rightarrow> nat \<times> 'v list \<Rightarrow> mock_env \<Rightarrow> bool" where
  "holds_queue V q = (\<lambda>(f, xs) e. account_wf (me_whoami e) \<and>
     typed (\<lambda>_. True) (\<lambda>_. True) (q_front q) e \<and> typed (\<lambda>_. True) (\<lambda>_. True) (q_back q) e \<and>
     typed (\<lambda>_. True) V (q_items q) e \<and> f + length xs < 2 ^ 64 \<and>
     unwrap_or_default (contents (q_front q) e ()) = of_nat f \<and>
     unwrap_or_default (contents (q_back q) e ()) = of_nat (f + length xs) \<and>
     (\<forall>j < length xs. contents (q_items q) e (of_nat (f + j)) = Some (xs ! j)))"

datatype 'v queue_op = QPushBack 'v | QPopFront | QPopBack | QIsEmpty | QIter nat
datatype 'v queue_result = QDone | QElem 'v | QFlag bool | QList "(error_code + 'v) list"

primrec queue_prog :: "host \<Rightarrow> 'v queue \<Rightarrow> 'v queue_op \<Rightarrow> 'v queue_result prog" where
  "queue_prog H q (QPushBack x) = pbind (push_back H q x) (\<lambda>_. Return (Inr QDone))"
| "queue_prog H q QPopFront = pbind (pop_front H q) (\<lambda>x. Return (Inr (QElem x)))"
| "queue_prog H q QPopBack = pbind (pop_back H q) (\<lambda>x. Return (Inr (QElem x)))"
| "queue_prog H q QIsEmpty = pbind (of_query (queue_is_empty H q)) (\<lambda>x. Return (Inr (QFlag x)))"
| "queue_prog H q (QIter n) =
     pbind (of_query (qbind (queue_iter_new H q) (drain n (queue_iter_next H q)))) (\<lambda>xs. Return (Inr (QList xs)))"

fun queue_spec :: "'v queue_op \<Rightarrow> nat \<times> 'v list \<Rightarrow> (error_code, 'v queue_result) outcome \<times> nat \<times> 'v list" where
  "queue_spec (QPushBack x) (f, xs) = (Ok QDone, (f, xs @ [x]))"
| "queue_spec QPopFront (f, xs) =
     (if xs = [] then (Err ERR_EMPTY, (f, xs)) else (Ok (QElem (hd xs)), (Suc f, tl xs)))"
| "queue_spec QPopBack (f, xs) =
     (if xs = [] then (Err ERR_EMPTY, (f, xs)) else (Ok (QElem (last xs)), (f, butlast xs)))"
| "queue_spec QIsEmpty (f, xs) = (Ok (QFlag (xs = [])), (f, xs))"
| "queue_spec (QIter n) (f, xs) = (Ok (QList (map Inr (take n xs))), (f, xs))"

fun queue_op_ok :: "('v \<Rightarrow> bool) \<Rightarrow> 'v queue_op \<Rightarrow> nat \<times> 'v list \<Rightarrow> bool" where
  "queue_op_ok V (QPushBack x) (f, xs) = (V x \<and> Suc (f + length xs) < 2 ^ 64)"
| "queue_op_ok V _ _ = True"

context typed_queue
begin

lemmas prefixes' = prefixes prefixes [symmetric]

lemma bounds_run:
  assumes "holds_queue V q (f, xs) e"
  shows "mock_run_query H (get_front H q) e = (Ok (of_nat f), e)"
    "mock_run_query H (get_back H q) e = (Ok (of_nat (f + length xs)), e)"
    "(of_nat f :: u64) = of_nat (f + length xs) \<longleftrightarrow> xs = []"
    "(of_nat (f + length xs) :: u64) = of_nat f \<longleftrightarrow> xs = []"
proof -
  show "mock_run_query H (get_front H q) e = (Ok (of_nat f), e)"
    "mock_run_query H (get_back H q) e = (Ok (of_nat (f + length xs)), e)"
    using assms f.may_get_run [where e = e and k = "()"] b.may_get_run [where e = e and k = "()"]
    by (auto simp: holds_queue_def get_front_def get_back_def item_may_get_def mock_run_simps andThen_def lift_result_def)
  have "f + length xs < 2 ^ 64" "f < 2 ^ 64" using assms by (auto simp: holds_queue_def)
  then show "(of_nat f :: u64) = of_nat (f + length xs) \<longleftrightarrow> xs = []"
    "(of_nat (f + length xs) :: u64) = of_nat f \<longleftrightarrow> xs = []"
    using of_nat_u64_inject [of f "f + length xs"] of_nat_u64_inject [of "f + length xs" f]
    by (auto simp del: of_nat_add)
qed

lemma item_run:
  assumes "holds_queue V q (f, xs) e" "j < length xs"
  shows "mock_run_query H (map_get H (q_items q) (of_nat (f + j))) e = (Ok (xs ! j), e)"
    "mock_run_query H (map_may_get H (q_items q) (of_nat (f + j))) e = (Ok (Some (xs ! j)), e)"
  using assms i.get_run [where e = e and k = "of_nat (f + j)"] i.may_get_run [where e = e and k = "of_nat (f + j)"]
  by (auto simp: holds_queue_def simp del: of_nat_add)

lemma push_sim:
  assumes "holds_queue V q (f, xs) e" "V x" "Suc (f + length xs) < 2 ^ 64"
  obtains e' where "mock_run H (push_back H q x) e = (Ok (), e')" "holds_queue V q (f, xs @ [x]) e'"
proof -
  let ?e = "mock_put (key_bytes (q_back q) ()) (value_bytes (q_back q) (of_nat (f + length xs) + 1))
      (mock_put (key_bytes (q_items q) (of_nat (f + length xs))) (value_bytes (q_items q) x) e)"
  have "mock_run H (push_back H q x) e = (Ok (), ?e)"
    using bounds_run(2) [OF assms(1)] assms(2)
    by (simp add: push_back_def mock_run_simps andThen_def i.set_run item_set_def b.set_run)
  moreover have "contents (q_items q) ?e (of_nat (f + j)) = Some ((xs @ [x]) ! j)" if "j < Suc (length xs)" for j
    using that assms of_nat_u64_inject [of "f + j" "f + length xs"]
    by (auto simp: holds_queue_def prefixes' i.contents_put nth_append less_Suc_eq simp del: of_nat_add)
  moreover have "of_nat (f + length (xs @ [x])) = (of_nat (f + length xs) + 1 :: u64)" by simp
  ultimately show ?thesis using assms
    by (intro that [of ?e])
      (auto simp: holds_queue_def prefixes' b.contents_put unwrap_or_default_def simp del: of_nat_add)
qed

lemma pop_front_sim:
  assumes "holds_queue V q (f, x # xs) e"
  obtains e' where "mock_run H (pop_front H q) e = (Ok x, e')" "holds_queue V q (Suc f, xs) e'"
proof -
  let ?e = "mock_put (key_bytes (q_front q) ()) (value_bytes (q_front q) (of_nat f + 1))
      (mock_del (key_bytes (q_items q) (of_nat f)) e)"
  have "mock_run H (pop_front H q) e = (Ok x, ?e)"
    using bounds_run [OF assms] item_run(1) [OF assms, of 0]
    by (simp add: pop_front_def mock_run_simps andThen_def i.remove_run item_set_def f.set_run lift_result_def
        del: of_nat_add)
  moreover have "contents (q_items q) ?e (of_nat (Suc f + j)) = Some (xs ! j)" if "j < length xs" for j
  proof -
    have "contents (q_items q) e (of_nat (f + Suc j)) = Some ((x # xs) ! Suc j)" "f + Suc j < 2 ^ 64"
      using that assms by (auto simp: holds_queue_def simp del: of_nat_add of_nat_Suc)
    then show ?thesis using of_nat_u64_inject [of "f + Suc j" f]
      by (simp add: prefixes' i.contents_del del: of_nat_add of_nat_Suc)
  qed
  ultimately show ?thesis using assms
    by (intro that [of ?e])
      (auto simp: holds_queue_def prefixes' f.contents_put unwrap_or_default_def add_ac)
qed

lemma pop_back_sim:
  assumes "holds_queue V q (f, xs @ [x]) e"
  obtains e' where "mock_run H (pop_back H q) e = (Ok x, e')" "holds_queue V q (f, xs) e'"
proof -
  let ?k = "of_nat (f + length xs) :: u64"
  let ?e = "mock_put (key_bytes (q_back q) ()) (value_bytes (q_back q) ?k) (mock_del (key_bytes (q_items q) ?k) e)"
  have k: "of_nat (f + length (xs @ [x])) - 1 = ?k" by simp
  have "mock_run_query H (map_get H (q_items q) ?k) e = (Ok x, e)"
    using item_run(1) [OF assms, of "length xs"] by (simp del: of_nat_add)
  then have "mock_run H (pop_back H q) e = (Ok x, ?e)"
    using bounds_run [OF assms]
    by (simp add: pop_back_def mock_run_simps andThen_def i.remove_run item_set_def b.set_run lift_result_def
        Let_def k del: of_nat_add length_append)
  moreover have "contents (q_items q) ?e (of_nat (f + j)) = Some (xs ! j)" if "j < length xs" for j
  proof -
    have "contents (q_items q) e (of_nat (f + j)) = Some ((xs @ [x]) ! j)" "f + length xs < 2 ^ 64"
      using that assms by (auto simp: holds_queue_def simp del: of_nat_add)
    then show ?thesis using of_nat_u64_inject [of "f + j" "f + length xs"] that
      by (simp add: prefixes' i.contents_del nth_append del: of_nat_add)
  qed
  ultimately show ?thesis using assms
    by (intro that [of ?e])
      (auto simp: holds_queue_def prefixes' b.contents_put unwrap_or_default_def simp del: of_nat_add)
qed

lemma iter_run:
  assumes "holds_queue V q (f, xs) e"
  defines "it j \<equiv> \<lparr>qi_index = of_nat (f + j), qi_end = of_nat (f + length xs)\<rparr>"
  shows "mock_run_query H (queue_iter_new H q) e = (Ok (it 0), e)"
    "j < length xs \<Longrightarrow> mock_run_query H (queue_iter_next H q (it j)) e = (Ok (Some (Inr (xs ! j)), it (Suc j)), e)"
    "mock_run_query H (queue_iter_next H q (it (length xs))) e = (Ok (None, it (length xs)), e)"
proof -
  show "mock_run_query H (queue_iter_new H q) e = (Ok (it 0), e)"
    using bounds_run [OF assms(1)] by (simp add: queue_iter_new_def mock_run_simps andThen_def lift_result_def it_def)
  show "mock_run_query H (queue_iter_next H q (it (length xs))) e = (Ok (None, it (length xs)), e)"
    by (simp add: queue_iter_next_def lift_result_def it_def)
  assume j: "j < length xs"
  moreover have "f + length xs < 2 ^ 64" using assms(1) by (simp add: holds_queue_def)
  ultimately have "\<not> (of_nat (f + length xs) :: u64) \<le> of_nat (f + j)"
    by (simp add: word_le_nat_alt unat_of_nat del: of_nat_add)
  then show "mock_run_query H (queue_iter_next H q (it j)) e = (Ok (Some (Inr (xs ! j)), it (Suc j)), e)"
    using item_run(2) [OF assms(1) j]
    by (simp add: queue_iter_next_def mock_run_simps attempt_def lift_result_def it_def Let_def add_ac)
qed

lemma queue_sim:
  assumes "holds_queue V q s e" "queue_op_ok V op s"
  shows "fst (mock_run H (queue_prog H q op) e) = fst (queue_spec op s) \<and>
    holds_queue V q (snd (queue_spec op s)) (snd (mock_run H (queue_prog H q op) e))"
proof -
  obtain f xs where s: "s = (f, xs)" by (cases s)
  note holds = assms(1) [unfolded s] and run = mock_run_simps andThen_def lift_result_def
  show ?thesis
  proof (cases op)
    case (QPushBack x)
    with assms(2) have "V x" "Suc (f + length xs) < 2 ^ 64" by (simp_all add: s)
    from push_sim [OF holds this] obtain e' where
      "mock_run H (push_back H q x) e = (Ok (), e')" "holds_queue V q (f, xs @ [x]) e'" by blast
    with QPushBack show ?thesis by (simp add: s run)
  next
    case QPopFront
    show ?thesis
    proof (cases xs)
      case Nil
      with QPopFront holds bounds_run [OF holds] show ?thesis by (simp add: s pop_front_def run del: of_nat_add)
    next
      case (Cons x ys)
      from pop_front_sim [OF holds [unfolded Cons]] obtain e' where
        "mock_run H (pop_front H q) e = (Ok x, e')" "holds_queue V q (Suc f, ys) e'" by blast
      with QPopFront Cons show ?thesis by (simp add: s run)
    qed
  next
    case QPopBack
    show ?thesis
    proof (cases xs rule: rev_cases)
      case Nil
      with QPopBack holds bounds_run [OF holds] show ?thesis by (simp add: s pop_back_def run del: of_nat_add)
    next
      case (snoc ys x)
      from pop_back_sim [OF holds [unfolded snoc]] obtain e' where
        "mock_run H (pop_back H q) e = (Ok x, e')" "holds_queue V q (f, ys) e'" by blast
      with QPopBack snoc show ?thesis by (simp add: s run)
    qed
  next
    case QIsEmpty
    with holds bounds_run [OF holds] show ?thesis by (simp add: s queue_is_empty_def run del: of_nat_add)
  next
    case (QIter n)
    have "mock_run_query H (drain n (queue_iter_next H q) \<lparr>qi_index = of_nat (f + 0), qi_end = of_nat (f + length xs)\<rparr>) e =
        (Ok (map (\<lambda>j. Inr (xs ! j)) [0..<min (0 + n) (length xs)]), e)"
      by (rule drain_run [where it = "\<lambda>j. \<lparr>qi_index = of_nat (f + j), qi_end = of_nat (f + length xs)\<rparr>"])
        (simp_all only: iter_run [OF holds])
    with QIter holds iter_run(1) [OF holds] show ?thesis by (simp add: s run map_nth_take)
  qed
qed

end

sublocale typed_queue \<subseteq> que: data_refinement "\<lambda>op. mock_run H (queue_prog H q op)" queue_spec "holds_queue V q" "queue_op_ok V"
  by unfold_locales (simp_all add: queue_sim)

lemma typed_queue_new:
  assumes "host_ok H" "storable V B" "distinct [p, r, s]"
  shows "typed_queue H V (queue_new H p r s B)"
  using assms storable_host [OF assms(1)]
  by (simp add: typed_queue_def typed_queue_axioms_def typed_map_def queue_new_def item_new_def map_new_def)

lemma holds_queue_new: "account_wf a \<Longrightarrow> holds_queue V q (0, []) (mock_new a b)"
  by (simp add: holds_queue_def unwrap_or_default_def) (simp add: mock_new_def)

end
