(* ===== verification/Unordered_Map_Props.thy ===== *)
theory Unordered_Map_Props
  imports Vector_Props "HOL-Library.Multiset"
begin

text \<open>
  The unordered map refines an association list with distinct keys, in the order of iteration: a new
  key goes to the end, a removed one is replaced by the last. As a map from keys to values the list
  changes as an ordinary map does.
\<close>

section \<open>Swap removal on lists\<close>

definition swap_delete :: "'k \<Rightarrow> ('k \<times> 'v) list \<Rightarrow> ('k \<times> 'v) list" where
  "swap_delete k kvs =
     (if k \<in> fst ` set kvs then butlast (map (\<lambda>p. if fst p = k then last kvs else p) kvs) else kvs)"

lemma last_length_Suc: "length xs = Suc n \<Longrightarrow> last xs = xs ! n"
  by (cases xs rule: rev_cases) auto

lemma swap_delete_index:
  assumes "distinct (map fst kvs)" "i < length kvs" "fst (kvs ! i) = k"
  shows "swap_delete k kvs = butlast (kvs[i := last kvs])"
proof -
  have "map (\<lambda>p. if fst p = k then last kvs else p) kvs = kvs[i := last kvs]"
    using assms by (intro nth_equalityI) (auto simp: nth_list_update distinct_conv_nth)
  moreover have "k \<in> fst ` set kvs" using assms by force
  ultimately show ?thesis by (simp add: swap_delete_def)
qed

lemma mset_swap_delete:
  assumes "distinct (map fst kvs)" "i < length kvs" "fst (kvs ! i) = k"
  shows "mset (swap_delete k kvs) = mset kvs - {#kvs ! i#}"
proof -
  have ne: "kvs \<noteq> []" using assms by auto
  define xs where "xs = butlast kvs"
  have kvs: "kvs = xs @ [last kvs]" using ne by (simp add: xs_def)
  show ?thesis
  proof (cases "i < length xs")
    case True
    have "butlast (kvs[i := last kvs]) = xs[i := last kvs]"
      by (subst kvs) (simp add: list_update_append True butlast_append)
    moreover have "kvs ! i = xs ! i" by (subst kvs) (simp add: nth_append True)
    moreover have "mset kvs = add_mset (last kvs) (mset xs)" by (subst kvs) simp
    moreover have "xs ! i \<in># mset xs" using True by simp
    ultimately show ?thesis using True by (simp add: swap_delete_index [OF assms] mset_update)
  next
    case False
    with kvs assms(2) have i: "i = length xs" by (metis length_append_singleton less_Suc_eq)
    then have "kvs ! i = last kvs" using kvs by (metis nth_append_length)
    moreover from this have "kvs[i := last kvs] = kvs" by (metis list_update_id)
    moreover have "mset kvs = add_mset (last kvs) (mset xs)" by (subst kvs) simp
    ultimately show ?thesis by (simp add: swap_delete_index [OF assms] xs_def)
  qed
qed

lemma swap_delete_keys:
  assumes "distinct (map fst kvs)" "i < length kvs" "fst (kvs ! i) = k"
  shows "distinct (map fst (swap_delete k kvs))" "set (swap_delete k kvs) = set kvs - {kvs ! i}"
    "fst ` set (swap_delete k kvs) = fst ` set kvs - {k}"
proof -
  have in_kvs: "kvs ! i \<in># mset kvs" using assms(2) by simp
  have dist: "distinct kvs" using assms(1) by (rule distinct_map [THEN iffD1, THEN conjunct1])
  note m = mset_swap_delete [OF assms]
  have kvs: "mset kvs = mset (kvs ! i # swap_delete k kvs)" using m in_kvs by simp
  then have "image_mset fst (mset kvs) = image_mset fst (mset (kvs ! i # swap_delete k kvs))" by (rule arg_cong)
  then have keys: "mset (map fst kvs) = mset (k # map fst (swap_delete k kvs))" using assms(3) by simp
  have "distinct (k # map fst (swap_delete k kvs))"
    using mset_eq_imp_distinct_iff [OF keys] assms(1) by blast
  moreover have "set (map fst kvs) = set (k # map fst (swap_delete k kvs))" using keys by (rule mset_eq_setD)
  ultimately show "distinct (map fst (swap_delete k kvs))" "fst ` set (swap_delete k kvs) = fst ` set kvs - {k}"
    by auto
  have "distinct (kvs ! i # swap_delete k kvs)" using mset_eq_imp_distinct_iff [OF kvs] dist by blast
  moreover have "set kvs = set (kvs ! i # swap_delete k kvs)" using kvs by (rule mset_eq_setD)
  ultimately show "set (swap_delete k kvs) = set kvs - {kvs ! i}" by auto
qed

lemma map_of_swap_delete:
  assumes "distinct (map fst kvs)"
  shows "map_of (swap_delete k kvs) = (map_of kvs)(k := None)"
proof (cases "k \<in> fst ` set kvs")
  case True
  then obtain i where i: "i < length kvs" "fst (kvs ! i) = k" by (auto simp: in_set_conv_nth)
  note keys = swap_delete_keys [OF assms i]
  have "map_of (swap_delete k kvs) k' = Some x \<longleftrightarrow> ((map_of kvs)(k := None)) k' = Some x" for k' x
  proof -
    have "(k', x) = kvs ! i \<longleftrightarrow> k' = k" if "(k', x) \<in> set kvs"
      using that i assms by (metis eq_key_imp_eq_value fst_conv nth_mem prod.collapse)
    then show ?thesis using keys(1,2) assms i by (auto simp: map_of_eq_Some_iff)
  qed
  then show ?thesis by (metis not_Some_eq ext)
next
  case False
  then have "map_of kvs k = None" by (simp add: map_of_eq_None_iff)
  with False show ?thesis by (auto simp: swap_delete_def)
qed

section \<open>The unordered map\<close>

locale typed_unordered_map = idx: typed_map H K "\<lambda>_. True" "um_index_map m" + vals: typed_map H K V "um_values_map m"
    + kv: typed_vector H K "um_keys_vec m"
  for H :: host and K :: "'k \<Rightarrow> bool" and V :: "'v \<Rightarrow> bool" and m :: "('k, 'v) unordered_map" +
  assumes prefixes: "sm_prefix (um_index_map m) \<noteq> sm_prefix (um_values_map m)"
    "sm_prefix (um_index_map m) \<noteq> sm_prefix (v_index (um_keys_vec m))"
    "sm_prefix (um_index_map m) \<noteq> sm_prefix (v_elems (um_keys_vec m))"
    "sm_prefix (um_values_map m) \<noteq> sm_prefix (v_index (um_keys_vec m))"
    "sm_prefix (um_values_map m) \<noteq> sm_prefix (v_elems (um_keys_vec m))"

definition indexed :: "('k \<Rightarrow> bool) \<Rightarrow> ('k, u64) smap \<Rightarrow> 'k list \<Rightarrow> mock_env \<Rightarrow> bool" where
  "indexed K m ks e \<longleftrightarrow> (\<forall>i < length ks. contents m e (ks ! i) = Some (of_nat i)) \<and>
     (\<forall>k. K k \<longrightarrow> k \<notin> set ks \<longrightarrow> contents m e k = None)"

definition holds_alist ::
    "('k \<Rightarrow> bool) \<Rightarrow> ('v \<Rightarrow> bool) \<Rightarrow> ('k, 'v) unordered_map \<Rightarrow> ('k \<times> 'v) list \<Rightarrow> mock_env \<Rightarrow> bool" where
  "holds_alist K V m kvs e \<longleftrightarrow> holds_list K (um_keys_vec m) (map fst kvs) e \<and>
     typed K (\<lambda>_. True) (um_index_map m) e \<and> typed K V (um_values_map m) e \<and>
     distinct (map fst kvs) \<and> (\<forall>(k, v) \<in> set kvs. K k \<and> V v) \<and>
     indexed K (um_index_map m) (map fst kvs) e \<and>
     (\<forall>k. K k \<longrightarrow> contents (um_values_map m) e k = map_of kvs k)"

datatype ('k, 'v) um_op = UInsert 'k 'v | URemove 'k | UGet 'k | ULen | UIter nat
  | UUpdate 'k "'v option \<Rightarrow> error_code + 'v"
datatype ('k, 'v) um_result = UValue "'v option" | UNum u64 | UItems "(error_code + 'k \<times> 'v) list"

primrec um_prog :: "host \<Rightarrow> ('k, 'v) unordered_map \<Rightarrow> ('k, 'v) um_op \<Rightarrow> ('k, 'v) um_result prog" where
  "um_prog H m (UInsert k v) = pbind (um_insert H m k v) (\<lambda>x. Return (Inr (UValue x)))"
| "um_prog H m (URemove k) = pbind (um_remove H m k) (\<lambda>x. Return (Inr (UValue x)))"
| "um_prog H m (UGet k) = pbind (of_query (um_may_get H m k)) (\<lambda>x. Return (Inr (UValue x)))"
| "um_prog H m ULen = pbind (of_query (um_len H m)) (\<lambda>n. Return (Inr (UNum n)))"
| "um_prog H m (UIter n) =
     pbind (of_query (qbind (um_iter_new H m) (drain n (um_iter_next H m)))) (\<lambda>xs. Return (Inr (UItems xs)))"
| "um_prog H m (UUpdate k f) = pbind (um_update H m k f) (\<lambda>x. Return (Inr (UValue (Some x))))"

primrec um_spec ::
    "('k, 'v) um_op \<Rightarrow> ('k \<times> 'v) list \<Rightarrow> (error_code, ('k, 'v) um_result) outcome \<times> ('k \<times> 'v) list" where
  "um_spec (UInsert k v) kvs = (Ok (UValue (map_of kvs k)), AList.update k v kvs)"
| "um_spec (URemove k) kvs = (Ok (UValue (map_of kvs k)), swap_delete k kvs)"
| "um_spec (UGet k) kvs = (Ok (UValue (map_of kvs k)), kvs)"
| "um_spec ULen kvs = (Ok (UNum (of_nat (length kvs))), kvs)"
| "um_spec (UIter n) kvs = (Ok (UItems (map Inr (take n kvs))), kvs)"
| "um_spec (UUpdate k f) kvs =
     (case f (map_of kvs k) of
        Inl c \<Rightarrow> (Err c, kvs)
      | Inr v \<Rightarrow> (Ok (UValue (Some v)), AList.update k v kvs))"

primrec um_op_ok :: "('k \<Rightarrow> bool) \<Rightarrow> ('v \<Rightarrow> bool) \<Rightarrow> ('k, 'v) um_op \<Rightarrow> ('k \<times> 'v) list \<Rightarrow> bool" where
  "um_op_ok K V (UInsert k v) kvs = (K k \<and> V v \<and> Suc (length kvs) < 2 ^ 64)"
| "um_op_ok K V (URemove k) kvs = K k"
| "um_op_ok K V (UGet k) kvs = K k"
| "um_op_ok K V ULen kvs = True"
| "um_op_ok K V (UIter n) kvs = True"
| "um_op_ok K V (UUpdate k f) kvs =
     (K k \<and> Suc (length kvs) < 2 ^ 64 \<and> (case f (map_of kvs k) of Inl _ \<Rightarrow> True | Inr v \<Rightarrow> V v))"

text \<open>The effect on an ordinary map.\<close>

primrec um_effect :: "('k, 'v) um_op \<Rightarrow> ('k \<rightharpoonup> 'v) \<Rightarrow> ('k \<rightharpoonup> 'v)" where
  "um_effect (UInsert k v) f = f(k \<mapsto> v)"
| "um_effect (URemove k) f = f(k := None)"
| "um_effect (UGet k) f = f"
| "um_effect ULen f = f"
| "um_effect (UIter n) f = f"
| "um_effect (UUpdate k g) f = (case g (f k) of Inl _ \<Rightarrow> f | Inr v \<Rightarrow> f(k \<mapsto> v))"

lemma um_spec_effect:
  assumes "distinct (map fst kvs)"
  shows "distinct (map fst (snd (um_spec op kvs)))" "map_of (snd (um_spec op kvs)) = um_effect op (map_of kvs)"
proof -
  have "distinct (map fst (swap_delete k kvs))" for k
  proof (cases "k \<in> fst ` set kvs")
    case True
    then obtain i where "i < length kvs" "fst (kvs ! i) = k" by (auto simp: in_set_conv_nth)
    from swap_delete_keys(1) [OF assms this] show ?thesis .
  qed (simp add: swap_delete_def assms)
  then show "distinct (map fst (snd (um_spec op kvs)))"
    using assms by (cases op) (auto simp: distinct_update split: sum.splits)
  show "map_of (snd (um_spec op kvs)) = um_effect op (map_of kvs)"
    using assms by (cases op) (auto simp: map_of_swap_delete update_conv' split: sum.splits)
qed

lemma um_run_effect:
  "distinct (map fst kvs) \<Longrightarrow>
     distinct (map fst (snd (run_seq um_spec ops kvs))) \<and>
     map_of (snd (run_seq um_spec ops kvs)) = fold um_effect ops (map_of kvs)"
proof (induction ops arbitrary: kvs)
  case (Cons op ops)
  note step = um_spec_effect [OF Cons.prems, of op]
  show ?case using Cons.IH [OF step(1)] step(2) by (simp add: case_prod_unfold)
qed simp

lemma update_alist_fresh: "k \<notin> fst ` set kvs \<Longrightarrow> AList.update k v kvs = kvs @ [(k, v)]"
  by (induction kvs) auto

lemma map_fst_update_present: "k \<in> fst ` set kvs \<Longrightarrow> map fst (AList.update k v kvs) = map fst kvs"
  by (induction kvs) auto

lemma set_update_alist: "x \<in> set (AList.update k v kvs) \<Longrightarrow> x = (k, v) \<or> x \<in> set kvs"
  by (induction kvs) (auto split: if_splits)

text \<open>Writes under other prefixes leave a vector alone; a write at an index of it replaces the
  element.\<close>

lemma holds_list_frame:
  assumes "sm_prefix n \<noteq> sm_prefix (v_index v)" "sm_prefix n \<noteq> sm_prefix (v_elems v)"
  shows "holds_list V v xs (mock_put (key_bytes n k) b e) = holds_list V v xs e"
    "holds_list V v xs (mock_del (key_bytes n k) e) = holds_list V v xs e"
  using assms by (simp_all add: holds_list_def)

lemma indexed_frame:
  assumes "sm_prefix n \<noteq> sm_prefix m"
  shows "indexed K m ks (mock_put (key_bytes n k) b e) = indexed K m ks e"
    "indexed K m ks (mock_del (key_bytes n k) e) = indexed K m ks e"
  using assms by (simp_all add: indexed_def)

context typed_vector
begin

lemma holds_update:
  assumes "holds_list V v xs e" "i < length xs" "V x"
  shows "holds_list V v (xs[i := x]) (mock_put (key_bytes (v_elems v) (of_nat i)) (value_bytes (v_elems v) x) e)"
  using assms by (auto simp: holds_list_def prefixes' e.contents_put nth_list_update of_nat_u64_inject)

end

context typed_unordered_map
begin

lemmas prefs = prefixes prefixes [symmetric] kv.prefixes'
lemmas frames = holds_list_frame indexed_frame

lemma keys_K: "holds_alist K V m kvs e \<Longrightarrow> k \<in> fst ` set kvs \<Longrightarrow> K k"
  by (auto simp: holds_alist_def)

lemma nth_key_K: "holds_alist K V m kvs e \<Longrightarrow> i < length kvs \<Longrightarrow> K (fst (kvs ! i))"
  by (blast intro: keys_K imageI nth_mem)

lemma lookup_run:
  assumes "holds_alist K V m kvs e" "K k"
  shows "mock_run_query H (map_may_get H (um_values_map m) k) e = (Ok (map_of kvs k), e)"
    "mock_run_query H (map_get H (um_values_map m) k) e = (of_result (ok_or ERR_NOT_FOUND (map_of kvs k)), e)"
    "mock_run_query H (map_may_get H (um_index_map m) k) e = (Ok (contents (um_index_map m) e k), e)"
    "contents (um_index_map m) e k = None \<longleftrightarrow> map_of kvs k = None"
proof -
  have wf: "account_wf (me_whoami e)" using assms by (simp add: holds_alist_def holds_list_def)
  show "mock_run_query H (map_may_get H (um_values_map m) k) e = (Ok (map_of kvs k), e)"
    "mock_run_query H (map_get H (um_values_map m) k) e = (of_result (ok_or ERR_NOT_FOUND (map_of kvs k)), e)"
    "mock_run_query H (map_may_get H (um_index_map m) k) e = (Ok (contents (um_index_map m) e k), e)"
    using assms wf vals.may_get_run [of k e] vals.get_run [of k e] idx.may_get_run [of k e]
    by (auto simp: holds_alist_def)
  show "contents (um_index_map m) e k = None \<longleftrightarrow> map_of kvs k = None"
  proof (cases "k \<in> fst ` set kvs")
    case True
    then obtain i where "i < length kvs" "fst (kvs ! i) = k" by (auto simp: in_set_conv_nth)
    with assms(1) have "contents (um_index_map m) e k = Some (of_nat i)"
      by (auto simp: holds_alist_def indexed_def)
    with True show ?thesis by (simp add: map_of_eq_None_iff)
  next
    case False
    with assms show ?thesis by (auto simp: holds_alist_def indexed_def map_of_eq_None_iff)
  qed
qed

lemma insert_sim:
  assumes holds: "holds_alist K V m kvs e" and ok: "K k" "V v" "Suc (length kvs) < 2 ^ 64"
  obtains e' where "mock_run H (um_insert H m k v) e = (Ok (map_of kvs k), e')"
    "holds_alist K V m (AList.update k v kvs) e'"
proof (cases "map_of kvs k")
  case (Some old)
  then have present: "k \<in> fst ` set kvs" by (metis map_of_eq_None_iff option.discI)
  let ?e = "mock_put (key_bytes (um_values_map m) k) (value_bytes (um_values_map m) v) e"
  have "mock_run H (um_insert H m k v) e = (Ok (Some old), ?e)"
    using lookup_run [OF holds ok(1)] Some
    by (auto simp: um_insert_def mock_run_simps andThen_def vals.set_run ok lift_result_def)
  moreover have "holds_alist K V m (AList.update k v kvs) ?e"
    using holds ok present
    by (auto simp: holds_alist_def frames prefs map_fst_update_present distinct_update vals.contents_put
        update_conv' dest!: set_update_alist)
  ultimately show ?thesis using Some that by simp
next
  case None
  then have fresh: "k \<notin> fst ` set kvs" by (simp add: map_of_eq_None_iff)
  let ?n = "of_nat (length kvs) :: u64" and ?v = "um_keys_vec m"
  let ?e1 = "mock_put (key_bytes (v_index ?v) ()) (value_bytes (v_index ?v) (?n + 1))
      (mock_put (key_bytes (v_elems ?v) ?n) (value_bytes (v_elems ?v) k) e)"
  let ?e = "mock_put (key_bytes (um_values_map m) k) (value_bytes (um_values_map m) v)
      (mock_put (key_bytes (um_index_map m) k) (value_bytes (um_index_map m) ?n) ?e1)"
  have list: "holds_list K ?v (map fst kvs) e" using holds by (simp add: holds_alist_def)
  have "mock_run H (um_insert H m k v) e = (Ok None, ?e)"
    using lookup_run [OF holds ok(1)] None kv.index_run(2) [OF list] kv.push_run [OF list ok(1)]
    by (auto simp: um_insert_def mock_run_simps andThen_def vals.set_run idx.set_run ok lift_result_def)
  moreover have "holds_list K ?v (map fst kvs @ [k]) ?e1"
    using kv.holds_push [OF list ok(1)] ok(3) by simp
  moreover have "fst (kvs ! i) \<noteq> k" if "i < length kvs" for i using fresh that by force
  then have "indexed K (um_index_map m) (map fst kvs @ [k]) ?e"
    using holds ok fresh nth_key_K [OF holds]
    by (auto simp: holds_alist_def indexed_def prefs idx.contents_put nth_append less_Suc_eq)
  ultimately show ?thesis using holds ok fresh None
    by (intro that [of ?e])
      (auto simp: holds_alist_def frames prefs update_alist_fresh vals.contents_put map_of_append
        map_add_def split: option.splits)
qed

lemma remove_absent:
  assumes "holds_alist K V m kvs e" "K k" "map_of kvs k = None"
  shows "mock_run H (um_remove H m k) e = (Ok None, e)"
  using lookup_run [OF assms(1,2)] assms(3) by (simp add: um_remove_def mock_run_simps andThen_def lift_result_def)

text \<open>The state when \<open>um_remove\<close> reaches the swap: the index and the value of the key are gone.\<close>

lemma swap_run:
  assumes holds: "holds_alist K V m kvs e" and i: "i < length kvs" "fst (kvs ! i) = k"
  defines "e1 \<equiv> mock_del (key_bytes (um_values_map m) k) (mock_del (key_bytes (um_index_map m) k) e)"
    and "lk \<equiv> fst (last kvs)" and "v \<equiv> um_keys_vec m"
  shows "mock_run H (swap_remove H m (of_nat i) (of_nat (length kvs) - 1)) e1 =
    (Ok (), if Suc i < length kvs
       then mock_put (key_bytes (um_index_map m) lk) (value_bytes (um_index_map m) (of_nat i))
              (mock_put (key_bytes (v_elems v) (of_nat i)) (value_bytes (v_elems v) lk) e1)
       else e1)"
proof -
  obtain n where n: "length kvs = Suc n" using i by (cases kvs) auto
  have list: "holds_list K v (map fst kvs) e1"
    using holds by (simp add: holds_alist_def e1_def frames prefs v_def)
  have lt: "(of_nat i :: u64) < of_nat n \<longleftrightarrow> i < n"
    using list n i by (simp add: holds_list_def word_less_nat_alt unat_of_nat)
  have lk: "map fst kvs ! n = lk" "K lk"
    using n nth_key_K [OF holds, of n] by (auto simp: lk_def last_length_Suc)
  have "mock_run_query H (vector_get H v (of_nat n)) e1 = (Ok lk, e1)"
    using kv.get_run(1) [OF list [unfolded v_def], of n] n lk by (simp add: v_def)
  then show ?thesis using lk(2)
    by (auto simp: swap_remove_def n lt mock_run_simps andThen_def kv.e.set_run idx.set_run v_def lift_result_def)
qed

lemma swapped_state:
  assumes holds: "holds_alist K V m kvs e" and i: "i < length kvs" "fst (kvs ! i) = k"
  defines "e1 \<equiv> mock_del (key_bytes (um_values_map m) k) (mock_del (key_bytes (um_index_map m) k) e)"
    and "lk \<equiv> fst (last kvs)" and "v \<equiv> um_keys_vec m"
  defines "e2 \<equiv> if Suc i < length kvs
       then mock_put (key_bytes (um_index_map m) lk) (value_bytes (um_index_map m) (of_nat i))
              (mock_put (key_bytes (v_elems v) (of_nat i)) (value_bytes (v_elems v) lk) e1)
       else e1"
  shows "holds_list K v (map fst (kvs[i := last kvs])) e2" "typed K (\<lambda>_. True) (um_index_map m) e2"
    "typed K V (um_values_map m) e2" "contents (um_values_map m) e2 = contents (um_values_map m) e1"
    "indexed K (um_index_map m) (map fst (swap_delete k kvs)) e2"
proof -
  obtain n where n: "length kvs = Suc n" using i by (cases kvs) auto
  have lk: "lk = fst (kvs ! n)" using n by (simp add: lk_def last_length_Suc)
  have K: "K k" "K lk" using nth_key_K [OF holds] i n by (auto simp: lk)
  have dist: "distinct (map fst kvs)" using holds by (simp add: holds_alist_def)
  have neq: "fst (kvs ! a) = fst (kvs ! b) \<longleftrightarrow> a = b" if "a < length kvs" "b < length kvs" for a b
    using nth_eq_iff_index_eq [OF dist, of a b] that by simp
  have list: "holds_list K v (map fst kvs) e1"
    using holds by (simp add: holds_alist_def e1_def frames prefs v_def)
  show "holds_list K v (map fst (kvs[i := last kvs])) e2"
  proof (cases "Suc i < length kvs")
    case True
    with kv.holds_update [OF list [unfolded v_def], of i lk] i K show ?thesis
      by (simp add: e2_def v_def frames prefs map_update lk_def)
  next
    case False
    then have "i = n" using i n by simp
    then have "kvs[i := last kvs] = kvs" using n by (simp add: last_length_Suc)
    with False list show ?thesis by (simp add: e2_def)
  qed
  show "typed K (\<lambda>_. True) (um_index_map m) e2" "typed K V (um_values_map m) e2"
    "contents (um_values_map m) e2 = contents (um_values_map m) e1"
    using holds K by (auto simp: e2_def e1_def holds_alist_def v_def prefs)
  have idx: "contents (um_index_map m) e2 x =
      (if i < n \<and> x = lk then Some (of_nat i) else if x = k then None else contents (um_index_map m) e x)"
    if "K x" for x
    using that K by (auto simp: e2_def e1_def n v_def prefs idx.contents_put idx.contents_del)
  show "indexed K (um_index_map m) (map fst (swap_delete k kvs)) e2"
    unfolding indexed_def
  proof (intro conjI allI impI)
    fix j assume "j < length (map fst (swap_delete k kvs))"
    then have j: "j < n" by (simp add: swap_delete_index [OF dist i] n)
    then have nth: "swap_delete k kvs ! j = (if j = i then last kvs else kvs ! j)"
      using n by (simp add: swap_delete_index [OF dist i] nth_butlast nth_list_update)
    have "contents (um_index_map m) e (fst (kvs ! j)) = Some (of_nat j)"
      using holds j n by (simp add: holds_alist_def indexed_def)
    moreover have "j \<noteq> i \<Longrightarrow> fst (kvs ! j) \<noteq> k" "fst (kvs ! j) \<noteq> lk"
      using neq [of j i] neq [of j n] i j n by (auto simp: lk)
    moreover have "fst (swap_delete k kvs ! j) = (if j = i then lk else fst (kvs ! j))"
      by (simp add: nth lk_def)
    ultimately show "contents (um_index_map m) e2 (map fst (swap_delete k kvs) ! j) = Some (of_nat j)"
      using j n idx [OF K(2)] idx [OF nth_key_K [OF holds, of j]]
      by (simp add: swap_delete_index [OF dist i])
  next
    fix k' assume k': "K k'" "k' \<notin> set (map fst (swap_delete k kvs))"
    then have "k' = k \<or> k' \<notin> fst ` set kvs" using swap_delete_keys(3) [OF dist i] by auto
    moreover have "lk \<in> fst ` set kvs" unfolding lk by (rule imageI, rule nth_mem) (simp add: n)
    moreover have "i < n \<Longrightarrow> lk \<noteq> k" using neq [of n i] i n by (auto simp: lk)
    ultimately show "contents (um_index_map m) e2 k' = None"
      using idx [OF k'(1)] holds k'(1) by (auto simp: holds_alist_def indexed_def)
  qed
qed

lemma remove_sim:
  assumes holds: "holds_alist K V m kvs e" and k: "K k"
  obtains e' where "mock_run H (um_remove H m k) e = (Ok (map_of kvs k), e')" "holds_alist K V m (swap_delete k kvs) e'"
proof (cases "map_of kvs k")
  case None
  then have "swap_delete k kvs = kvs" by (simp add: swap_delete_def map_of_eq_None_iff)
  with None holds remove_absent [OF holds k] that show ?thesis by simp
next
  case (Some old)
  then obtain i where i: "i < length kvs" "kvs ! i = (k, old)" by (metis map_of_SomeD in_set_conv_nth)
  then have i': "fst (kvs ! i) = k" by simp
  have dist: "distinct (map fst kvs)" and list: "holds_list K (um_keys_vec m) (map fst kvs) e"
    using holds by (simp_all add: holds_alist_def)
  let ?v = "um_keys_vec m" and ?L = "map fst (kvs[i := last kvs])"
  define e1 where "e1 = mock_del (key_bytes (um_values_map m) k) (mock_del (key_bytes (um_index_map m) k) e)"
  define e2 where "e2 = (if Suc i < length kvs
       then mock_put (key_bytes (um_index_map m) (fst (last kvs))) (value_bytes (um_index_map m) (of_nat i))
              (mock_put (key_bytes (v_elems ?v) (of_nat i)) (value_bytes (v_elems ?v) (fst (last kvs))) e1)
       else e1)"
  note swap = swap_run [OF holds i(1) i', folded e1_def, folded e2_def]
    and state = swapped_state [OF holds i(1) i', folded e1_def, folded e2_def]
  let ?e = "if length ?L = 1 then mock_del (key_bytes (v_index ?v) ()) e2
     else mock_put (key_bytes (v_index ?v) ()) (value_bytes (v_index ?v) (of_nat (length ?L - 1))) e2"
  have L: "?L \<noteq> []" "butlast ?L = map fst (swap_delete k kvs)"
    using i by (auto simp: swap_delete_index [OF dist i(1) i'] map_butlast)
  have pop: "mock_run H (vector_pop H ?v) e2 = (Ok (Some (last ?L)), ?e)"
    using kv.pop_run [OF state(1)] L(1) by simp
  have idx: "mock_run_query H (map_may_get H (um_index_map m) k) e = (Ok (Some (of_nat i)), e)"
    using lookup_run(3) [OF holds k] holds i by (auto simp: holds_alist_def indexed_def)
  have val: "mock_run_query H (map_get H (um_values_map m) k) (mock_del (key_bytes (um_index_map m) k) e) =
      (Ok old, mock_del (key_bytes (um_index_map m) k) e)"
    using vals.get_run [OF k, of "mock_del (key_bytes (um_index_map m) k) e"] holds Some k
    by (simp add: holds_alist_def holds_list_def prefs)
  have len: "mock_run_query H (vector_len H ?v) e1 = (Ok (of_nat (length kvs)), e1)"
    using kv.index_run(2) [of "map fst kvs" e1] list by (simp add: e1_def frames prefs)
  have run: "mock_run H (um_remove H m k) e = (Ok (Some old), ?e)"
    using idx val len swap pop
    by (simp add: um_remove_def mock_run_simps andThen_def idx.remove_run vals.remove_run k e1_def [symmetric]
        lift_result_def)
  have vals: "contents (um_values_map m) ?e k' = map_of (swap_delete k kvs) k'" if "K k'" for k'
    using that k holds state(4)
    by (auto simp: map_of_swap_delete [OF dist] prefs e1_def vals.contents_del holds_alist_def)
  have "holds_alist K V m (swap_delete k kvs) ?e"
    unfolding holds_alist_def
    using kv.holds_pop [OF state(1) L(1)] state(2,3,5) vals swap_delete_keys [OF dist i(1) i'] holds
    by (auto simp: L(2) frames prefs holds_alist_def split: if_splits)
  with run Some that show ?thesis by simp
qed

lemma iter_run:
  assumes holds: "holds_alist K V m kvs e"
  defines "it j \<equiv> \<lparr>ui_index = of_nat j, ui_length = of_nat (length kvs)\<rparr>"
  shows "mock_run_query H (um_iter_new H m) e = (Ok (it 0), e)"
    "j < length kvs \<Longrightarrow> mock_run_query H (um_iter_next H m (it j)) e = (Ok (Some (Inr (kvs ! j)), it (Suc j)), e)"
    "mock_run_query H (um_iter_next H m (it (length kvs))) e = (Ok (None, it (length kvs)), e)"
proof -
  have list: "holds_list K (um_keys_vec m) (map fst kvs) e" using holds by (simp add: holds_alist_def)
  show "mock_run_query H (um_iter_new H m) e = (Ok (it 0), e)"
    using kv.index_run(2) [OF list]
    by (simp add: um_iter_new_def um_len_def mock_run_simps andThen_def lift_result_def it_def)
  show "mock_run_query H (um_iter_next H m (it (length kvs))) e = (Ok (None, it (length kvs)), e)"
    by (simp add: um_iter_next_def lift_result_def it_def)
  assume j: "j < length kvs"
  moreover have "length kvs < 2 ^ 64" using list by (simp add: holds_list_def)
  ultimately have "\<not> (of_nat (length kvs) :: u64) \<le> of_nat j" by (simp add: word_le_nat_alt unat_of_nat)
  moreover have "map_of kvs (fst (kvs ! j)) = Some (snd (kvs ! j))"
    using holds j by (intro map_of_is_SomeI) (auto simp: holds_alist_def)
  then have "mock_run_query H (map_may_get H (um_values_map m) (fst (kvs ! j))) e = (Ok (Some (snd (kvs ! j))), e)"
    using lookup_run(1) [OF holds nth_key_K [OF holds j]] by simp
  ultimately show "mock_run_query H (um_iter_next H m (it j)) e = (Ok (Some (Inr (kvs ! j)), it (Suc j)), e)"
    using kv.get_run(2) [OF list, of j] j
    by (simp add: um_iter_next_def mock_run_simps attempt_def lift_result_def it_def Let_def add_ac)
qed

lemma um_sim:
  assumes holds: "holds_alist K V m kvs e" and ok: "um_op_ok K V op kvs"
  shows "fst (mock_run H (um_prog H m op) e) = fst (um_spec op kvs) \<and>
    holds_alist K V m (snd (um_spec op kvs)) (snd (mock_run H (um_prog H m op) e))"
proof -
  note run = mock_run_simps andThen_def lift_result_def
  show ?thesis
  proof (cases op)
    case (UInsert k v)
    with ok insert_sim [OF holds, of k v] obtain e' where
      "mock_run H (um_insert H m k v) e = (Ok (map_of kvs k), e')" "holds_alist K V m (AList.update k v kvs) e'"
      by auto
    with UInsert show ?thesis by (simp add: run)
  next
    case (URemove k)
    with ok remove_sim [OF holds, of k] obtain e' where
      "mock_run H (um_remove H m k) e = (Ok (map_of kvs k), e')" "holds_alist K V m (swap_delete k kvs) e'" by auto
    with URemove show ?thesis by (simp add: run)
  next
    case (UGet k)
    with ok lookup_run(1) [OF holds, of k] holds show ?thesis by (simp add: run um_may_get_def)
  next
    case ULen
    have "holds_list K (um_keys_vec m) (map fst kvs) e" using holds by (simp add: holds_alist_def)
    from ULen kv.index_run(2) [OF this] holds show ?thesis by (simp add: run um_len_def)
  next
    case (UIter n)
    have "mock_run_query H (drain n (um_iter_next H m) \<lparr>ui_index = of_nat 0, ui_length = of_nat (length kvs)\<rparr>) e =
        (Ok (map (\<lambda>j. Inr (kvs ! j)) [0..<min (0 + n) (length kvs)]), e)"
      by (rule drain_run [where it = "\<lambda>j. \<lparr>ui_index = of_nat j, ui_length = of_nat (length kvs)\<rparr>"])
        (simp_all only: iter_run [OF holds])
    with UIter holds iter_run(1) [OF holds] show ?thesis by (simp add: run map_nth_take)
  next
    case (UUpdate k f)
    then have k: "K k" using ok by simp
    show ?thesis
    proof (cases "f (map_of kvs k)")
      case (Inl c)
      with UUpdate lookup_run(1) [OF holds k] holds show ?thesis by (simp add: run um_update_def um_may_get_def)
    next
      case (Inr v)
      with UUpdate ok insert_sim [OF holds k, of v] obtain e' where
        "mock_run H (um_insert H m k v) e = (Ok (map_of kvs k), e')" "holds_alist K V m (AList.update k v kvs) e'"
        by auto
      with UUpdate Inr lookup_run(1) [OF holds k] show ?thesis by (simp add: run um_update_def um_may_get_def)
    qed
  qed
qed

end

sublocale typed_unordered_map \<subseteq> um: data_refinement "\<lambda>op. mock_run H (um_prog H m op)" um_spec "holds_alist K V m" "um_op_ok K V"
  by unfold_locales (simp_all add: um_sim)

lemma typed_unordered_map_new:
  assumes "host_ok H" "storable K BK" "storable V BV" "distinct [p, q, r, s]"
  shows "typed_unordered_map H K V (unordered_map_new H p q r s BK BV)"
  using assms storable_host [OF assms(1)] typed_vector_new [OF assms(1,2), of q r]
  by (simp add: typed_unordered_map_def typed_unordered_map_axioms_def typed_map_def unordered_map_new_def
      map_new_def) (auto simp: vector_new_def item_new_def map_new_def)

lemma holds_alist_new: "account_wf a \<Longrightarrow> holds_alist K V m [] (mock_new a b)"
  by (simp add: holds_alist_def holds_list_new indexed_def)

end
