(* ===== verification/Mock_Refinement.thy ===== *)
theory Mock_Refinement
  imports Typed_Storage Storage_Access
begin

text \<open>
  Account code that only talks to its storage runs on the invoker as it runs on \<open>MockEnv\<close>: the tests
  of the accounts and the theorems about the collections carry over to executions on chain.
\<close>

text \<open>The same view of the call, and the same contents of the accounts' storage.\<close>

definition mock_sim :: "ctx \<Rightarrow> mock_env \<Rightarrow> world \<Rightarrow> bool" where
  "mock_sim c e w \<longleftrightarrow> mock_view e = view_of c \<and>
     (\<forall>a k. logical_get (w_state w) (storage_key a k) =
              Inr (map_option OwnedBytes (hm_get (me_state e) (storage_key a k))))"

definition storage_request_fits :: "host \<Rightarrow> account_id \<Rightarrow> invoke_request \<Rightarrow> bool" where
  "storage_request_fits H a req \<longleftrightarrow>
     (if req_function req = FUNCTION_IDENTIFIER (StorageSetRequest H) then
        (case invoke_request_get (h_storage_set_request H) req of
           Inl _ \<Rightarrow> False | Inr r \<Rightarrow> storage_fits a (ss_key r) (ss_value r))
      else req_function req = FUNCTION_IDENTIFIER (StorageRemoveRequest H) \<and>
        (case invoke_request_get (h_storage_remove_request H) req of
           Inl _ \<Rightarrow> False | Inr r \<Rightarrow> storage_fits a (sr_key r) (OwnedBytes [])))"

text \<open>\<open>storage_only H p n e\<close>: run from \<open>e\<close>, the code \<open>p\<close> calls nothing but the storage account and makes
  at most \<open>n\<close> writes, each within the size limits of the chain.\<close>

primrec storage_only :: "host \<Rightarrow> 'a prog \<Rightarrow> nat \<Rightarrow> mock_env \<Rightarrow> bool" where
  "storage_only H (Return r) = (\<lambda>n e. True)"
| "storage_only H Unwind = (\<lambda>n e. True)"
| "storage_only H (Ask k) = (\<lambda>n e. storage_only H (k (mock_view e)) n e)"
| "storage_only H (DoQuery to data k) = (\<lambda>n e. to = STORAGE_ACCOUNT_ID \<and>
     (case mock_do_query H to data e of
        (Ok r, e') \<Rightarrow> storage_only H (k (Inr r)) n e'
      | (Err c, e') \<Rightarrow> storage_only H (k (Inl c)) n e'
      | _ \<Rightarrow> False))"
| "storage_only H (DoExec to data fs k) = (\<lambda>n e. to = STORAGE_ACCOUNT_ID \<and> fs = [] \<and> 0 < n \<and>
     storage_request_fits H (me_whoami e) data \<and>
     (case mock_do_exec H to data fs e of
        (Ok r, e') \<Rightarrow> storage_only H (k (Inr r)) (n - 1) e'
      | (Err c, e') \<Rightarrow> storage_only H (k (Inl c)) (n - 1) e'
      | _ \<Rightarrow> False))"
| "storage_only H (EmitEvent name data k) = (\<lambda>n e. False)"
| "storage_only H (UniqueId k) = (\<lambda>n e. False)"

lemma storage_query_sim:
  assumes "mock_sim c e w" "ample n w"
  obtains w' where "do_query H A (Suc f) c STORAGE_ACCOUNT_ID req w = (fst (mock_do_query H STORAGE_ACCOUNT_ID req e), w')"
    "snd (mock_do_query H STORAGE_ACCOUNT_ID req e) = e" "mock_sim c e w'" "ample n w'"
proof -
  let ?r = "fst (mock_do_query H STORAGE_ACCOUNT_ID req e)"
  let ?w = "w\<lparr>w_state := (w_state w)\<lparr>metrics := inc_storage_reads (metrics (w_state w))\<rparr>\<rparr>"
  have gas: "w_gas w = Infinite" and mb: "message_from_bytes = OwnedBytes"
    using assms(2) by (auto simp: ample_def message_from_bytes_def)
  have "handle_storage_query H req w \<in> {(?r, w), (?r, ?w)}" "snd (mock_do_query H STORAGE_ACCOUNT_ID req e) = e"
    using assms(1)
    by (auto simp: mock_do_query_def handle_storage_query_def mock_handle_storage_query_def mock_sim_def andThen_def
        lift_result_def on_state_def on_gas_def get_logical gas fail_def Let_def storage_key_def mb of_result_def
        split: sum.splits)
  moreover have "mock_sim c e ?w" "ample n ?w" using assms by (simp_all add: mock_sim_def ample_def)
  ultimately show ?thesis using assms that [of w] that [of ?w] by (auto simp: do_query_storage simp del: do_query.simps)
qed

lemma mock_sim_write:
  assumes "mock_sim c e w" "logical_get (w_state w') = (logical_get (w_state w))(storage_key (whoami c) k := Inr v)"
    "same_rest w w'" "account_wf (whoami c)"
  shows "mock_sim c (case v of None \<Rightarrow> mock_del k e | Some (OwnedBytes b) \<Rightarrow> mock_put k b e) w'"
proof -
  have "me_whoami e = whoami c" using assms(1) by (simp add: mock_sim_def mock_view_def view_of_def)
  then show ?thesis using assms
    by (auto simp: mock_sim_def mock_put_def mock_del_def mock_view_def split: option.splits message.splits)
qed

lemma storage_exec_sim:
  assumes H: "host_ok H" and sim: "mock_sim c e w" and ample: "ample (Suc n) w" and depth: "call_depth c < MAX_CALL_DEPTH"
    and fits: "storage_request_fits H (me_whoami e) req"
  obtains w' where
    "do_exec H A (Suc f) c STORAGE_ACCOUNT_ID req [] w = (fst (mock_do_exec H STORAGE_ACCOUNT_ID req [] e), w')"
    "mock_sim c (snd (mock_do_exec H STORAGE_ACCOUNT_ID req [] e)) w'" "ample n w'"
proof -
  obtain resp where resp: "response_new (h_unit H) () = Inr resp"
    using borsh_ok_response [OF host_ok_storage(5) [OF H]] by blast
  have who: "me_whoami e = whoami c" using sim by (simp add: mock_sim_def mock_view_def view_of_def)
  show ?thesis
  proof (cases "req_function req = FUNCTION_IDENTIFIER (StorageSetRequest H)")
    case True
    then obtain r where r: "invoke_request_get (h_storage_set_request H) req = Inr r"
      "storage_fits (whoami c) (ss_key r) (ss_value r)"
      using fits who by (auto simp: storage_request_fits_def split: sum.splits)
    obtain b where b: "ss_value r = OwnedBytes b" by (cases "ss_value r")
    obtain w' where w': "do_exec H A (Suc f) c STORAGE_ACCOUNT_ID req [] w = (Ok resp, w')" "ample n w'" "same_rest w w'"
      "logical_get (w_state w') = (logical_get (w_state w))(storage_key (whoami c) (ss_key r) := Inr (Some (ss_value r)))"
      by (rule do_exec_set_ample [OF r(1) True r(2) depth ample resp])
    have "mock_do_exec H STORAGE_ACCOUNT_ID req [] e = (Ok resp, mock_put (ss_key r) b e)"
      using True r b resp
      by (simp add: mock_do_exec_def mock_handle_storage_exec_def andThen_def lift_result_def mock_put_def storage_key_def)
    then show ?thesis using that [of w'] w' mock_sim_write [OF sim w'(4,3)] r(2) b
      by (simp add: storage_fits_def del: do_exec.simps)
  next
    case False
    then obtain r where r: "invoke_request_get (h_storage_remove_request H) req = Inr r"
      "storage_fits (whoami c) (sr_key r) (OwnedBytes [])"
      and id: "req_function req = FUNCTION_IDENTIFIER (StorageRemoveRequest H)"
      using fits who by (auto simp: storage_request_fits_def split: sum.splits)
    obtain w' where w': "do_exec H A (Suc f) c STORAGE_ACCOUNT_ID req [] w = (Ok resp, w')" "ample n w'" "same_rest w w'"
      "logical_get (w_state w') = (logical_get (w_state w))(storage_key (whoami c) (sr_key r) := Inr None)"
      by (rule do_exec_remove_ample [OF r(1) id r(2) depth ample resp])
    have "mock_do_exec H STORAGE_ACCOUNT_ID req [] e = (Ok resp, mock_del (sr_key r) e)"
      using False id r resp
      by (simp add: mock_do_exec_def mock_handle_storage_exec_def andThen_def lift_result_def mock_del_def storage_key_def)
    then show ?thesis using that [of w'] w' mock_sim_write [OF sim w'(4,3)] r(2)
      by (simp add: storage_fits_def del: do_exec.simps)
  qed
qed

lemma mock_run_sim:
  assumes H: "host_ok H" and depth: "call_depth c < MAX_CALL_DEPTH"
    and "mock_sim c e w" "ample n w" "storage_only H p n e"
  shows "\<exists>w'. run (do_exec H A (Suc f)) (do_query H A (Suc f)) c p w = (fst (mock_run H p e), w') \<and>
    mock_sim c (snd (mock_run H p e)) w'"
  using assms(3-5)
proof (induction p arbitrary: n e w)
  case (Ask k)
  then have "mock_view e = view_of c" by (simp add: mock_sim_def)
  with Ask show ?case by (simp del: do_exec.simps do_query.simps)
next
  case (DoQuery to data k)
  then have to: "to = STORAGE_ACCOUNT_ID" by simp
  obtain w' where w': "do_query H A (Suc f) c to data w = (fst (mock_do_query H to data e), w')"
    "snd (mock_do_query H to data e) = e" "mock_sim c e w'" "ample n w'"
    unfolding to by (rule storage_query_sim [OF DoQuery.prems(1,2)])
  obtain r where r: "mock_do_query H to data e = (r, e)" using w'(2) by (metis prod.collapse)
  show ?case using DoQuery.prems(3) DoQuery.IH [OF rangeI w'(3,4)] w'(1) r
    by (cases r) (auto simp: attempt_def simp del: do_exec.simps do_query.simps)
next
  case (DoExec to data fs k)
  then have to: "to = STORAGE_ACCOUNT_ID" "fs = []" by simp_all
  obtain m where m: "n = Suc m" using DoExec.prems(3) by (cases n) auto
  have fits: "storage_request_fits H (me_whoami e) data" using DoExec.prems(3) by simp
  obtain w' where w': "do_exec H A (Suc f) c to data fs w = (fst (mock_do_exec H to data fs e), w')"
    "mock_sim c (snd (mock_do_exec H to data fs e)) w'" "ample m w'"
    unfolding to by (rule storage_exec_sim [OF H DoExec.prems(1) _ depth fits]) (use DoExec.prems m in auto)
  obtain r e' where r: "mock_do_exec H to data fs e = (r, e')" by (metis prod.collapse)
  show ?case using DoExec.prems(3) DoExec.IH [OF rangeI, of e' w' m] w' r m
    by (cases r) (auto simp: attempt_def simp del: do_exec.simps do_query.simps)
qed (auto simp: lift_result_def unwind_def)

text \<open>One write of a typed map is such code.\<close>

context typed_map
begin

lemma set_storage_only:
  assumes "K k" "V v" "storage_fits (me_whoami e) (key_bytes m k) (OwnedBytes (value_bytes m v))"
  shows "storage_only H (map_set H m k v) (Suc n) e"
proof -
  obtain req resp where
    "invoke_request_new (StorageSetRequest H) \<lparr>ss_key = key_bytes m k, ss_value = OwnedBytes (value_bytes m v)\<rparr> = Inr req"
    "\<And>e. mock_do_exec H STORAGE_ACCOUNT_ID req [] e =
       (Ok resp, mock_put (key_bytes m k) (case OwnedBytes (value_bytes m v) of OwnedBytes b \<Rightarrow> b) e)"
    "invoke_request_get (h_storage_set_request H) req = Inr \<lparr>ss_key = key_bytes m k, ss_value = OwnedBytes (value_bytes m v)\<rparr>"
    "req_function req = FUNCTION_IDENTIFIER (StorageSetRequest H)"
    by (rule mock_storage_set [OF host, where k = "key_bytes m k" and v = "OwnedBytes (value_bytes m v)" and fs = "[]"])
      (use key_bytes_ok [OF assms(1)] value_bytes_ok [OF assms(2)] in simp_all)
  then show ?thesis using assms(3)
    by (simp add: map_set_def key_bytes_ok assms(1,2) value_bytes_ok storage_request_fits_def)
qed

end

end
