(* ===== verification/Collections_Theorems.thy ===== *)
theory Collections_Theorems
  imports Queue_Props Unordered_Map_Props Mock_Refinement Reference_Host
begin

text \<open>The properties of the storage collections.\<close>

section \<open>Collections of integers on the reference host\<close>

definition u64_vector :: "u64 vector" where
  "u64_vector = vector_new reference_host 10 11 (h_u64 reference_host)"

definition u64_queue :: "u64 queue" where
  "u64_queue = queue_new reference_host 12 13 14 (h_u64 reference_host)"

definition u64_map :: "(u64, u64) unordered_map" where
  "u64_map = unordered_map_new reference_host 15 16 17 18 (h_u64 reference_host) (h_u64 reference_host)"

lemma u64_storable: "storable (\<lambda>_. True) (h_u64 reference_host)"
  by (rule storable_host(1) [OF reference_host_ok])


interpretation uq: typed_queue reference_host "\<lambda>_. True" u64_queue
  unfolding u64_queue_def by (rule typed_queue_new [OF reference_host_ok u64_storable]) simp

interpretation um: typed_unordered_map reference_host "\<lambda>_. True" "\<lambda>_. True" u64_map
  unfolding u64_map_def
  by (rule typed_unordered_map_new [OF reference_host_ok u64_storable u64_storable]) simp

definition example_env :: mock_env where
  "example_env = mock_new (account_from_u64 70000) (account_from_u64 70001)"

lemma account_wf_example: "account_wf (account_from_u64 70000)"
  by simp

section \<open>Properties\<close>



text \<open>C34. A \<open>Queue\<close> on fresh storage behaves as a list with operations at both ends: any sequence of
  push_back, pop_front, pop_back, is_empty and iteration returns what the list operations return, the
  error ERR_EMPTY on an empty queue included, while fewer than \<open>2 ^ 64\<close> items are pushed.\<close>

theorem queue_refines_list:
  assumes "host_ok H" "storable V B" "distinct [p, r, s]" "account_wf a" "ops_ok queue_spec (queue_op_ok V) ops (0, [])"
  shows "fst (run_seq (\<lambda>op. mock_run H (queue_prog H (queue_new H p r s B) op)) ops (mock_new a b)) =
    fst (run_seq queue_spec ops (0, []))"
proof -
  have "typed_queue H V (queue_new H p r s B)" by (rule typed_queue_new [OF assms(1-3)])
  then have "data_refinement (\<lambda>op. mock_run H (queue_prog H (queue_new H p r s B) op)) queue_spec
      (holds_queue V (queue_new H p r s B)) (queue_op_ok V)"
    by (intro data_refinement.intro) (simp_all add: typed_queue.queue_sim)
  from data_refinement.run_seq_sim [OF this holds_queue_new [OF assms(4)] assms(5)] show ?thesis by blast
qed

theorem queue_refines_list_witness:
  "fst (run_seq (\<lambda>op. mock_run reference_host (queue_prog reference_host u64_queue op))
      [QPushBack 5, QPushBack 6, QPushBack 7, QPopFront, QPopBack, QIter 4, QPopFront, QPopFront, QIsEmpty] example_env) =
   [Ok QDone, Ok QDone, Ok QDone, Ok (QElem 5), Ok (QElem 7), Ok (QList [Inr 6]), Ok (QElem 6),
    Err ERR_EMPTY, Ok (QFlag True)]"
proof -
  have "ops_ok queue_spec (queue_op_ok (\<lambda>_. True))
      [QPushBack 5, QPushBack 6, QPushBack 7, QPopFront, QPopBack, QIter 4, QPopFront, QPopFront, QIsEmpty] (0, [])"
    by simp
  from queue_refines_list [OF reference_host_ok u64_storable _ account_wf_example this, of 12 13 14]
  show ?thesis unfolding u64_queue_def example_env_def by simp
qed

text \<open>C35. An \<open>UnorderedMap\<close> on fresh storage behaves as a map: any sequence of insert, remove, update,
  get, len and iteration returns what an association list in iteration order returns (a new key at
  the end, a removed one replaced by the last), the keys stay distinct, and the list represents the
  map obtained by the ordinary updates.\<close>

theorem unordered_map_refines_map:
  assumes "host_ok H" "storable K BK" "storable V BV" "distinct [p, q, r, s]" "account_wf a"
    "ops_ok um_spec (um_op_ok K V) ops []"
  shows "fst (run_seq (\<lambda>op. mock_run H (um_prog H (unordered_map_new H p q r s BK BV) op)) ops (mock_new a b)) =
      fst (run_seq um_spec ops []) \<and>
    distinct (map fst (snd (run_seq um_spec ops []))) \<and>
    map_of (snd (run_seq um_spec ops [])) = fold um_effect ops Map.empty"
proof -
  let ?m = "unordered_map_new H p q r s BK BV"
  have "typed_unordered_map H K V ?m" by (rule typed_unordered_map_new [OF assms(1-4)])
  then have "data_refinement (\<lambda>op. mock_run H (um_prog H ?m op)) um_spec (holds_alist K V ?m) (um_op_ok K V)"
    by (intro data_refinement.intro) (simp_all add: typed_unordered_map.um_sim)
  from data_refinement.run_seq_sim [OF this holds_alist_new [OF assms(5)] assms(6)] um_run_effect [of "[]" ops]
  show ?thesis by simp
qed

theorem unordered_map_refines_map_witness:
  "fst (run_seq (\<lambda>op. mock_run reference_host (um_prog reference_host u64_map op))
      [UInsert 1 10, UInsert 2 20, UInsert 3 30, URemove 1, UGet 3, UInsert 2 21, ULen, UIter 5] example_env) =
   [Ok (UValue None), Ok (UValue None), Ok (UValue None), Ok (UValue (Some 10)), Ok (UValue (Some 30)),
    Ok (UValue (Some 20)), Ok (UNum 2), Ok (UItems [Inr (3, 30), Inr (2, 21)])]"
proof -
  have "ops_ok um_spec (um_op_ok (\<lambda>_. True) (\<lambda>_. True))
      [UInsert 1 10, UInsert 2 20, UInsert 3 30, URemove 1, UGet 3, UInsert 2 21, ULen, UIter 5] ([] :: (u64 \<times> u64) list)"
    by (simp add: swap_delete_def)
  from unordered_map_refines_map [OF reference_host_ok u64_storable u64_storable _ account_wf_example this, of 15 16 17 18]
  show ?thesis unfolding u64_map_def example_env_def by (simp add: swap_delete_def)
qed

text \<open>Extending an empty vector with nothing stores the index 0: the next pop reads the element
  at the index \<open>2 ^ 64 - 1\<close> and fails with ERR_NOT_FOUND, where popping an empty vector returns
  None.\<close>

theorem vector_extend_nothing_breaks_pop:
  assumes "host_ok H" "storable V B" "p \<noteq> q" "account_wf a"
  shows "fst (run_seq (\<lambda>op. mock_run H (vec_prog H (vector_new H p q B) op)) [VPop, VExtend [], VLen, VPop] (mock_new a b)) =
    [Ok (VElem None), Ok VDone, Ok (VNum 0), Err ERR_NOT_FOUND]"
proof -
  note tv = typed_vector_new [OF assms(1-3)] and h = holds_list_new [OF assms(4)]
  note runs = typed_vector.pop_run [OF tv h, of b] typed_vector.extend_nothing_run [OF tv h, of b]
    typed_vector.index_zero_run [OF tv h, of b]
  show ?thesis using runs by (simp add: mock_run_simps andThen_def lift_result_def)
qed

theorem vector_extend_nothing_breaks_pop_witness:
  "fst (run_seq (\<lambda>op. mock_run reference_host (vec_prog reference_host u64_vector op))
      [VPop, VExtend [], VLen, VPop] example_env) =
    [Ok (VElem None), Ok VDone, Ok (VNum 0), Err ERR_NOT_FOUND]"
  using vector_extend_nothing_breaks_pop [OF reference_host_ok u64_storable _ account_wf_example, of 10 11]
  unfolding u64_vector_def example_env_def by simp

text \<open>Popping a vector lowers its length but leaves the element stored: reading the popped index
  still returns it, and it stays readable after the vector became empty.\<close>

theorem vector_pop_leaves_element:
  assumes "host_ok H" "storable V B" "p \<noteq> q" "account_wf a" "V x"
  shows "fst (run_seq (\<lambda>op. mock_run H (vec_prog H (vector_new H p q B) op)) [VPush x, VPop, VLen, VGet 0] (mock_new a b)) =
    [Ok VDone, Ok (VElem (Some x)), Ok (VNum 0), Ok (VElem (Some x))]"
proof -
  let ?v = "vector_new H p q B" and ?e = "mock_new a b"
  note tv = typed_vector_new [OF assms(1-3)]
  have h: "holds_list V ?v [x] (snd (mock_run H (vector_push H ?v x) ?e))"
    using typed_vector.holds_push [OF tv holds_list_new [OF assms(4)] assms(5)]
      typed_vector.push_run [OF tv holds_list_new [OF assms(4)] assms(5)] by simp
  let ?e1 = "snd (mock_run H (vector_push H ?v x) ?e)"
  have "holds_list V ?v [] (snd (mock_run H (vector_pop H ?v) ?e1))"
    using typed_vector.holds_pop [OF tv h] typed_vector.pop_run [OF tv h] by simp
  note len = typed_vector.index_run(2) [OF tv this]
  show ?thesis
    using typed_vector.push_run [OF tv holds_list_new [OF assms(4)] assms(5), of b] typed_vector.pop_run [OF tv h]
      typed_vector.pop_keeps_element [OF tv h] len
    by (simp add: mock_run_simps andThen_def lift_result_def split: prod.splits)
qed

theorem vector_pop_leaves_element_witness:
  "fst (run_seq (\<lambda>op. mock_run reference_host (vec_prog reference_host u64_vector op))
      [VPush 42, VPop, VLen, VGet 0] example_env) =
    [Ok VDone, Ok (VElem (Some 42)), Ok (VNum 0), Ok (VElem (Some 42))]"
  using vector_pop_leaves_element [OF reference_host_ok u64_storable _ account_wf_example, of 10 11]
  unfolding u64_vector_def example_env_def by simp





end
