(* ===== verification/Accounts.thy ===== *)
theory Accounts
  imports Collections
begin

text \<open>
  The account implementations of the SDK: the token (\<open>sdk/extensions/token\<close>) with the fungible asset
  interface, the scheduler of begin and end blocks (\<open>sdk/extensions/scheduler\<close>), the account with
  timestamps for nonces (\<open>sdk/extensions/nonceless_account\<close>) and the transaction validator of
  \<open>sdk/standards/evolve_authentication\<close>, with the dispatch and the wrappers that the \<open>account_impl\<close>
  macro generates for them. The Borsh codecs of the messages are parameters.
\<close>

section \<open>Generated code\<close>

definition init_arm ::
    "bool \<Rightarrow> 'm borsh \<Rightarrow> 'r borsh \<Rightarrow> ('m \<Rightarrow> 'r prog) \<Rightarrow> invoke_request \<Rightarrow> invoke_response prog" where
  "init_arm payable M R f request =
     (case invoke_request_get M request of
        Inl e \<Rightarrow> Return (Inl e)
      | Inr msg \<Rightarrow> funds_check payable (pbind (f msg) (\<lambda>resp. Return (response_new R resp))))"

text \<open>The \<open>InvokableMessage\<close> implementation of a generated message.\<close>

definition msg_of :: "host \<Rightarrow> string \<Rightarrow> 'm borsh \<Rightarrow> 'm invokable" where
  "msg_of H fn_name M = \<lparr>FUNCTION_IDENTIFIER = compute_function_id H fn_name,
     FUNCTION_IDENTIFIER_NAME = fn_name, msg_codec = M\<rparr>"

text \<open>The methods of the generated \<open>Ref\<close> types: the account is called with no funds.\<close>

definition exec_wrapper :: "host \<Rightarrow> string \<Rightarrow> 'm borsh \<Rightarrow> 'r borsh \<Rightarrow> account_id \<Rightarrow> 'm \<Rightarrow> 'r prog" where
  "exec_wrapper H fn_name M R account msg = exec_account (msg_of H fn_name M) R account msg []"

definition query_wrapper :: "host \<Rightarrow> string \<Rightarrow> 'm borsh \<Rightarrow> 'r borsh \<Rightarrow> account_id \<Rightarrow> 'm \<Rightarrow> 'r qprog" where
  "query_wrapper H fn_name M R account msg = query_account (msg_of H fn_name M) R account msg"

definition init_wrapper ::
    "host \<Rightarrow> string \<Rightarrow> 'm borsh \<Rightarrow> 'r borsh \<Rightarrow> 'm \<Rightarrow> (account_id \<times> 'r) prog" where
  "init_wrapper H account_ident M R msg = create_account_call H M R account_ident msg []"

section \<open>The token\<close>

definition ERR_NOT_ENOUGH_BALANCE :: error_code where "ERR_NOT_ENOUGH_BALANCE = define_error 0x1"
definition ERR_UNDERFLOW :: error_code where "ERR_UNDERFLOW = define_error 0x2"

record fungible_asset_metadata =
  fm_name :: string
  fm_symbol :: string
  fm_decimals :: u8
  fm_icon_url :: string
  fm_description :: string

record token_initialize_msg =
  ti_metadata :: fungible_asset_metadata
  ti_balances :: "(account_id \<times> u128) list"
  ti_supply_manager :: "account_id option"

record mint_msg =
  mm_recipient :: account_id
  mm_amount :: u128

record burn_msg =
  bm_from_account :: account_id
  bm_amount :: u128

record token_codecs =
  tc_metadata :: "fungible_asset_metadata borsh"
  tc_option_account :: "account_id option borsh"
  tc_option_u128 :: "u128 option borsh"
  tc_initialize_msg :: "token_initialize_msg borsh"
  tc_mint_msg :: "mint_msg borsh"
  tc_burn_msg :: "burn_msg borsh"
  tc_metadata_msg :: "unit borsh"
  tc_get_balance_msg :: "account_id borsh"
  tc_total_supply_msg :: "unit borsh"

record token =
  tk_metadata :: "fungible_asset_metadata item"
  tk_balances :: "(account_id, u128) smap"
  tk_total_supply :: "u128 item"
  tk_supply_manager :: "account_id option item"

definition token_new :: "host \<Rightarrow> token_codecs \<Rightarrow> token" where
  "token_new H C =
     \<lparr>tk_metadata = item_new H 0 (tc_metadata C), tk_balances = map_new 1 (h_account_id H) (h_u128 H),
      tk_total_supply = item_new H 2 (h_u128 H), tk_supply_manager = item_new H 3 (tc_option_account C)\<rparr>"

primrec initialize_balances :: "host \<Rightarrow> token \<Rightarrow> (account_id \<times> u128) list \<Rightarrow> u128 \<Rightarrow> u128 prog" where
  "initialize_balances H T [] total_supply = Return (Inr total_supply)"
| "initialize_balances H T (b # balances) total_supply =
     (case b of (account, balance) \<Rightarrow>
        pbind (map_set H (tk_balances T) account balance) (\<lambda>_.
        initialize_balances H T balances (total_supply + balance)))"

definition token_initialize ::
    "host \<Rightarrow> token \<Rightarrow> fungible_asset_metadata \<Rightarrow> (account_id \<times> u128) list \<Rightarrow> account_id option \<Rightarrow> unit prog" where
  "token_initialize H T metadata balances supply_manager =
     pbind (item_set H (tk_metadata T) metadata) (\<lambda>_.
     pbind (initialize_balances H T balances 0) (\<lambda>total_supply.
     pbind (item_set H (tk_supply_manager T) supply_manager) (\<lambda>_.
     item_set H (tk_total_supply T) total_supply)))"

definition mint_unchecked :: "host \<Rightarrow> token \<Rightarrow> account_id \<Rightarrow> u128 \<Rightarrow> unit prog" where
  "mint_unchecked H T recipient amt =
     pbind (map_update H (tk_balances T) recipient (\<lambda>balance. Inr (unwrap_or_default balance + amt))) (\<lambda>_.
     pbind (item_update H (tk_total_supply T) (\<lambda>supply. Inr (unwrap_or_default supply + amt))) (\<lambda>_.
     Return (Inr ())))"

definition token_mint :: "host \<Rightarrow> token \<Rightarrow> account_id \<Rightarrow> u128 \<Rightarrow> unit prog" where
  "token_mint H T recipient amt =
     pbind (of_query (item_get H (tk_supply_manager T))) (\<lambda>manager. Ask (\<lambda>env.
     if manager \<noteq> Some (env_sender env) then Return (Inl ERR_UNAUTHORIZED)
     else mint_unchecked H T recipient amt))"

definition burn_unchecked :: "host \<Rightarrow> token \<Rightarrow> account_id \<Rightarrow> u128 \<Rightarrow> unit prog" where
  "burn_unchecked H T from_account amt =
     pbind (map_update H (tk_balances T) from_account
              (\<lambda>balance. ok_or ERR_UNDERFLOW (checked_sub (unwrap_or_default balance) amt))) (\<lambda>_.
     pbind (item_update H (tk_total_supply T)
              (\<lambda>supply. ok_or ERR_UNDERFLOW (checked_sub (unwrap_or_default supply) amt))) (\<lambda>_.
     Return (Inr ())))"

definition token_burn :: "host \<Rightarrow> token \<Rightarrow> account_id \<Rightarrow> u128 \<Rightarrow> unit prog" where
  "token_burn H T from_account amt =
     pbind (of_query (item_get H (tk_supply_manager T))) (\<lambda>manager. Ask (\<lambda>env.
     if manager \<noteq> Some (env_sender env) then Return (Inl ERR_UNAUTHORIZED)
     else burn_unchecked H T from_account amt))"

definition token_transfer :: "host \<Rightarrow> token \<Rightarrow> account_id \<Rightarrow> u128 \<Rightarrow> unit prog" where
  "token_transfer H T to amt = Ask (\<lambda>env.
     pbind (map_update H (tk_balances T) (env_sender env)
              (\<lambda>balance. ok_or ERR_NOT_ENOUGH_BALANCE (checked_sub (unwrap_or_default balance) amt))) (\<lambda>_.
     pbind (map_update H (tk_balances T) to (\<lambda>balance. Inr (unwrap_or_default balance + amt))) (\<lambda>_.
     Return (Inr ()))))"

definition token_metadata :: "host \<Rightarrow> token \<Rightarrow> fungible_asset_metadata qprog" where
  "token_metadata H T =
     qbind (item_may_get H (tk_metadata T)) (\<lambda>m. case m of None \<Rightarrow> QUnwind | Some m \<Rightarrow> QReturn (Inr m))"

definition token_get_balance :: "host \<Rightarrow> token \<Rightarrow> account_id \<Rightarrow> u128 option qprog" where
  "token_get_balance H T account = map_may_get H (tk_balances T) account"

definition token_total_supply :: "host \<Rightarrow> token \<Rightarrow> u128 qprog" where
  "token_total_supply H T = item_get H (tk_total_supply T)"

definition token_code :: "host \<Rightarrow> token_codecs \<Rightarrow> account_code" where
  "token_code H C =
     (let T = token_new H C; id = compute_function_id H in
      \<lparr>ac_identifier = ''Token'',
       ac_init = init_arm False (tc_initialize_msg C) (h_unit H)
         (\<lambda>m. token_initialize H T (ti_metadata m) (ti_balances m) (ti_supply_manager m)),
       ac_execute = exec_dispatch
         [(id ''mint'', exec_arm False (tc_mint_msg C) (h_unit H) (\<lambda>m. token_mint H T (mm_recipient m) (mm_amount m))),
          (id ''burn'', exec_arm False (tc_burn_msg C) (h_unit H) (\<lambda>m. token_burn H T (bm_from_account m) (bm_amount m))),
          (id ''transfer'', exec_arm False (h_transfer_msg H) (h_unit H) (\<lambda>m. token_transfer H T (tm_to m) (tm_amount m)))],
       ac_query = query_dispatch
         [(id ''metadata'', query_arm (tc_metadata_msg C) (tc_metadata C) (\<lambda>_. token_metadata H T)),
          (id ''get_balance'', query_arm (tc_get_balance_msg C) (tc_option_u128 C) (token_get_balance H T)),
          (id ''total_supply'', query_arm (tc_total_supply_msg C) (h_u128 H) (\<lambda>_. token_total_supply H T))]\<rparr>)"

section \<open>The scheduler\<close>

record scheduler_initialize_msg =
  si_begin_block_accounts :: "account_id list"
  si_end_block_accounts :: "account_id list"

record scheduler_codecs =
  sc_account_list :: "account_id list borsh"
  sc_initialize_msg :: "scheduler_initialize_msg borsh"
  sc_update_msg :: "account_id list borsh"
  sc_empty_msg :: "unit borsh"

record scheduler =
  sd_begin_block_accounts :: "account_id list item"
  sd_end_block_accounts :: "account_id list item"

definition scheduler_new :: "host \<Rightarrow> scheduler_codecs \<Rightarrow> scheduler" where
  "scheduler_new H C = \<lparr>sd_begin_block_accounts = item_new H 0 (sc_account_list C),
     sd_end_block_accounts = item_new H 1 (sc_account_list C)\<rparr>"

definition scheduler_initialize :: "host \<Rightarrow> scheduler \<Rightarrow> account_id list \<Rightarrow> account_id list \<Rightarrow> unit prog" where
  "scheduler_initialize H S begin_block_accounts end_block_accounts =
     pbind (item_set H (sd_begin_block_accounts S) begin_block_accounts) (\<lambda>_.
     item_set H (sd_end_block_accounts S) end_block_accounts)"

definition update_begin_blockers :: "host \<Rightarrow> scheduler \<Rightarrow> account_id list \<Rightarrow> unit prog" where
  "update_begin_blockers H S new_begin_blockers = Ask (\<lambda>env.
     if env_sender env \<noteq> RUNTIME_ACCOUNT_ID then Return (Inl ERR_UNAUTHORIZED)
     else item_set H (sd_begin_block_accounts S) new_begin_blockers)"

definition update_end_blockers :: "host \<Rightarrow> scheduler \<Rightarrow> account_id list \<Rightarrow> unit prog" where
  "update_end_blockers H S new_end_blockers = Ask (\<lambda>env.
     if env_sender env \<noteq> RUNTIME_ACCOUNT_ID then Return (Inl ERR_UNAUTHORIZED)
     else item_set H (sd_end_block_accounts S) new_end_blockers)"

primrec call_each :: "(account_id \<Rightarrow> unit prog) \<Rightarrow> account_id list \<Rightarrow> unit prog" where
  "call_each f [] = Return (Inr ())"
| "call_each f (a # as) = pbind (f a) (\<lambda>_. call_each f as)"

definition schedule_begin_block :: "host \<Rightarrow> scheduler_codecs \<Rightarrow> scheduler \<Rightarrow> unit prog" where
  "schedule_begin_block H C S = Ask (\<lambda>env.
     if env_sender env \<noteq> RUNTIME_ACCOUNT_ID then Return (Inl ERR_UNAUTHORIZED)
     else pbind (of_query (item_may_get H (sd_begin_block_accounts S))) (\<lambda>accounts. case accounts of
       None \<Rightarrow> Unwind
     | Some accounts \<Rightarrow>
         call_each (\<lambda>account. exec_wrapper H ''do_begin_block'' (sc_empty_msg C) (h_unit H) account ()) accounts))"

definition schedule_end_block :: "host \<Rightarrow> scheduler_codecs \<Rightarrow> scheduler \<Rightarrow> unit prog" where
  "schedule_end_block H C S = Ask (\<lambda>env.
     if env_sender env \<noteq> RUNTIME_ACCOUNT_ID then Return (Inl ERR_UNAUTHORIZED)
     else pbind (of_query (item_may_get H (sd_end_block_accounts S))) (\<lambda>accounts. case accounts of
       None \<Rightarrow> Unwind
     | Some accounts \<Rightarrow>
         call_each (\<lambda>account. exec_wrapper H ''do_end_block'' (sc_empty_msg C) (h_unit H) account ()) accounts))"

definition scheduler_code :: "host \<Rightarrow> scheduler_codecs \<Rightarrow> account_code" where
  "scheduler_code H C =
     (let S = scheduler_new H C; id = compute_function_id H in
      \<lparr>ac_identifier = ''Scheduler'',
       ac_init = init_arm False (sc_initialize_msg C) (h_unit H)
         (\<lambda>m. scheduler_initialize H S (si_begin_block_accounts m) (si_end_block_accounts m)),
       ac_execute = exec_dispatch
         [(id ''update_begin_blockers'', exec_arm False (sc_update_msg C) (h_unit H) (update_begin_blockers H S)),
          (id ''update_end_blockers'', exec_arm False (sc_update_msg C) (h_unit H) (update_end_blockers H S)),
          (id ''schedule_begin_block'', exec_arm False (sc_empty_msg C) (h_unit H) (\<lambda>_. schedule_begin_block H C S)),
          (id ''schedule_end_block'', exec_arm False (sc_empty_msg C) (h_unit H) (\<lambda>_. schedule_end_block H C S))],
       ac_query = query_dispatch []\<rparr>)"

text \<open>The hooks of the state transition function that call the scheduler (\<open>scheduler/src/server.rs\<close>);
  \<open>unwrap\<close> panics on an error.\<close>

definition unwrap_prog :: "'a prog \<Rightarrow> 'a prog" where
  "unwrap_prog p = pcatch p (\<lambda>r. case r of Inl e \<Rightarrow> Unwind | Inr x \<Rightarrow> Return (Inr x))"

definition scheduler_begin_block :: "host \<Rightarrow> scheduler_codecs \<Rightarrow> account_id \<Rightarrow> unit prog" where
  "scheduler_begin_block H C scheduler_id =
     unwrap_prog (exec_wrapper H ''schedule_begin_block'' (sc_empty_msg C) (h_unit H) scheduler_id ())"

definition scheduler_end_block :: "host \<Rightarrow> scheduler_codecs \<Rightarrow> account_id \<Rightarrow> unit prog" where
  "scheduler_end_block H C scheduler_id =
     unwrap_prog (exec_wrapper H ''schedule_end_block'' (sc_empty_msg C) (h_unit H) scheduler_id ())"

section \<open>The nonceless account\<close>

definition ERR_TIMESTAMP_REPLAY :: error_code where "ERR_TIMESTAMP_REPLAY = define_error 0x1"

record nonceless_codecs =
  nc_initialize_msg :: "account_id borsh"
  nc_verify_msg :: "u64 borsh"
  nc_empty_msg :: "unit borsh"

record nonceless_account =
  na_last_seen_timestamp :: "u64 item"
  na_owner :: "account_id item"

definition nonceless_new :: "host \<Rightarrow> nonceless_account" where
  "nonceless_new H = \<lparr>na_last_seen_timestamp = item_new H 0 (h_u64 H), na_owner = item_new H 1 (h_account_id H)\<rparr>"

definition nonceless_initialize :: "host \<Rightarrow> nonceless_account \<Rightarrow> account_id \<Rightarrow> unit prog" where
  "nonceless_initialize H N new_owner =
     pbind (item_set H (na_owner N) new_owner) (\<lambda>_. item_set H (na_last_seen_timestamp N) 0)"

definition verify_and_update :: "host \<Rightarrow> nonceless_account \<Rightarrow> u64 \<Rightarrow> unit prog" where
  "verify_and_update H N timestamp =
     pbind (of_query (item_get H (na_owner N))) (\<lambda>owner. Ask (\<lambda>env.
     if env_sender env \<noteq> owner then Return (Inl ERR_UNAUTHORIZED)
     else pbind (of_query (item_may_get H (na_last_seen_timestamp N))) (\<lambda>t.
       let last_ts = unwrap_or_default t in
       if timestamp \<le> last_ts then Return (Inl ERR_TIMESTAMP_REPLAY)
       else item_set H (na_last_seen_timestamp N) timestamp)))"

definition get_last_timestamp :: "host \<Rightarrow> nonceless_account \<Rightarrow> u64 qprog" where
  "get_last_timestamp H N =
     qbind (item_may_get H (na_last_seen_timestamp N)) (\<lambda>t. QReturn (Inr (unwrap_or_default t)))"

definition nonceless_get_owner :: "host \<Rightarrow> nonceless_account \<Rightarrow> account_id qprog" where
  "nonceless_get_owner H N = item_get H (na_owner N)"

definition nonceless_code :: "host \<Rightarrow> nonceless_codecs \<Rightarrow> account_code" where
  "nonceless_code H C =
     (let N = nonceless_new H; id = compute_function_id H in
      \<lparr>ac_identifier = ''NoncelessAccount'',
       ac_init = init_arm False (nc_initialize_msg C) (h_unit H) (nonceless_initialize H N),
       ac_execute = exec_dispatch
         [(id ''verify_and_update'', exec_arm False (nc_verify_msg C) (h_unit H) (verify_and_update H N))],
       ac_query = query_dispatch
         [(id ''get_last_timestamp'', query_arm (nc_empty_msg C) (h_u64 H) (\<lambda>_. get_last_timestamp H N)),
          (id ''get_owner'', query_arm (nc_empty_msg C) (h_account_id H) (\<lambda>_. nonceless_get_owner H N))]\<rparr>)"

section \<open>Authentication of transactions\<close>

definition ERR_NOT_EOA :: error_code where "ERR_NOT_EOA = define_error 0x41"

text \<open>\<open>validate_tx\<close> for a transaction given by its \<open>resolve_sender_account\<close> and its
  \<open>authentication_payload\<close>; \<open>M\<close> is the codec of the message of \<open>authenticate\<close>.\<close>

definition authentication_validate_tx ::
    "host \<Rightarrow> message borsh \<Rightarrow> account_id prog \<Rightarrow> error_code + message \<Rightarrow> unit prog" where
  "authentication_validate_tx H M resolve_sender_account authentication_payload =
     pbind resolve_sender_account (\<lambda>sender_account.
     case authentication_payload of
       Inl e \<Rightarrow> Return (Inl e)
     | Inr payload \<Rightarrow>
         pcatch (exec_wrapper H ''authenticate'' M (h_unit H) sender_account payload) (\<lambda>r. case r of
           Inl e \<Rightarrow> Return (Inl (if e = ERR_UNKNOWN_FUNCTION then ERR_NOT_EOA else e))
         | Inr u \<Rightarrow> Return (Inr u)))"

end
