(* ===== verification/Token_Props.thy ===== *)
theory Token_Props
  imports Accounts Vector_Props
begin

text \<open>
  The token refines a ledger: balances, total supply and supply manager, with one abstract operation
  per exported function, run by any sender. On the ledger, the balances add up to the supply as
  long as no minting takes the supply past 128 bits.
\<close>

section \<open>The ledger\<close>

record ledger =
  lg_balances :: "account_id \<Rightarrow> u128 option"
  lg_supply :: u128
  lg_manager :: "account_id option"

definition lg_balance :: "ledger \<Rightarrow> account_id \<Rightarrow> u128" where
  "lg_balance l a = unwrap_or_default (lg_balances l a)"

datatype token_op = TMint account_id account_id u128 | TBurn account_id account_id u128
  | TTransfer account_id account_id u128 | TBalance account_id | TSupply
datatype token_answer = TDone | TAmount "u128 option"

primrec token_op_sender :: "token_op \<Rightarrow> account_id option" where
  "token_op_sender (TMint s r amt) = Some s"
| "token_op_sender (TBurn s r amt) = Some s"
| "token_op_sender (TTransfer s r amt) = Some s"
| "token_op_sender (TBalance a) = None"
| "token_op_sender TSupply = None"

primrec token_prog :: "host \<Rightarrow> token \<Rightarrow> token_op \<Rightarrow> token_answer prog" where
  "token_prog H T (TMint s r amt) = pbind (token_mint H T r amt) (\<lambda>_. Return (Inr TDone))"
| "token_prog H T (TBurn s r amt) = pbind (token_burn H T r amt) (\<lambda>_. Return (Inr TDone))"
| "token_prog H T (TTransfer s r amt) = pbind (token_transfer H T r amt) (\<lambda>_. Return (Inr TDone))"
| "token_prog H T (TBalance a) = pbind (of_query (token_get_balance H T a)) (\<lambda>x. Return (Inr (TAmount x)))"
| "token_prog H T TSupply = pbind (of_query (token_total_supply H T)) (\<lambda>x. Return (Inr (TAmount (Some x))))"

definition token_step :: "host \<Rightarrow> token \<Rightarrow> token_op \<Rightarrow> (mock_env, error_code, token_answer) comp" where
  "token_step H T op e =
     mock_run H (token_prog H T op) (case token_op_sender op of None \<Rightarrow> e | Some s \<Rightarrow> with_sender s e)"

fun token_spec :: "token_op \<Rightarrow> ledger \<Rightarrow> (error_code, token_answer) outcome \<times> ledger" where
  "token_spec (TMint s r amt) l =
     (if lg_manager l \<noteq> Some s then (Err ERR_UNAUTHORIZED, l)
      else (Ok TDone, l\<lparr>lg_balances := (lg_balances l)(r \<mapsto> lg_balance l r + amt), lg_supply := lg_supply l + amt\<rparr>))"
| "token_spec (TBurn s r amt) l =
     (if lg_manager l \<noteq> Some s then (Err ERR_UNAUTHORIZED, l)
      else case checked_sub (lg_balance l r) amt of
        None \<Rightarrow> (Err ERR_UNDERFLOW, l)
      | Some b \<Rightarrow>
          (case checked_sub (lg_supply l) amt of
             None \<Rightarrow> (Err ERR_UNDERFLOW, l\<lparr>lg_balances := (lg_balances l)(r \<mapsto> b)\<rparr>)
           | Some t \<Rightarrow> (Ok TDone, l\<lparr>lg_balances := (lg_balances l)(r \<mapsto> b), lg_supply := t\<rparr>)))"
| "token_spec (TTransfer s r amt) l =
     (case checked_sub (lg_balance l s) amt of
        None \<Rightarrow> (Err ERR_NOT_ENOUGH_BALANCE, l)
      | Some b \<Rightarrow>
          let l1 = l\<lparr>lg_balances := (lg_balances l)(s \<mapsto> b)\<rparr>
          in (Ok TDone, l1\<lparr>lg_balances := (lg_balances l1)(r \<mapsto> lg_balance l1 r + amt)\<rparr>))"
| "token_spec (TBalance a) l = (Ok (TAmount (lg_balances l a)), l)"
| "token_spec TSupply l = (Ok (TAmount (Some (lg_supply l))), l)"

text \<open>Well-formed account identifiers.\<close>

fun token_op_wf :: "token_op \<Rightarrow> ledger \<Rightarrow> bool" where
  "token_op_wf (TMint s r amt) l = account_wf r"
| "token_op_wf (TBurn s r amt) l = account_wf r"
| "token_op_wf (TTransfer s r amt) l = (account_wf s \<and> account_wf r)"
| "token_op_wf (TBalance a) l = account_wf a"
| "token_op_wf TSupply l = True"

text \<open>A minted amount that the supply has room for, too.\<close>

definition token_op_ok :: "token_op \<Rightarrow> ledger \<Rightarrow> bool" where
  "token_op_ok op l \<longleftrightarrow> token_op_wf op l \<and>
     (case op of TMint s r amt \<Rightarrow> unat (lg_supply l) + unat amt < 2 ^ 128 | _ \<Rightarrow> True)"

lemma ops_ok_mono: "(\<And>op a. ok op a \<Longrightarrow> ok' op a) \<Longrightarrow> ops_ok spec ok ops a \<Longrightarrow> ops_ok spec ok' ops a"
  by (induction ops arbitrary: a) auto

section \<open>Balances and supply\<close>

definition backed :: "ledger \<Rightarrow> bool" where
  "backed l \<longleftrightarrow> (\<Sum>a | account_wf a. unat (lg_balance l a)) = unat (lg_supply l)"

lemma finite_accounts: "finite {a :: account_id. account_wf a}"
  using finite_lists_length_eq [of "UNIV :: u8 set" 32] by (simp add: finite_code)

lemma sum_balance_update:
  assumes "account_wf r"
  shows "(\<Sum>a | account_wf a. unat (lg_balance (l\<lparr>lg_balances := (lg_balances l)(r \<mapsto> b)\<rparr>) a)) + unat (lg_balance l r) =
    (\<Sum>a | account_wf a. unat (lg_balance l a)) + unat b"
proof -
  let ?l = "l\<lparr>lg_balances := (lg_balances l)(r \<mapsto> b)\<rparr>" and ?A = "{a :: account_id. account_wf a} - {r}"
  have "(\<Sum>a\<in>?A. unat (lg_balance ?l a)) = (\<Sum>a\<in>?A. unat (lg_balance l a))"
    by (rule sum.cong) (auto simp: lg_balance_def)
  moreover have "lg_balance ?l r = b" by (simp add: lg_balance_def unwrap_or_default_def)
  ultimately show ?thesis using assms
    by (simp add: sum.remove [OF finite_accounts, of r])
qed

lemma balance_le_sum: "account_wf r \<Longrightarrow> unat (lg_balance l r) \<le> (\<Sum>a | account_wf a. unat (lg_balance l a))"
  using member_le_sum [of r "{a. account_wf a}" "\<lambda>a. unat (lg_balance l a)"] finite_accounts by simp

lemma checked_sub_u128:
  "checked_sub x y = Some z \<Longrightarrow> unat z + unat y = unat (x :: u128)"
  "checked_sub x y = None \<Longrightarrow> unat x < unat y"
  by (auto simp: checked_sub_def word_less_nat_alt unat_sub word_le_nat_alt not_less split: if_splits)

lemma unat_add_u128: "unat x + unat y < 2 ^ 128 \<Longrightarrow> unat (x + y) = unat x + unat (y :: u128)"
  by (simp add: unat_word_ariths)

lemma lg_supply_balances [simp]: "lg_balance (l\<lparr>lg_supply := t\<rparr>) = lg_balance l"
  by (rule ext) (simp add: lg_balance_def)

text \<open>Every operation keeps the balances backed by the supply, and one that fails changes nothing.\<close>

lemma backed_step:
  assumes "backed l" "token_op_ok op l"
  shows "backed (snd (token_spec op l))"
proof (cases op)
  case (TMint s r amt)
  with assms balance_le_sum [of r l] have "unat (lg_balance l r) + unat amt < 2 ^ 128" "account_wf r"
    "unat (lg_supply l) + unat amt < 2 ^ 128" by (auto simp: backed_def token_op_ok_def)
  with TMint assms(1) sum_balance_update [of r l "lg_balance l r + amt"] show ?thesis
    by (simp add: backed_def unat_add_u128 lg_balance_def)
next
  case (TBurn s r amt)
  with assms have wf: "account_wf r" by (simp add: token_op_ok_def)
  show ?thesis
  proof (cases "checked_sub (lg_balance l r) amt")
    case (Some b)
    note sub = checked_sub_u128(1) [OF Some] and sum = sum_balance_update [OF wf, of l b]
    have "checked_sub (lg_supply l) amt \<noteq> None"
      using checked_sub_u128(2) [of "lg_supply l" amt] sub balance_le_sum [OF wf, of l] assms(1) by (auto simp: backed_def)
    then obtain t where t: "checked_sub (lg_supply l) amt = Some t" by blast
    from TBurn Some t sum sub checked_sub_u128(1) [OF t] assms(1) show ?thesis by (simp add: backed_def)
  qed (use TBurn assms in simp)
next
  case (TTransfer s r amt)
  then have wf: "account_wf s" "account_wf r" using assms by (auto simp: token_op_ok_def)
  show ?thesis
  proof (cases "checked_sub (lg_balance l s) amt")
    case (Some b)
    let ?l1 = "l\<lparr>lg_balances := (lg_balances l)(s \<mapsto> b)\<rparr>"
    have sub: "unat b + unat amt = unat (lg_balance l s)" using checked_sub_u128(1) [OF Some] .
    note sum1 = sum_balance_update [OF wf(1), of l b]
    have room: "unat (lg_balance ?l1 r) + unat amt < 2 ^ 128"
      using balance_le_sum [OF wf(2), of ?l1] sum1 sub assms(1) unat_lt_exp [of "lg_supply l"] by (simp add: backed_def)
    from TTransfer Some sum1 sum_balance_update [OF wf(2), of ?l1 "lg_balance ?l1 r + amt"] sub assms(1)
    show ?thesis by (simp add: backed_def Let_def unat_add_u128 [OF room])
  qed (use TTransfer assms in simp)
qed (use assms in simp_all)

lemma failed_step_unchanged:
  assumes "backed l" "token_op_ok op l" "fst (token_spec op l) = Err c"
  shows "snd (token_spec op l) = l"
proof (cases op)
  case (TBurn s r amt)
  with assms(1,2) balance_le_sum [of r l] have "unat (lg_balance l r) \<le> unat (lg_supply l)"
    by (auto simp: backed_def token_op_ok_def)
  with TBurn assms(3) show ?thesis
    by (auto dest!: checked_sub_u128 split: option.splits if_splits)
qed (use assms in \<open>auto simp: Let_def split: if_splits option.splits\<close>)

lemma backed_run: "backed l \<Longrightarrow> ops_ok token_spec token_op_ok ops l \<Longrightarrow> backed (snd (run_seq token_spec ops l))"
proof (induction ops arbitrary: l)
  case (Cons op ops)
  with Cons.IH [OF backed_step [of l op]] show ?case by (simp add: case_prod_unfold)
qed simp

section \<open>The token on its storage\<close>

definition manager_ok :: "account_id option \<Rightarrow> bool" where
  "manager_ok m = (case m of None \<Rightarrow> True | Some a \<Rightarrow> account_wf a)"

locale token_storage = bal: typed_map H account_wf "\<lambda>_. True" "tk_balances T"
    + sup: typed_map H "\<lambda>_. True" "\<lambda>_. True" "tk_total_supply T"
    + mgr: typed_map H "\<lambda>_. True" manager_ok "tk_supply_manager T"
  for H :: host and T :: token +
  assumes prefixes: "sm_prefix (tk_balances T) \<noteq> sm_prefix (tk_total_supply T)"
    "sm_prefix (tk_balances T) \<noteq> sm_prefix (tk_supply_manager T)"
    "sm_prefix (tk_total_supply T) \<noteq> sm_prefix (tk_supply_manager T)"

definition holds_ledger :: "token \<Rightarrow> ledger \<Rightarrow> mock_env \<Rightarrow> bool" where
  "holds_ledger T l e \<longleftrightarrow> account_wf (me_whoami e) \<and>
     typed account_wf (\<lambda>_. True) (tk_balances T) e \<and> typed (\<lambda>_. True) (\<lambda>_. True) (tk_total_supply T) e \<and>
     typed (\<lambda>_. True) manager_ok (tk_supply_manager T) e \<and>
     (\<forall>a. account_wf a \<longrightarrow> contents (tk_balances T) e a = lg_balances l a) \<and>
     contents (tk_total_supply T) e () = Some (lg_supply l) \<and>
     contents (tk_supply_manager T) e () = Some (lg_manager l)"

lemma with_sender_store [simp]:
  "contents m (with_sender s e) = contents m e" "typed K V m (with_sender s e) = typed K V m e"
  "me_whoami (with_sender s e) = me_whoami e" "env_sender (mock_view (with_sender s e)) = s"
  by (auto simp: contents_def typed_def mock_lookup_def with_sender_def mock_view_def fun_eq_iff)

lemma holds_ledger_with_sender [simp]: "holds_ledger T l (with_sender s e) = holds_ledger T l e"
  by (simp add: holds_ledger_def)

lemma env_sender_put [simp]:
  "env_sender (mock_view (mock_put k b e)) = env_sender (mock_view e)"
  by simp

context token_storage
begin

lemmas prefs = prefixes prefixes [symmetric]

lemma update_balance_run:
  assumes "holds_ledger T l e" "account_wf a"
  shows "mock_run H (map_update H (tk_balances T) a f) e =
    (case f (lg_balances l a) of
       Inl c \<Rightarrow> (Err c, e)
     | Inr v \<Rightarrow> (Ok v, mock_put (key_bytes (tk_balances T) a) (value_bytes (tk_balances T) v) e))"
  using bal.update_run [of a e f] assms by (auto simp: holds_ledger_def)

lemma holds_update_balance:
  assumes "holds_ledger T l e" "account_wf a"
  shows "holds_ledger T (l\<lparr>lg_balances := (lg_balances l)(a \<mapsto> v)\<rparr>)
    (mock_put (key_bytes (tk_balances T) a) (value_bytes (tk_balances T) v) e)"
  using assms by (auto simp: holds_ledger_def prefs bal.contents_put)

lemma update_supply_run:
  assumes "holds_ledger T l e"
  shows "mock_run H (item_update H (tk_total_supply T) f) e =
    (case f (Some (lg_supply l)) of
       Inl c \<Rightarrow> (Err c, e)
     | Inr v \<Rightarrow> (Ok v, mock_put (key_bytes (tk_total_supply T) ()) (value_bytes (tk_total_supply T) v) e))"
  using sup.update_run [where e = e and k = "()" and f = f] assms by (auto simp: holds_ledger_def item_update_def)

lemma holds_update_supply:
  assumes "holds_ledger T l e"
  shows "holds_ledger T (l\<lparr>lg_supply := v\<rparr>)
    (mock_put (key_bytes (tk_total_supply T) ()) (value_bytes (tk_total_supply T) v) e)"
  using assms by (auto simp: holds_ledger_def prefs sup.contents_put)

lemma manager_run:
  assumes "holds_ledger T l e"
  shows "mock_run_query H (item_get H (tk_supply_manager T)) e = (Ok (lg_manager l), e)"
  using mgr.may_get_run [where e = e and k = "()"] assms
  by (simp add: holds_ledger_def item_get_def item_may_get_def mock_run_simps andThen_def lift_result_def)

lemma mint_unchecked_sim:
  assumes "holds_ledger T l e" "account_wf r"
  obtains e' where "mock_run H (mint_unchecked H T r amt) e = (Ok (), e')"
    "holds_ledger T (l\<lparr>lg_balances := (lg_balances l)(r \<mapsto> lg_balance l r + amt), lg_supply := lg_supply l + amt\<rparr>) e'"
proof -
  note bal = holds_update_balance [OF assms, of "lg_balance l r + amt"]
  show ?thesis
    using that holds_update_supply [OF bal, of "lg_supply l + amt"] update_balance_run [OF assms] update_supply_run [OF bal]
    by (simp add: mint_unchecked_def mock_run_simps andThen_def lift_result_def lg_balance_def unwrap_or_default_def)
qed

lemma burn_unchecked_sim:
  assumes "holds_ledger T l e" "account_wf r" "lg_manager l = Some s"
  obtains e' where "fst (mock_run H (pbind (burn_unchecked H T r amt) (\<lambda>_. Return (Inr TDone))) e) =
      fst (token_spec (TBurn s r amt) l)" "snd (mock_run H (burn_unchecked H T r amt) e) = e'"
    "holds_ledger T (snd (token_spec (TBurn s r amt) l)) e'"
proof -
  have run: "mock_run H (map_update H (tk_balances T) r
      (\<lambda>balance. ok_or ERR_UNDERFLOW (checked_sub (unwrap_or_default balance) amt))) e =
    (case checked_sub (lg_balance l r) amt of
       None \<Rightarrow> (Err ERR_UNDERFLOW, e)
     | Some v \<Rightarrow> (Ok v, mock_put (key_bytes (tk_balances T) r) (value_bytes (tk_balances T) v) e))"
    using update_balance_run [OF assms(1,2)] by (simp add: lg_balance_def split: option.splits)
  show ?thesis
  proof (cases "checked_sub (lg_balance l r) amt")
    case None
    with run assms show ?thesis
      by (intro that [of e]) (simp_all add: burn_unchecked_def mock_run_simps andThen_def)
  next
    case (Some b)
    note bal = holds_update_balance [OF assms(1,2), of b]
    show ?thesis
    proof (cases "checked_sub (lg_supply l) amt")
      case None
      with run Some bal update_supply_run [OF bal] assms show ?thesis
        by (intro that [OF _ refl]) (simp_all add: burn_unchecked_def mock_run_simps andThen_def unwrap_or_default_def)
    next
      case (Some t)
      with run \<open>checked_sub (lg_balance l r) amt = Some b\<close> holds_update_supply [OF bal, of t] update_supply_run [OF bal] assms
      show ?thesis
        by (intro that [OF _ refl])
          (simp_all add: burn_unchecked_def mock_run_simps andThen_def unwrap_or_default_def lift_result_def)
    qed
  qed
qed

lemma transfer_sim:
  assumes "holds_ledger T l e" "account_wf s" "account_wf r" "env_sender (mock_view e) = s"
  shows "fst (mock_run H (token_prog H T (TTransfer s r amt)) e) = fst (token_spec (TTransfer s r amt) l) \<and>
    holds_ledger T (snd (token_spec (TTransfer s r amt) l)) (snd (mock_run H (token_prog H T (TTransfer s r amt)) e))"
proof (cases "checked_sub (lg_balance l s) amt")
  case None
  with update_balance_run [OF assms(1,2)] assms show ?thesis
    by (simp add: token_transfer_def mock_run_simps andThen_def lg_balance_def)
next
  case (Some b)
  let ?l = "l\<lparr>lg_balances := (lg_balances l)(s \<mapsto> b)\<rparr>"
  note bal = holds_update_balance [OF assms(1,2), of b]
  note bal2 = holds_update_balance [OF bal assms(3), of "lg_balance ?l r + amt"]
  from Some bal2 update_balance_run [OF assms(1,2)] update_balance_run [OF bal assms(3)] assms show ?thesis
    by (simp add: token_transfer_def mock_run_simps andThen_def lg_balance_def Let_def lift_result_def)
qed

lemma token_sim:
  assumes holds: "holds_ledger T l e" and ok: "token_op_wf op l"
  shows "fst (token_step H T op e) = fst (token_spec op l) \<and>
    holds_ledger T (snd (token_spec op l)) (snd (token_step H T op e))"
proof (cases op)
  case (TMint s r amt)
  let ?e = "with_sender s e"
  have h: "holds_ledger T l ?e" "account_wf r" using holds ok TMint by auto
  obtain e' where "mock_run H (mint_unchecked H T r amt) ?e = (Ok (), e')"
    "holds_ledger T (l\<lparr>lg_balances := (lg_balances l)(r \<mapsto> lg_balance l r + amt), lg_supply := lg_supply l + amt\<rparr>) e'"
    by (rule mint_unchecked_sim [OF h])
  with TMint manager_run [OF h(1)] holds show ?thesis
    by (simp add: token_step_def token_mint_def mock_run_simps andThen_def lift_result_def)
next
  case (TBurn s r amt)
  let ?e = "with_sender s e"
  have h: "holds_ledger T l ?e" "account_wf r" using holds ok TBurn by auto
  show ?thesis
  proof (cases "lg_manager l = Some s")
    case True
    obtain e' where "fst (mock_run H (pbind (burn_unchecked H T r amt) (\<lambda>_. Return (Inr TDone))) ?e) =
        fst (token_spec (TBurn s r amt) l)" "snd (mock_run H (burn_unchecked H T r amt) ?e) = e'"
      "holds_ledger T (snd (token_spec (TBurn s r amt) l)) e'"
      by (rule burn_unchecked_sim [OF h True])
    then show ?thesis using TBurn True manager_run [OF h(1)]
      by (auto simp: token_step_def token_burn_def mock_run_simps andThen_def lift_result_def
          simp del: token_spec.simps split: prod.splits outcome.splits)
  next
    case False
    with TBurn manager_run [OF h(1)] holds show ?thesis
      by (simp add: token_step_def token_burn_def mock_run_simps andThen_def lift_result_def)
  qed
next
  case (TTransfer s r amt)
  with transfer_sim [of l "with_sender s e" s r amt] holds ok show ?thesis by (simp add: token_step_def)
next
  case (TBalance a)
  with bal.may_get_run [of a e] holds ok show ?thesis
    by (simp add: token_step_def token_get_balance_def mock_run_simps andThen_def lift_result_def holds_ledger_def)
next
  case TSupply
  with sup.may_get_run [where e = e and k = "()"] holds show ?thesis
    by (simp add: token_step_def token_total_supply_def item_get_def item_may_get_def mock_run_simps andThen_def
        lift_result_def holds_ledger_def)
qed

end

sublocale token_storage \<subseteq> tok: data_refinement "token_step H T" token_spec "holds_ledger T" token_op_wf
  by unfold_locales (simp_all add: token_sim)

section \<open>Initialization\<close>

definition initial_ledger :: "(account_id \<times> u128) list \<Rightarrow> account_id option \<Rightarrow> ledger" where
  "initial_ledger bs m = \<lparr>lg_balances = map_of (rev bs), lg_supply = sum_list (map snd bs), lg_manager = m\<rparr>"

lemma token_storage_new:
  assumes "host_ok H" "storable manager_ok (tc_option_account C)"
  shows "token_storage H (token_new H C)"
  using assms storable_host [OF assms(1)]
  by (simp add: token_storage_def token_storage_axioms_def typed_map_def token_new_def item_new_def map_new_def)

context token_storage
begin

lemma initialize_balances_run:
  assumes "\<forall>(a, b) \<in> set bs. account_wf a" "typed account_wf (\<lambda>_. True) (tk_balances T) e"
  obtains e' where "mock_run H (initialize_balances H T bs t) e = (Ok (t + sum_list (map snd bs)), e')"
    "me_whoami e' = me_whoami e" "typed account_wf (\<lambda>_. True) (tk_balances T) e'"
    "\<forall>a. account_wf a \<longrightarrow> contents (tk_balances T) e' a = (contents (tk_balances T) e ++ map_of (rev bs)) a"
    "typed (\<lambda>_. True) (\<lambda>_. True) (tk_total_supply T) e' \<longleftrightarrow> typed (\<lambda>_. True) (\<lambda>_. True) (tk_total_supply T) e"
    "typed (\<lambda>_. True) manager_ok (tk_supply_manager T) e' \<longleftrightarrow> typed (\<lambda>_. True) manager_ok (tk_supply_manager T) e"
  using assms
proof (induction bs arbitrary: e t thesis)
  case Nil
  show ?case by (rule Nil(1) [of e]) (use Nil.prems in \<open>simp_all add: lift_result_def\<close>)
next
  case (Cons p bs)
  obtain a b where p: "p = (a, b)" by (cases p)
  let ?e = "mock_put (key_bytes (tk_balances T) a) (value_bytes (tk_balances T) b) e"
  have a: "account_wf a" using Cons.prems p by simp
  obtain e' where e': "mock_run H (initialize_balances H T bs (t + b)) ?e = (Ok (t + b + sum_list (map snd bs)), e')"
    "me_whoami e' = me_whoami ?e" "typed account_wf (\<lambda>_. True) (tk_balances T) e'"
    "\<forall>a. account_wf a \<longrightarrow> contents (tk_balances T) e' a = (contents (tk_balances T) ?e ++ map_of (rev bs)) a"
    "typed (\<lambda>_. True) (\<lambda>_. True) (tk_total_supply T) e' \<longleftrightarrow> typed (\<lambda>_. True) (\<lambda>_. True) (tk_total_supply T) ?e"
    "typed (\<lambda>_. True) manager_ok (tk_supply_manager T) e' \<longleftrightarrow> typed (\<lambda>_. True) manager_ok (tk_supply_manager T) ?e"
    by (rule Cons.IH [where e = ?e and t = "t + b"]) (use Cons.prems a in \<open>simp_all add: p\<close>)
  have "contents (tk_balances T) e' x = (contents (tk_balances T) e ++ map_of (rev (p # bs))) x" if "account_wf x" for x
    using e'(4) [rule_format, OF that] bal.contents_put [OF a TrueI that, of b e]
    by (auto simp: p map_add_def split: option.splits)
  with e' a show ?case
    by (intro Cons.prems(1) [of e'])
      (simp_all add: p mock_run_simps andThen_def bal.set_run prefs add.assoc)
qed

end

lemma token_initialize_run:
  assumes H: "host_ok H" and md: "storable MD (tc_metadata C)" "MD metadata"
    and mgr: "storable manager_ok (tc_option_account C)" "manager_ok m"
    and bs: "\<forall>(a, b) \<in> set bs. account_wf a" and a: "account_wf a"
  defines "T \<equiv> token_new H C"
  obtains e' where "mock_run H (token_initialize H T metadata bs m) (mock_new a s) = (Ok (), e')"
    "holds_ledger T (initial_ledger bs m) e'"
proof -
  note ts = token_storage_new [OF H mgr(1), folded T_def]
  have tm: "typed_map H (\<lambda>_. True) MD (tk_metadata T)" "typed_map H (\<lambda>_. True) manager_ok (tk_supply_manager T)"
    "typed_map H (\<lambda>_. True) (\<lambda>_. True) (tk_total_supply T)"
    using H md mgr storable_host [OF H] by (simp_all add: typed_map_def T_def token_new_def item_new_def map_new_def)
  have p: "sm_prefix (tk_metadata T) = 0" "sm_prefix (tk_balances T) = 1" "sm_prefix (tk_total_supply T) = 2"
    "sm_prefix (tk_supply_manager T) = 3"
    by (simp_all add: T_def token_new_def item_new_def map_new_def)
  let ?e0 = "mock_put (key_bytes (tk_metadata T) ()) (value_bytes (tk_metadata T) metadata) (mock_new a s)"
  have fresh: "typed account_wf (\<lambda>_. True) (tk_balances T) ?e0" by (simp add: p)
  obtain e1 where e1: "mock_run H (initialize_balances H T bs 0) ?e0 = (Ok (0 + sum_list (map snd bs)), e1)"
    "me_whoami e1 = me_whoami ?e0" "typed account_wf (\<lambda>_. True) (tk_balances T) e1"
    "\<forall>a. account_wf a \<longrightarrow> contents (tk_balances T) e1 a = (contents (tk_balances T) ?e0 ++ map_of (rev bs)) a"
    "typed (\<lambda>_. True) (\<lambda>_. True) (tk_total_supply T) e1 \<longleftrightarrow> typed (\<lambda>_. True) (\<lambda>_. True) (tk_total_supply T) ?e0"
    "typed (\<lambda>_. True) manager_ok (tk_supply_manager T) e1 \<longleftrightarrow> typed (\<lambda>_. True) manager_ok (tk_supply_manager T) ?e0"
    by (rule token_storage.initialize_balances_run [OF ts bs fresh, where t = 0])
  let ?e2 = "mock_put (key_bytes (tk_supply_manager T) ()) (value_bytes (tk_supply_manager T) m) e1"
  let ?e3 = "mock_put (key_bytes (tk_total_supply T) ()) (value_bytes (tk_total_supply T) (sum_list (map snd bs))) ?e2"
  have who: "account_wf (me_whoami e1)" using e1(2) a by (simp add: mock_new_def)
  have "mock_run H (token_initialize H T metadata bs m) (mock_new a s) = (Ok (), ?e3)"
    using e1(1) mgr(2) md(2)
    by (simp add: token_initialize_def mock_run_simps andThen_def item_set_def typed_map.set_run [OF tm(1)]
        typed_map.set_run [OF tm(2)] typed_map.set_run [OF tm(3)])
  moreover have "holds_ledger T (initial_ledger bs m) ?e3"
    using e1(3-6) mgr(2) who
    by (auto simp: holds_ledger_def p initial_ledger_def typed_map.contents_put [OF tm(3)] typed_map.contents_put [OF tm(2)]
        typed_map.typed_put [OF tm(2)] typed_map.typed_put [OF tm(3)])
  ultimately show ?thesis by (rule that)
qed

lemma initial_backed:
  assumes "distinct (map fst bs)" "\<forall>(a, b) \<in> set bs. account_wf a" "sum_list (map (unat \<circ> snd) bs) < 2 ^ 128"
  shows "backed (initial_ledger bs m)"
proof -
  have rev: "map_of (rev bs) = map_of bs" using assms(1) by (simp add: map_of_inject_set rev_map [symmetric])
  have "(\<Sum>a | account_wf a. unat (unwrap_or_default (map_of bs a))) = sum_list (map (unat \<circ> snd) bs)"
    using assms(1,2)
  proof (induction bs)
    case (Cons p bs)
    obtain a b where p: "p = (a, b)" by (cases p)
    let ?l = "\<lparr>lg_balances = map_of bs, lg_supply = 0, lg_manager = None\<rparr>"
    have "map_of bs a = None" "account_wf a" using Cons.prems by (auto simp: p map_of_eq_None_iff)
    with sum_balance_update [of a ?l b] Cons show ?case
      by (simp add: p lg_balance_def unwrap_or_default_def fun_upd_def eq_commute)
  qed (simp add: unwrap_or_default_def)
  moreover have "unat (sum_list (map snd bs)) = sum_list (map (unat \<circ> snd) bs)"
    using assms(3) by (induction bs) (auto simp: unat_add_u128)
  ultimately show ?thesis by (simp add: backed_def initial_ledger_def lg_balance_def rev)
qed

end
