(* ===== verification/Account_Theorems.thy ===== *)
theory Account_Theorems
  imports Token_Props Stf Reference_Host
begin

text \<open>The properties of the accounts of the SDK.\<close>

section \<open>The token on the reference host\<close>

definition metadata_codec :: "fungible_asset_metadata borsh" where
  "metadata_codec = struct_codec
     (\<lambda>(n, s, d, i, t). \<lparr>fm_name = n, fm_symbol = s, fm_decimals = d, fm_icon_url = i, fm_description = t\<rparr>)
     (\<lambda>m. (fm_name m, fm_symbol m, fm_decimals m, fm_icon_url m, fm_description m))
     (pair_codec string_codec (pair_codec string_codec (pair_codec (le_codec 1) (pair_codec string_codec string_codec))))"

definition reference_token_codecs :: "token_initialize_msg borsh \<Rightarrow> mint_msg borsh \<Rightarrow> burn_msg borsh \<Rightarrow> token_codecs" where
  "reference_token_codecs I M B =
     \<lparr>tc_metadata = metadata_codec, tc_option_account = option_codec account_codec,
      tc_option_u128 = option_codec (le_codec 16), tc_initialize_msg = I, tc_mint_msg = M, tc_burn_msg = B,
      tc_metadata_msg = unit_codec, tc_get_balance_msg = account_codec, tc_total_supply_msg = unit_codec\<rparr>"

definition example_metadata :: fungible_asset_metadata where
  "example_metadata = \<lparr>fm_name = ''Coin'', fm_symbol = ''C'', fm_decimals = 6, fm_icon_url = [], fm_description = []\<rparr>"

text \<open>The messages of the example take no part in it, so any codec will do for them.\<close>

definition unused_codec :: "'a borsh" where
  "unused_codec = \<lparr>serialize = (\<lambda>_. None), deserialize_reader = (\<lambda>_. None)\<rparr>"

definition example_codecs :: token_codecs where
  "example_codecs = reference_token_codecs unused_codec unused_codec unused_codec"

lemma borsh_ok_mono: "borsh_ok D B \<Longrightarrow> (\<And>x. E x \<Longrightarrow> D x) \<Longrightarrow> borsh_ok E B"
  by (simp add: borsh_ok_def)

lemma metadata_storable: "storable (\<lambda>m. m = example_metadata) (tc_metadata example_codecs)"
proof -
  let ?D = "\<lambda>(n, s, d :: u8, i, t). str_ok n \<and> str_ok s \<and> True \<and> str_ok i \<and> str_ok t"
  have u8: "borsh_ok (\<lambda>_. True) (le_codec 1 :: u8 borsh)" by (rule le_codec_ok) simp
  have "borsh_ok ?D (pair_codec string_codec (pair_codec string_codec (pair_codec (le_codec 1)
      (pair_codec string_codec string_codec))))"
    using pair_codec_ok [OF string_codec_ok pair_codec_ok [OF string_codec_ok pair_codec_ok [OF u8
      pair_codec_ok [OF string_codec_ok string_codec_ok]]]]
    by (rule borsh_ok_mono) auto
  then have "borsh_ok (\<lambda>m. m = example_metadata) metadata_codec"
    unfolding metadata_codec_def
    by (rule struct_codec_ok) (auto simp: example_metadata_def str_ok_def utf8_chars_def map_option_case)
  moreover have "length b < 2 ^ 32 - 1" if "serialize metadata_codec example_metadata = Some b" for b
    using that
    by (auto simp: metadata_codec_def struct_codec_def pair_codec_def string_codec_def vec_codec_def le_codec_def
        example_metadata_def str_bytes_def)
  ultimately show ?thesis by (simp add: storable_def example_codecs_def reference_token_codecs_def)
qed

lemma manager_storable: "storable manager_ok (tc_option_account example_codecs)"
proof -
  have "borsh_ok manager_ok (option_codec account_codec)"
    using option_codec_ok [OF account_codec_ok] by (rule borsh_ok_mono) (simp add: manager_ok_def)
  moreover have "length b < 2 ^ 32 - 1" if "serialize (option_codec account_codec) x = Some b" "manager_ok x" for x b
    using that by (auto simp: option_codec_def account_codec_def fixed_codec_def manager_ok_def split: option.splits if_splits)
  ultimately show ?thesis by (auto simp: storable_def example_codecs_def reference_token_codecs_def)
qed

interpretation et: token_storage reference_host "token_new reference_host example_codecs"
  by (rule token_storage_new [OF reference_host_ok manager_storable])

section \<open>Properties of the token\<close>

lemma token_run:
  assumes "host_ok H" "storable MD (tc_metadata C)" "MD metadata" "storable manager_ok (tc_option_account C)" "manager_ok m"
    "\<forall>(x, b) \<in> set bs. account_wf x" "account_wf a" "ops_ok token_spec token_op_wf ops (initial_ledger bs m)"
  defines "T \<equiv> token_new H C"
  defines "result \<equiv> \<lambda>s. run_seq (token_step H T) ops (snd (mock_run H (token_initialize H T metadata bs m) (mock_new a s)))"
  shows "fst (result s) = fst (run_seq token_spec ops (initial_ledger bs m)) \<and>
    holds_ledger T (snd (run_seq token_spec ops (initial_ledger bs m))) (snd (result s))"
proof -
  obtain e0 where e0: "mock_run H (token_initialize H T metadata bs m) (mock_new a s) = (Ok (), e0)"
    "holds_ledger T (initial_ledger bs m) e0"
    unfolding T_def by (rule token_initialize_run [OF assms(1-7)])
  have "data_refinement (token_step H T) token_spec (holds_ledger T) token_op_wf"
    by (rule data_refinement.intro)
      (simp_all add: token_storage.token_sim [OF token_storage_new [OF assms(1,4)]] T_def)
  from data_refinement.run_seq_sim [OF this e0(2) assms(8)] show ?thesis by (simp add: result_def e0(1))
qed


definition holder :: account_id where "holder = account_from_u64 70001"
definition other_holder :: account_id where "other_holder = account_from_u64 70002"
definition example_manager :: account_id where "example_manager = account_from_u64 70003"
definition token_address :: account_id where "token_address = account_from_u64 70000"

lemma example_accounts [simp]:
  "account_wf holder" "account_wf other_holder" "account_wf example_manager" "account_wf token_address"
  "holder \<noteq> other_holder" "other_holder \<noteq> holder"
  by (simp_all add: holder_def other_holder_def example_manager_def token_address_def)


abbreviation example_token :: token where
  "example_token \<equiv> token_new reference_host example_codecs"


text \<open>An account listed twice at initialization keeps only its last balance while both amounts
  enter the total supply: the supply is then not the sum of the balances.\<close>

theorem token_duplicate_balances:
  assumes "host_ok H" "storable MD (tc_metadata C)" "MD metadata" "storable manager_ok (tc_option_account C)" "manager_ok m"
    "account_wf a" "account_wf x"
  defines "T \<equiv> token_new H C"
  shows "fst (run_seq (token_step H T) [TBalance x, TSupply]
      (snd (mock_run H (token_initialize H T metadata [(x, b1), (x, b2)] m) (mock_new a s)))) =
    [Ok (TAmount (Some b2)), Ok (TAmount (Some (b1 + b2)))]"
proof -
  have "\<forall>(y, b) \<in> set [(x, b1), (x, b2)]. account_wf y" using assms(7) by simp
  from token_run [OF assms(1-5) this assms(6), of "[TBalance x, TSupply]" s] assms(7) show ?thesis
    by (simp add: T_def initial_ledger_def)
qed

theorem token_duplicate_balances_witness:
  "fst (run_seq (token_step reference_host example_token) [TBalance holder, TSupply]
      (snd (mock_run reference_host (token_initialize reference_host example_token example_metadata
        [(holder, 5), (holder, 7)] None) (mock_new token_address holder)))) =
    [Ok (TAmount (Some 7)), Ok (TAmount (Some 12))]"
  using token_duplicate_balances [OF reference_host_ok metadata_storable refl manager_storable, of None token_address holder 5 7 holder]
  by (simp add: manager_ok_def)

text \<open>Minting adds without a check for overflow: when balance and amount together reach \<open>2 ^ 128\<close>,
  mint succeeds and leaves the holder with less than before, where burn and transfer refuse to
  underflow.\<close>

theorem token_mint_wraps:
  assumes "host_ok H" "storable MD (tc_metadata C)" "MD metadata" "storable manager_ok (tc_option_account C)"
    "account_wf a" "account_wf x" "account_wf mgr" "unat b + unat amt \<ge> 2 ^ 128"
  defines "T \<equiv> token_new H C"
  shows "\<exists>b'. fst (run_seq (token_step H T) [TMint mgr x amt, TBalance x, TSupply]
      (snd (mock_run H (token_initialize H T metadata [(x, b)] (Some mgr)) (mock_new a s)))) =
    [Ok TDone, Ok (TAmount (Some b')), Ok (TAmount (Some b'))] \<and> b' < b"
proof -
  have "\<forall>(y, v) \<in> set [(x, b)]. account_wf y" "manager_ok (Some mgr)" using assms(6,7) by (simp_all add: manager_ok_def)
  from token_run [OF assms(1-4) this(2,1) assms(5), of "[TMint mgr x amt, TBalance x, TSupply]" s] assms(6)
  have "fst (run_seq (token_step H T) [TMint mgr x amt, TBalance x, TSupply]
      (snd (mock_run H (token_initialize H T metadata [(x, b)] (Some mgr)) (mock_new a s)))) =
    [Ok TDone, Ok (TAmount (Some (b + amt))), Ok (TAmount (Some (b + amt)))]"
    by (simp add: T_def initial_ledger_def lg_balance_def unwrap_or_default_def)
  moreover have "b + amt < b"
    using assms(8) unat_lt_exp [of b] unat_lt_exp [of amt]
    by (simp add: word_less_nat_alt unat_word_ariths mod_if) linarith
  ultimately show ?thesis by blast
qed

theorem token_mint_wraps_witness:
  "\<exists>b'. fst (run_seq (token_step reference_host example_token) [TMint example_manager holder (- 1), TBalance holder, TSupply]
      (snd (mock_run reference_host (token_initialize reference_host example_token example_metadata
        [(holder, 5)] (Some example_manager)) (mock_new token_address holder)))) =
    [Ok TDone, Ok (TAmount (Some b')), Ok (TAmount (Some b'))] \<and> b' < 5"
proof -
  have "unat (5 :: u128) + unat (- 1 :: u128) \<ge> 2 ^ 128" by (simp add: unat_minus_one_word)
  then show ?thesis
    by (intro token_mint_wraps [OF reference_host_ok metadata_storable refl manager_storable]) simp_all
qed

section \<open>The nonceless account\<close>

locale nonceless_storage = ts: typed_map H "\<lambda>_. True" "\<lambda>_. True" "na_last_seen_timestamp N"
    + ow: typed_map H "\<lambda>_. True" account_wf "na_owner N"
  for H :: host and N :: nonceless_account +
  assumes prefixes: "sm_prefix (na_last_seen_timestamp N) \<noteq> sm_prefix (na_owner N)"

definition holds_nonceless :: "nonceless_account \<Rightarrow> account_id \<times> u64 \<Rightarrow> mock_env \<Rightarrow> bool" where
  "holds_nonceless N = (\<lambda>(owner, last_ts) e. account_wf (me_whoami e) \<and>
     typed (\<lambda>_. True) (\<lambda>_. True) (na_last_seen_timestamp N) e \<and> typed (\<lambda>_. True) account_wf (na_owner N) e \<and>
     contents (na_owner N) e () = Some owner \<and> contents (na_last_seen_timestamp N) e () = Some last_ts)"

text \<open>A call of \<open>verify_and_update\<close> is its sender and its timestamp.\<close>

definition nonceless_step :: "host \<Rightarrow> nonceless_account \<Rightarrow> account_id \<times> u64 \<Rightarrow> (mock_env, error_code, unit) comp" where
  "nonceless_step H N = (\<lambda>(s, t) e. mock_run H (verify_and_update H N t) (with_sender s e))"

fun nonceless_spec :: "account_id \<times> u64 \<Rightarrow> account_id \<times> u64 \<Rightarrow> (error_code, unit) outcome \<times> account_id \<times> u64" where
  "nonceless_spec (s, t) (owner, last_ts) =
     (if s \<noteq> owner then (Err ERR_UNAUTHORIZED, (owner, last_ts))
      else if t \<le> last_ts then (Err ERR_TIMESTAMP_REPLAY, (owner, last_ts))
      else (Ok (), (owner, t)))"

context nonceless_storage
begin

lemma nonceless_sim:
  assumes "holds_nonceless N st e"
  shows "fst (nonceless_step H N op e) = fst (nonceless_spec op st) \<and>
    holds_nonceless N (snd (nonceless_spec op st)) (snd (nonceless_step H N op e))"
proof -
  obtain s t owner last_ts where eq: "op = (s, t)" "st = (owner, last_ts)" by (metis prod.collapse)
  let ?e = "with_sender s e"
  have h: "account_wf (me_whoami ?e)" "typed (\<lambda>_. True) (\<lambda>_. True) (na_last_seen_timestamp N) ?e"
    "typed (\<lambda>_. True) account_wf (na_owner N) ?e" "contents (na_owner N) ?e () = Some owner"
    "contents (na_last_seen_timestamp N) ?e () = Some last_ts"
    using assms by (simp_all add: eq holds_nonceless_def)
  have "mock_run_query H (item_get H (na_owner N)) ?e = (Ok owner, ?e)"
    "mock_run_query H (item_may_get H (na_last_seen_timestamp N)) ?e = (Ok (Some last_ts), ?e)"
    using ow.may_get_run [where e = ?e and k = "()"] ts.may_get_run [where e = ?e and k = "()"] h
    by (simp_all add: item_get_def item_may_get_def mock_run_simps andThen_def lift_result_def)
  then show ?thesis using h prefixes prefixes [symmetric]
    by (cases "s = owner") (simp_all add: eq nonceless_step_def verify_and_update_def mock_run_simps andThen_def lift_result_def item_set_def
        ts.set_run holds_nonceless_def unwrap_or_default_def ts.contents_put)
qed

lemma initialize_run:
  assumes "account_wf owner" "account_wf a"
  obtains e where "mock_run H (nonceless_initialize H N owner) (mock_new a s) = (Ok (), e)" "holds_nonceless N (owner, 0) e"
proof -
  let ?e1 = "mock_put (key_bytes (na_owner N) ()) (value_bytes (na_owner N) owner) (mock_new a s)"
  let ?e = "mock_put (key_bytes (na_last_seen_timestamp N) ()) (value_bytes (na_last_seen_timestamp N) 0) ?e1"
  have "mock_run H (nonceless_initialize H N owner) (mock_new a s) = (Ok (), ?e)"
    by (simp add: nonceless_initialize_def mock_run_simps andThen_def item_set_def ow.set_run ts.set_run assms)
  moreover have "account_wf (me_whoami (mock_new a s))" using assms by (simp add: mock_new_def)
  then have "holds_nonceless N (owner, 0) ?e"
    using assms prefixes prefixes [symmetric] by (simp add: holds_nonceless_def ow.contents_put ts.contents_put)
  ultimately show ?thesis by (rule that)
qed

end

sublocale nonceless_storage \<subseteq> na: data_refinement "nonceless_step H N" nonceless_spec "holds_nonceless N" "\<lambda>_ _. True"
  by unfold_locales (simp_all add: nonceless_sim)

lemma nonceless_storage_new: "host_ok H \<Longrightarrow> nonceless_storage H (nonceless_new H)"
  using storable_host [of H]
  by (simp add: nonceless_storage_def nonceless_storage_axioms_def typed_map_def nonceless_new_def item_new_def map_new_def)

interpretation en: nonceless_storage reference_host "nonceless_new reference_host"
  by (rule nonceless_storage_new [OF reference_host_ok])

definition accepted_calls :: "('e, unit) outcome list \<Rightarrow> 'c list \<Rightarrow> 'c list" where
  "accepted_calls rs calls = map snd (filter (\<lambda>(r, c). r = Ok ()) (zip rs calls))"

lemma nonceless_accepted:
  "sorted_wrt (<) (map snd (accepted_calls (fst (run_seq nonceless_spec calls (owner, last_ts))) calls)) \<and>
   list_all (\<lambda>(s, t). s = owner \<and> last_ts < t) (accepted_calls (fst (run_seq nonceless_spec calls (owner, last_ts))) calls)"
proof (induction calls arbitrary: last_ts)
  case (Cons call calls)
  obtain s t where call: "call = (s, t)" by (cases call)
  show ?case
  proof (cases "s = owner \<and> last_ts < t")
    case True
    with Cons [of t] show ?thesis
      by (auto simp: call accepted_calls_def list_all_iff split_beta intro: order.strict_trans)
  next
    case False
    with Cons [of last_ts] show ?thesis by (auto simp: call accepted_calls_def split_beta)
  qed
qed (simp add: accepted_calls_def)

text \<open>A nonceless account accepts no timestamp twice: whoever calls \<open>verify_and_update\<close> with
  whatever timestamps, the accepted calls all come from the owner and their timestamps increase
  strictly.\<close>

theorem nonceless_no_replay:
  assumes "host_ok H" "account_wf owner" "account_wf a"
  defines "N \<equiv> nonceless_new H"
  defines "acc \<equiv> \<lambda>calls s. accepted_calls (fst (run_seq (nonceless_step H N) calls
      (snd (mock_run H (nonceless_initialize H N owner) (mock_new a s))))) calls"
  shows "sorted_wrt (<) (map snd (acc calls s)) \<and> list_all (\<lambda>c. fst c = owner) (acc calls s)"
proof -
  note ns = nonceless_storage_new [OF assms(1), folded N_def]
  obtain e where e: "mock_run H (nonceless_initialize H N owner) (mock_new a s) = (Ok (), e)" "holds_nonceless N (owner, 0) e"
    by (rule nonceless_storage.initialize_run [OF ns assms(2,3)])
  have "data_refinement (nonceless_step H N) nonceless_spec (holds_nonceless N) (\<lambda>_ _. True)"
    by (rule data_refinement.intro) (simp_all add: nonceless_storage.nonceless_sim [OF ns])
  from data_refinement.run_seq_sim [OF this e(2) ops_ok_True, of calls]
  have "acc calls s = accepted_calls (fst (run_seq nonceless_spec calls (owner, 0))) calls"
    by (simp add: acc_def e(1))
  with nonceless_accepted [of calls owner 0] show ?thesis by (auto simp: list_all_iff)
qed

theorem nonceless_no_replay_witness:
  "sorted_wrt (<) (map snd (accepted_calls (fst (run_seq (nonceless_step reference_host (nonceless_new reference_host))
      [(holder, 5), (holder, 5), (other_holder, 9), (holder, 7 :: u64)]
      (snd (mock_run reference_host (nonceless_initialize reference_host (nonceless_new reference_host) holder)
        (mock_new token_address holder))))) [(holder, 5), (holder, 5), (other_holder, 9), (holder, 7 :: u64)]))"
  using nonceless_no_replay [OF reference_host_ok, of holder token_address
      "[(holder, 5), (holder, 5), (other_holder, 9), (holder, 7)]" holder]
    example_accounts(1,4) by blast

section \<open>The scheduler in a block\<close>

text \<open>When the scheduler's hook returns an error, because the scheduler is not registered or one of
  the accounts it calls fails, the block is not refused: the begin blocker unwraps the result and the
  execution of the block panics.\<close>

theorem scheduler_error_panics_block:
  assumes "begin_blocker S b = scheduler_begin_block H C scheduler_id"
    "invoke_request_new (msg_of H ''schedule_begin_block'' (sc_empty_msg C)) () = Inr req"
    "do_exec H A n (new_for_begin_block (blk_context b)) scheduler_id req [] \<lparr>w_state = s, w_gas = Infinite\<rparr> = (Err c, w)"
  shows "apply_block H A n S b s = (Panic, w_state w)"
proof -
  have "run_in H A n (new_for_begin_block (blk_context b)) (begin_blocker S b) \<lparr>w_state = s, w_gas = Infinite\<rparr> = (Panic, w)"
    using assms
    by (simp add: run_in_def scheduler_begin_block_def unwrap_prog_def exec_wrapper_def exec_account_def attempt_def unwind_def)
  then show ?thesis by (simp add: apply_block_def do_begin_block_def run_blocker_def andThen_def)
qed

definition reference_scheduler_codecs :: scheduler_codecs where
  "reference_scheduler_codecs = \<lparr>sc_account_list = unused_codec, sc_initialize_msg = unused_codec,
     sc_update_msg = unused_codec, sc_empty_msg = unit_codec\<rparr>"

definition scheduled_stf :: stf where
  "scheduled_stf = \<lparr>begin_blocker = (\<lambda>b. scheduler_begin_block reference_host reference_scheduler_codecs token_address),
     end_blocker = Return (Inr ()), tx_validator = (\<lambda>tx. Return (Inr ())),
     post_tx_handler = (\<lambda>tx gas r. Return (Inr ())), stf_gas_config = \<lparr>storage_get_charge = 10, storage_set_charge = 10, storage_remove_charge = 10\<rparr>\<rparr>"

definition empty_block :: blk where
  "empty_block = \<lparr>blk_context = block_context_default, blk_txs = [], blk_gas_limit = 1000\<rparr>"

lemma unregistered_scheduler:
  obtains w where "do_exec reference_host (\<lambda>_. Inr None) 1 (new_for_begin_block (blk_context empty_block)) token_address req []
    \<lparr>w_state = exec_state_new (\<lambda>_. Inr None), w_gas = Infinite\<rparr> = (Err ERR_ACCOUNT_DOES_NOT_EXIST, w)"
proof -
  have "token_address \<noteq> RUNTIME_ACCOUNT_ID" "token_address \<noteq> STORAGE_ACCOUNT_ID"
    by (simp_all add: token_address_def RUNTIME_ACCOUNT_ID_def STORAGE_ACCOUNT_ID_def)
  then have "fst (do_exec reference_host (\<lambda>_. Inr None) 1 (new_for_begin_block (blk_context empty_block)) token_address req []
    \<lparr>w_state = exec_state_new (\<lambda>_. Inr None), w_gas = Infinite\<rparr>) = Err ERR_ACCOUNT_DOES_NOT_EXIST"
    by (simp add: do_exec_with_def handle_transfers_def ret_def exec_without_transfers_def andThen_def account_code_of_def
        on_state_def get_account_code_identifier_for_account_def get_logical logical_get_def exec_state_new_def
        lift_result_def checkpoint_def new_for_begin_block_def MAX_CALL_DEPTH_def restore_or_panic_def restore_def
        split: prod.splits)
  then show ?thesis by (metis prod.collapse that)
qed

theorem scheduler_error_panics_block_witness:
  "\<exists>s. apply_block reference_host (\<lambda>_. Inr None) 1 scheduled_stf empty_block (exec_state_new (\<lambda>_. Inr None)) = (Panic, s)"
proof -
  obtain req where req:
    "invoke_request_new (msg_of reference_host ''schedule_begin_block'' (sc_empty_msg reference_scheduler_codecs)) () = Inr req"
    by (simp add: invoke_request_new_def message_new_def encode_def to_vec_def msg_of_def reference_scheduler_codecs_def unit_codec_def)
  obtain w where "do_exec reference_host (\<lambda>_. Inr None) 1 (new_for_begin_block (blk_context empty_block)) token_address req []
    \<lparr>w_state = exec_state_new (\<lambda>_. Inr None), w_gas = Infinite\<rparr> = (Err ERR_ACCOUNT_DOES_NOT_EXIST, w)"
    by (rule unregistered_scheduler)
  then have "apply_block reference_host (\<lambda>_. Inr None) 1 scheduled_stf empty_block (exec_state_new (\<lambda>_. Inr None)) = (Panic, w_state w)"
    by (intro scheduler_error_panics_block [OF _ req]) (simp_all add: scheduled_stf_def)
  then show ?thesis by blast
qed

end
