(* ===== verification/Storage_Types.thy ===== *)
theory Storage_Types
  imports Exec_State
begin

text \<open>
  Types of the storage layer (\<open>crates/storage/src/types.rs\<close>, \<open>lib.rs\<close>, \<open>mock.rs\<close>): the limits and
  error codes, the fixed-size envelope of a key, batches of operations, the read-only view with
  its derived queries, and the in-memory storage of development runs. A commit hash is a string of
  32 bytes. Names the execution state also uses carry the prefix \<open>STORAGE_\<close>.
\<close>

section \<open>Configuration and limits\<close>

record block_storage_config =
  bs_partition_prefix :: string
  blocks_per_section :: u64
  key_write_buffer :: nat
  value_write_buffer :: nat
  replay_buffer :: nat
  compression_level :: u8
  retention_blocks :: u64

definition block_storage_config_default :: block_storage_config where
  "block_storage_config_default = \<lparr>bs_partition_prefix = ''evolve-blocks'', blocks_per_section = 65536,
     key_write_buffer = 1024 * 1024, value_write_buffer = 4 * 1024 * 1024, replay_buffer = 4096,
     compression_level = 3, retention_blocks = 100000\<rparr>"

record storage_config =
  sc_path :: string
  sc_cache_size :: u64
  sc_write_buffer_size :: u64
  sc_partition_prefix :: string

definition storage_config_default :: storage_config where
  "storage_config_default = \<lparr>sc_path = ''./data'', sc_cache_size = 1024 * 1024 * 1024,
     sc_write_buffer_size = 64 * 1024 * 1024, sc_partition_prefix = ''evolve-state''\<rparr>"

type_synonym commit_hash = bytes

datatype storage_operation = OperationSet (op_key: bytes) bytes | OperationRemove (op_key: bytes)

definition ERR_STORAGE_IO :: error_code where "ERR_STORAGE_IO = define_error 0x1"
definition ERR_ADB_ERROR :: error_code where "ERR_ADB_ERROR = define_error 0x2"
definition ERR_CONCURRENCY_ERROR :: error_code where "ERR_CONCURRENCY_ERROR = define_error 0x3"
definition ERR_RUNTIME_ERROR :: error_code where "ERR_RUNTIME_ERROR = define_error 0x4"
definition STORAGE_ERR_KEY_TOO_LARGE :: error_code where "STORAGE_ERR_KEY_TOO_LARGE = define_error 0x5"
definition STORAGE_ERR_VALUE_TOO_LARGE :: error_code where "STORAGE_ERR_VALUE_TOO_LARGE = define_error 0x6"
definition ERR_BATCH_TOO_LARGE :: error_code where "ERR_BATCH_TOO_LARGE = define_error 0x7"

definition KEY_LENGTH_PREFIX_SIZE :: nat where "KEY_LENGTH_PREFIX_SIZE = 2"
definition STORAGE_KEY_SIZE :: nat where "STORAGE_KEY_SIZE = 256"
definition STORAGE_MAX_KEY_SIZE :: nat where "STORAGE_MAX_KEY_SIZE = MAX_STORAGE_KEY_SIZE"
definition MAX_BATCH_SIZE :: nat where "MAX_BATCH_SIZE = 10000"
definition STORAGE_MAX_VALUE_SIZE :: nat where "STORAGE_MAX_VALUE_SIZE = 4092"

text \<open>The compile-time assertion of the source.\<close>

lemma storage_key_size_assertion: "STORAGE_MAX_KEY_SIZE + KEY_LENGTH_PREFIX_SIZE = STORAGE_KEY_SIZE"
  by (simp add: STORAGE_MAX_KEY_SIZE_def MAX_STORAGE_KEY_SIZE_def KEY_LENGTH_PREFIX_SIZE_def
      STORAGE_KEY_SIZE_def)

section \<open>The envelope of a key\<close>

text \<open>\<open>data[i..i + src.len()].copy_from_slice(src)\<close>, for a range inside \<open>data\<close>.\<close>

definition copy_from_slice :: "nat \<Rightarrow> 'a list \<Rightarrow> 'a list \<Rightarrow> 'a list" where
  "copy_from_slice i src data = take i data @ src @ drop (i + length src) data"

definition create_storage_key :: "bytes \<Rightarrow> error_code + bytes" where
  "create_storage_key key =
     (if length key > STORAGE_MAX_KEY_SIZE then Inl STORAGE_ERR_KEY_TOO_LARGE
      else let data = replicate STORAGE_KEY_SIZE 0;
               len_bytes = le_bytes 2 (of_nat (length key) :: u16);
               data = copy_from_slice 0 len_bytes data
           in Inr (copy_from_slice KEY_LENGTH_PREFIX_SIZE key data))"

lemma length_copy_from_slice [simp]:
  "i + length src \<le> length data \<Longrightarrow> length (copy_from_slice i src data) = length data"
  by (simp add: copy_from_slice_def)

lemma create_storage_key_eq:
  "create_storage_key key =
     (if length key > 254 then Inl STORAGE_ERR_KEY_TOO_LARGE
      else Inr (le_bytes 2 (of_nat (length key) :: u16) @ key @ replicate (254 - length key) 0))"
proof (cases "length key > 254")
  case False
  have "copy_from_slice 2 key (copy_from_slice 0 len (replicate 256 0)) =
      len @ key @ replicate (254 - length key) 0" if "length len = 2" for len :: bytes
    using False that by (simp add: copy_from_slice_def drop_append)
  then show ?thesis using False
    by (simp add: create_storage_key_def STORAGE_MAX_KEY_SIZE_def MAX_STORAGE_KEY_SIZE_def
        STORAGE_KEY_SIZE_def KEY_LENGTH_PREFIX_SIZE_def)
qed (simp add: create_storage_key_def STORAGE_MAX_KEY_SIZE_def MAX_STORAGE_KEY_SIZE_def)

lemma create_storage_key_ok_iff: "(\<exists>s. create_storage_key k = Inr s) \<longleftrightarrow> length k \<le> STORAGE_MAX_KEY_SIZE"
  by (simp add: create_storage_key_eq STORAGE_MAX_KEY_SIZE_def MAX_STORAGE_KEY_SIZE_def)

lemma create_storage_key_size: "create_storage_key k = Inr s \<Longrightarrow> length s = STORAGE_KEY_SIZE"
  by (auto simp: create_storage_key_eq STORAGE_KEY_SIZE_def split: if_splits)

lemma create_storage_key_inject:
  assumes "create_storage_key k = Inr s" and "create_storage_key k' = Inr s"
  shows "k = k'"
proof -
  from assms have le: "length k \<le> 254" "length k' \<le> 254"
    and eq: "le_bytes 2 (of_nat (length k) :: u16) @ k @ replicate (254 - length k) 0 =
      le_bytes 2 (of_nat (length k') :: u16) @ k' @ replicate (254 - length k') 0"
    by (auto simp: create_storage_key_eq split: if_splits)
  from eq have "le_bytes 2 (of_nat (length k) :: u16) = le_bytes 2 (of_nat (length k') :: u16)"
    and tails: "k @ replicate (254 - length k) 0 = k' @ replicate (254 - length k') 0" by simp_all
  then have "unat (of_nat (length k) :: u16) mod 256 ^ 2 = unat (of_nat (length k') :: u16) mod 256 ^ 2"
    by (metis le_val_le_bytes)
  moreover have "unat (of_nat n :: u16) mod 256 ^ 2 = n" if "n \<le> 254" for n
    using that by (simp add: unat_of_nat)
  ultimately have "length k = length k'" using le by simp
  with tails show ?thesis by (metis append_eq_append_conv)
qed

section \<open>Storages\<close>

text \<open>
  What a batch does to the key-value map a storage presents; \<open>ReadonlyKVExt\<close> derives its queries
  from \<open>get\<close>.
\<close>

fun op_apply :: "storage_operation \<Rightarrow> (bytes \<rightharpoonup> bytes) \<Rightarrow> (bytes \<rightharpoonup> bytes)" where
  "op_apply (OperationSet key value) m = m(key \<mapsto> value)"
| "op_apply (OperationRemove key) m = m(key := None)"

definition kv_exists :: "readonly_kv \<Rightarrow> bytes \<Rightarrow> error_code + bool" where
  "kv_exists S key = bind_result (S key) (\<lambda>v. Inr (v \<noteq> None))"

definition get_or_default :: "readonly_kv \<Rightarrow> bytes \<Rightarrow> bytes \<Rightarrow> error_code + bytes" where
  "get_or_default S key dflt =
     bind_result (S key) (\<lambda>v. Inr (case v of Some data \<Rightarrow> data | None \<Rightarrow> dflt))"

text \<open>\<open>MockStorage\<close>: an ordered map used by key only; its locks are never poisoned.\<close>

type_synonym mock_storage = "(bytes, bytes) hashmap"

definition mock_storage_new :: mock_storage where "mock_storage_new = []"

definition mock_storage_get :: "mock_storage \<Rightarrow> readonly_kv" where
  "mock_storage_get st key = Inr (hm_get st key)"

definition mock_storage_commit :: "mock_storage \<Rightarrow> error_code + commit_hash" where
  "mock_storage_commit st = Inr (replicate 32 0)"

fun mock_storage_op :: "storage_operation \<Rightarrow> mock_storage \<Rightarrow> mock_storage" where
  "mock_storage_op (OperationSet key value) st = hm_insert key value st"
| "mock_storage_op (OperationRemove key) st = hm_remove key st"

definition mock_storage_batch :: "storage_operation list \<Rightarrow> mock_storage \<Rightarrow> (error_code + unit) \<times> mock_storage" where
  "mock_storage_batch operations st = (Inr (), fold mock_storage_op operations st)"

lemma mock_storage_op_map: "map_of (mock_storage_op op st) = op_apply op (map_of st)"
  by (cases op) (simp_all add: update_conv' delete_conv' fun_upd_def)

lemma mock_storage_batch_map:
  "map_of (snd (mock_storage_batch ops st)) = fold op_apply ops (map_of st)"
proof -
  have "map_of (fold mock_storage_op ops st) = fold op_apply ops (map_of st)"
    by (induction ops arbitrary: st) (simp_all add: mock_storage_op_map)
  then show ?thesis by (simp add: mock_storage_batch_def)
qed

text \<open>A batch that writes each key once acts on the keys independently.\<close>

lemma fold_op_apply_other: "k \<notin> op_key ` set ops \<Longrightarrow> fold op_apply ops m k = m k"
proof (induction ops arbitrary: m)
  case (Cons op ops)
  then show ?case by (cases op) simp_all
qed simp

lemma fold_op_apply_last:
  "fold op_apply (ops @ [op]) m k = (if k = op_key op then op_apply op m k else fold op_apply ops m k)"
  by (cases op) simp_all

end
