(* ===== verification/Storage_Cache.thy ===== *)
theory Storage_Cache
  imports Storage_Types
begin

text \<open>
  The read caches of the storage layer (\<open>crates/storage/src/cache.rs\<close>) and cache warming
  (\<open>warming.rs\<close>). An entry is a value or the confirmation that the key is absent. A full cache
  drops half of its entries, in the order in which the hash map visits its keys: that order is the
  parameter \<open>ord\<close>, a function from the keys to a list of them. The locks serialise the operations;
  interleavings with the database are in the theory of the database storage.
\<close>

section \<open>One cache\<close>

datatype cached_value = Present bytes | Absent

definition DEFAULT_MAX_ENTRIES :: nat where "DEFAULT_MAX_ENTRIES = 16384"
definition NUM_SHARDS :: nat where "NUM_SHARDS = 256"

type_synonym cache_entries = "(bytes, cached_value) hashmap"
type_synonym visit_order = "bytes list \<Rightarrow> bytes list"

record db_cache =
  entries :: cache_entries
  max_entries :: nat

definition db_cache_new :: "nat \<Rightarrow> db_cache" where
  "db_cache_new n = \<lparr>entries = [], max_entries = n\<rparr>"

definition db_cache_with_defaults :: db_cache where
  "db_cache_with_defaults = db_cache_new DEFAULT_MAX_ENTRIES"

definition db_cache_get :: "bytes \<Rightarrow> db_cache \<Rightarrow> cached_value option" where
  "db_cache_get key c = hm_get (entries c) key"

definition db_cache_insert :: "visit_order \<Rightarrow> bytes \<Rightarrow> cached_value \<Rightarrow> db_cache \<Rightarrow> db_cache" where
  "db_cache_insert ord key value c =
     (let es = entries c;
          es = (if length es \<ge> max_entries c
                then let to_remove = take (max_entries c div 2) (ord (map fst es)) in fold hm_remove to_remove es
                else es)
      in c\<lparr>entries := hm_insert key value es\<rparr>)"

definition insert_present :: "visit_order \<Rightarrow> bytes \<Rightarrow> bytes \<Rightarrow> db_cache \<Rightarrow> db_cache" where
  "insert_present ord key value = db_cache_insert ord key (Present value)"

definition insert_absent :: "visit_order \<Rightarrow> bytes \<Rightarrow> db_cache \<Rightarrow> db_cache" where
  "insert_absent ord key = db_cache_insert ord key Absent"

definition db_cache_invalidate :: "bytes \<Rightarrow> db_cache \<Rightarrow> db_cache" where
  "db_cache_invalidate key c = c\<lparr>entries := hm_remove key (entries c)\<rparr>"

definition db_cache_clear :: "db_cache \<Rightarrow> db_cache" where
  "db_cache_clear c = c\<lparr>entries := []\<rparr>"

definition db_cache_len :: "db_cache \<Rightarrow> nat" where
  "db_cache_len c = length (entries c)"

definition db_cache_is_empty :: "db_cache \<Rightarrow> bool" where
  "db_cache_is_empty c = (entries c = [])"

section \<open>The sharded cache\<close>

text \<open>A shard has the fields of \<open>DbCache\<close> and repeats its methods word for word.\<close>

type_synonym cache_shard = db_cache

definition shard_new :: "nat \<Rightarrow> cache_shard" where
  "shard_new = db_cache_new"

definition shard_get :: "bytes \<Rightarrow> cache_shard \<Rightarrow> cached_value option" where
  "shard_get = db_cache_get"

definition shard_insert :: "visit_order \<Rightarrow> bytes \<Rightarrow> cached_value \<Rightarrow> cache_shard \<Rightarrow> cache_shard" where
  "shard_insert = db_cache_insert"

definition shard_invalidate :: "bytes \<Rightarrow> cache_shard \<Rightarrow> cache_shard" where
  "shard_invalidate = db_cache_invalidate"

type_synonym sharded_cache = "cache_shard list"

definition sharded_new :: "nat \<Rightarrow> sharded_cache" where
  "sharded_new max_entries_per_shard = replicate NUM_SHARDS (shard_new max_entries_per_shard)"

definition sharded_with_defaults :: sharded_cache where
  "sharded_with_defaults = sharded_new (DEFAULT_MAX_ENTRIES div NUM_SHARDS)"

definition shard_index :: "bytes \<Rightarrow> nat" where
  "shard_index key = unat (case key of [] \<Rightarrow> 0 | b # _ \<Rightarrow> b)"

definition sharded_get :: "bytes \<Rightarrow> sharded_cache \<Rightarrow> cached_value option" where
  "sharded_get key c = shard_get key (c ! shard_index key)"

definition on_shard :: "nat \<Rightarrow> (cache_shard \<Rightarrow> cache_shard) \<Rightarrow> sharded_cache \<Rightarrow> sharded_cache" where
  "on_shard i f c = c[i := f (c ! i)]"

definition sharded_insert :: "visit_order \<Rightarrow> bytes \<Rightarrow> cached_value \<Rightarrow> sharded_cache \<Rightarrow> sharded_cache" where
  "sharded_insert ord key value = on_shard (shard_index key) (shard_insert ord key value)"

definition sharded_insert_present :: "visit_order \<Rightarrow> bytes \<Rightarrow> bytes \<Rightarrow> sharded_cache \<Rightarrow> sharded_cache" where
  "sharded_insert_present ord key value = sharded_insert ord key (Present value)"

definition sharded_insert_absent :: "visit_order \<Rightarrow> bytes \<Rightarrow> sharded_cache \<Rightarrow> sharded_cache" where
  "sharded_insert_absent ord key = sharded_insert ord key Absent"

definition sharded_invalidate :: "bytes \<Rightarrow> sharded_cache \<Rightarrow> sharded_cache" where
  "sharded_invalidate key = on_shard (shard_index key) (shard_invalidate key)"

definition sharded_clear :: "sharded_cache \<Rightarrow> sharded_cache" where
  "sharded_clear c = map db_cache_clear c"

definition sharded_len :: "sharded_cache \<Rightarrow> nat" where
  "sharded_len c = sum_list (map db_cache_len c)"

definition sharded_is_empty :: "sharded_cache \<Rightarrow> bool" where
  "sharded_is_empty c = list_all (\<lambda>s. db_cache_len s = 0) c"

definition group_by_shard :: "bytes list \<Rightarrow> bytes list list" where
  "group_by_shard keys =
     fold (\<lambda>key groups. groups[shard_index key := groups ! shard_index key @ [key]]) keys
       (replicate NUM_SHARDS [])"

definition prefetch_key ::
    "visit_order \<Rightarrow> (bytes \<Rightarrow> 'e + bytes option) \<Rightarrow> nat \<Rightarrow> bytes \<Rightarrow> sharded_cache \<Rightarrow> sharded_cache" where
  "prefetch_key ord fetch_fn shard_idx key c =
     (if shard_get key (c ! shard_idx) \<noteq> None then c
      else case fetch_fn key of
             Inr (Some value) \<Rightarrow> on_shard shard_idx (shard_insert ord key (Present value)) c
           | Inr None \<Rightarrow> on_shard shard_idx (shard_insert ord key Absent) c
           | Inl _ \<Rightarrow> c)"

definition prefetch_keys ::
    "visit_order \<Rightarrow> (bytes \<Rightarrow> 'e + bytes option) \<Rightarrow> bytes list \<Rightarrow> sharded_cache \<Rightarrow> sharded_cache" where
  "prefetch_keys ord fetch_fn keys c =
     fold (\<lambda>(shard_idx, keys) c. fold (prefetch_key ord fetch_fn shard_idx) keys c)
       (enumerate 0 (group_by_shard keys)) c"

section \<open>The cached storage\<close>

record cached_storage =
  cst_storage :: readonly_kv
  cst_cache :: db_cache

definition cached_storage_new :: "readonly_kv \<Rightarrow> cached_storage" where
  "cached_storage_new S = \<lparr>cst_storage = S, cst_cache = db_cache_with_defaults\<rparr>"

definition with_cache :: "readonly_kv \<Rightarrow> db_cache \<Rightarrow> cached_storage" where
  "with_cache S c = \<lparr>cst_storage = S, cst_cache = c\<rparr>"

definition invalidate_keys :: "bytes list \<Rightarrow> cached_storage \<Rightarrow> cached_storage" where
  "invalidate_keys keys s = s\<lparr>cst_cache := fold db_cache_invalidate keys (cst_cache s)\<rparr>"

fun cached_result :: "cached_value \<Rightarrow> bytes option" where
  "cached_result (Present data) = Some data"
| "cached_result Absent = None"

definition cached_storage_get :: "visit_order \<Rightarrow> bytes \<Rightarrow> cached_storage \<Rightarrow> (error_code + bytes option) \<times> cached_storage" where
  "cached_storage_get ord key s =
     (case db_cache_get key (cst_cache s) of
        Some cached \<Rightarrow> (Inr (cached_result cached), s)
      | None \<Rightarrow>
          (case cst_storage s key of
             Inl e \<Rightarrow> (Inl e, s)
           | Inr result \<Rightarrow>
               (Inr result,
                s\<lparr>cst_cache := (case result of
                    Some data \<Rightarrow> insert_present ord key data (cst_cache s)
                  | None \<Rightarrow> insert_absent ord key (cst_cache s))\<rparr>)))"

section \<open>Warming\<close>

definition noop_predict_keys :: "'tx \<Rightarrow> bytes list" where
  "noop_predict_keys tx = []"

definition warm_cache ::
    "visit_order \<Rightarrow> readonly_kv \<Rightarrow> 'tx list \<Rightarrow> ('tx \<Rightarrow> bytes list) \<Rightarrow> sharded_cache \<Rightarrow> sharded_cache" where
  "warm_cache ord S txs predictor c =
     (let all_keys = concat (map predictor txs);
          all_keys = remdups_adj (sort all_keys)
      in if all_keys = [] then c else prefetch_keys ord S all_keys c)"

definition balance_key :: "account_id \<Rightarrow> account_id \<Rightarrow> bytes" where
  "balance_key token_account holder = token_account @ str_bytes ''balances'' @ holder"

definition nonce_key :: "account_id \<Rightarrow> bytes" where
  "nonce_key account = account @ str_bytes ''nonce''"

definition code_id_key :: "account_id \<Rightarrow> bytes" where
  "code_id_key account = account @ str_bytes ''code_id''"

definition token_transfer_keys :: "account_id \<Rightarrow> account_id \<Rightarrow> account_id \<Rightarrow> bytes list" where
  "token_transfer_keys token sender recipient =
     [balance_key token sender, balance_key token recipient, nonce_key sender]"

section \<open>What a cache promises its readers\<close>

text \<open>
  Every entry of a sound cache is what the storage answers. A cache keeps the entry it is given,
  may lose others, and never invents one.
\<close>

definition cache_sound :: "(bytes \<Rightarrow> 'c \<Rightarrow> cached_value option) \<Rightarrow> (bytes \<Rightarrow> 'e + bytes option) \<Rightarrow> 'c \<Rightarrow> bool" where
  "cache_sound look S c \<longleftrightarrow> (\<forall>k v. look k c = Some v \<longrightarrow> S k = Inr (cached_result v))"

definition cached_of :: "bytes option \<Rightarrow> cached_value" where
  "cached_of r = (case r of Some data \<Rightarrow> Present data | None \<Rightarrow> Absent)"

lemma cached_result_of [simp]: "cached_result (cached_of r) = r"
  by (simp add: cached_of_def split: option.splits)

definition read_through ::
    "(bytes \<Rightarrow> 'c \<Rightarrow> cached_value option) \<Rightarrow> (bytes \<Rightarrow> cached_value \<Rightarrow> 'c \<Rightarrow> 'c) \<Rightarrow>
       (bytes \<Rightarrow> 'e + bytes option) \<Rightarrow> bytes \<Rightarrow> 'c \<Rightarrow> ('e + bytes option) \<times> 'c" where
  "read_through look ins S k c =
     (case look k c of
        Some v \<Rightarrow> (Inr (cached_result v), c)
      | None \<Rightarrow> (case S k of Inl e \<Rightarrow> (Inl e, c) | Inr r \<Rightarrow> (Inr r, ins k (cached_of r) c)))"

locale read_cache =
  fixes wf :: "'c \<Rightarrow> bool"
    and look :: "bytes \<Rightarrow> 'c \<Rightarrow> cached_value option"
    and ins :: "bytes \<Rightarrow> cached_value \<Rightarrow> 'c \<Rightarrow> 'c"
    and inval :: "bytes \<Rightarrow> 'c \<Rightarrow> 'c"
  assumes wf_ins: "wf c \<Longrightarrow> wf (ins k v c)"
    and wf_inval: "wf c \<Longrightarrow> wf (inval k c)"
    and look_ins: "wf c \<Longrightarrow> look k (ins k v c) = Some v"
    and look_ins_other: "wf c \<Longrightarrow> look k' (ins k v c) = Some u \<Longrightarrow> k' = k \<or> look k' c = Some u"
    and look_inval: "wf c \<Longrightarrow> look k' (inval k c) = (if k' = k then None else look k' c)"
begin

lemma wf_fold_inval: "wf c \<Longrightarrow> wf (fold inval ks c)"
  by (induction ks arbitrary: c) (simp_all add: wf_inval)

lemma look_fold_inval:
  "wf c \<Longrightarrow> look k (fold inval ks c) = (if k \<in> set ks then None else look k c)"
  by (induction ks arbitrary: c) (simp_all add: wf_inval look_inval)

lemma sound_ins:
  assumes "wf c" "cache_sound look S c" "S k = Inr (cached_result v)"
  shows "cache_sound look S (ins k v c)"
  unfolding cache_sound_def
proof (intro allI impI)
  fix k' u assume u: "look k' (ins k v c) = Some u"
  show "S k' = Inr (cached_result u)"
  proof (cases "k' = k")
    case True
    with u assms look_ins show ?thesis by simp
  next
    case False
    with look_ins_other [OF assms(1) u] assms(2) show ?thesis by (simp add: cache_sound_def)
  qed
qed

text \<open>After a write, dropping the written keys makes the cache sound for the new contents.\<close>

lemma sound_write:
  assumes "wf c" "cache_sound look S c" and "\<And>k. k \<notin> set ks \<Longrightarrow> S' k = S k"
  shows "cache_sound look S' (fold inval ks c)"
  using assms by (simp add: cache_sound_def look_fold_inval)

text \<open>Reading through a sound cache answers as the storage does, errors included.\<close>

lemma read_through_sound:
  assumes "wf c" "cache_sound look S c"
  shows "\<exists>c'. read_through look ins S k c = (S k, c') \<and> wf c' \<and> cache_sound look S c'"
proof (cases "look k c")
  case None
  with assms sound_ins [OF assms] show ?thesis
    by (simp add: read_through_def wf_ins split: sum.split)
next
  case (Some v)
  with assms show ?thesis by (simp add: read_through_def cache_sound_def)
qed

end

section \<open>The caches keep the promise\<close>

lemma hm_get_fold_remove: "hm_get (fold hm_remove ks m) k = (if k \<in> set ks then None else hm_get m k)"
  by (induction ks arbitrary: m) auto

lemma db_cache_get_insert: "db_cache_get key (db_cache_insert ord key value c) = Some value"
  by (simp add: db_cache_get_def db_cache_insert_def Let_def)

lemma db_cache_get_insert_other:
  "db_cache_get k (db_cache_insert ord key value c) = Some u \<Longrightarrow> k = key \<or> db_cache_get k c = Some u"
  by (auto simp: db_cache_get_def db_cache_insert_def Let_def hm_get_fold_remove split: if_splits)

lemma db_cache_get_invalidate:
  "db_cache_get k (db_cache_invalidate key c) = (if k = key then None else db_cache_get k c)"
  by (simp add: db_cache_get_def db_cache_invalidate_def)

interpretation dbc: read_cache "\<lambda>_. True" db_cache_get "db_cache_insert ord" db_cache_invalidate
  by unfold_locales (simp_all add: db_cache_get_insert db_cache_get_invalidate db_cache_get_insert_other)

lemmas shard_defs = shard_get_def shard_insert_def shard_invalidate_def shard_new_def

abbreviation sharded_wf :: "sharded_cache \<Rightarrow> bool" where
  "sharded_wf c \<equiv> length c = NUM_SHARDS"

lemma shard_index_bound [simp]: "shard_index k < NUM_SHARDS"
  using unat_lt_exp [of "case k of [] \<Rightarrow> 0 | b # _ \<Rightarrow> b"] by (simp add: shard_index_def NUM_SHARDS_def)

lemma length_on_shard [simp]: "length (on_shard i f c) = length c"
  by (simp add: on_shard_def)

lemma sharded_get_on_shard:
  "sharded_wf c \<Longrightarrow> sharded_get k (on_shard i f c) =
     (if shard_index k = i then shard_get k (f (c ! i)) else sharded_get k c)"
  by (auto simp: sharded_get_def on_shard_def nth_list_update)

interpretation shc: read_cache sharded_wf sharded_get "sharded_insert ord" sharded_invalidate
proof unfold_locales
  fix c k v u k'
  assume wf: "sharded_wf c"
  show "sharded_wf (sharded_insert ord k v c)" "sharded_wf (sharded_invalidate k c)"
    using wf by (simp_all add: sharded_insert_def sharded_invalidate_def)
  show "sharded_get k (sharded_insert ord k v c) = Some v"
    using wf by (simp add: sharded_insert_def sharded_get_on_shard shard_defs db_cache_get_insert)
  show "sharded_get k' (sharded_invalidate k c) = (if k' = k then None else sharded_get k' c)"
    using wf by (auto simp: sharded_invalidate_def sharded_get_on_shard shard_invalidate_def
        shard_get_def db_cache_get_invalidate) (simp add: sharded_get_def shard_get_def)
  assume "sharded_get k' (sharded_insert ord k v c) = Some u"
  then show "k' = k \<or> sharded_get k' c = Some u"
    using wf
    by (auto simp: sharded_insert_def sharded_get_on_shard shard_insert_def shard_get_def
        split: if_splits) (auto simp: sharded_get_def shard_get_def dest: db_cache_get_insert_other)
qed

lemma sharded_new_wf [simp]: "sharded_wf (sharded_new n)"
  by (simp add: sharded_new_def)

lemma sharded_get_new [simp]: "sharded_get k (sharded_new n) = None"
  by (simp add: sharded_get_def sharded_new_def shard_defs db_cache_new_def db_cache_get_def)

lemma sharded_new_sound: "cache_sound sharded_get S (sharded_new n)"
  by (simp add: cache_sound_def)

text \<open>\<open>CachedStorage\<close> reads through its cache.\<close>

lemma cached_storage_get_read_through:
  "cached_storage_get ord k s =
     (let (r, c) = read_through db_cache_get (db_cache_insert ord) (cst_storage s) k (cst_cache s)
      in (r, s\<lparr>cst_cache := c\<rparr>))"
  by (simp add: cached_storage_get_def read_through_def insert_present_def insert_absent_def
      cached_of_def split: option.split sum.split)

lemma cached_storage_get_sound:
  assumes "cache_sound db_cache_get (cst_storage s) (cst_cache s)"
  shows "\<exists>s'. cached_storage_get ord k s = (cst_storage s k, s') \<and> cst_storage s' = cst_storage s \<and>
    cache_sound db_cache_get (cst_storage s') (cst_cache s')"
proof -
  from dbc.read_through_sound [OF TrueI assms, of ord k] obtain c
    where "read_through db_cache_get (db_cache_insert ord) (cst_storage s) k (cst_cache s) =
        (cst_storage s k, c)" "cache_sound db_cache_get (cst_storage s) c" by blast
  then show ?thesis by (simp add: cached_storage_get_read_through)
qed

section \<open>Prefetching\<close>

lemma length_group_by_shard [simp]: "length (group_by_shard keys) = NUM_SHARDS"
proof -
  have "length (fold (\<lambda>key groups. groups[shard_index key := groups ! shard_index key @ [key]]) ks g) = length g"
    for ks and g :: "bytes list list" by (induction ks arbitrary: g) simp_all
  then show ?thesis by (simp add: group_by_shard_def)
qed

lemma group_by_shard_nth:
  assumes "i < NUM_SHARDS"
  shows "group_by_shard keys ! i = filter (\<lambda>k. shard_index k = i) keys"
proof -
  have "fold (\<lambda>key groups. groups[shard_index key := groups ! shard_index key @ [key]]) ks g ! i =
      g ! i @ filter (\<lambda>k. shard_index k = i) ks" if "length g = NUM_SHARDS" for ks and g :: "bytes list list"
    using that assms by (induction ks arbitrary: g) (auto simp: nth_list_update)
  then show ?thesis using assms by (simp add: group_by_shard_def)
qed

lemma prefetch_key_eq:
  "shard_index k = i \<Longrightarrow> prefetch_key ord S i k c = snd (read_through sharded_get (sharded_insert ord) S k c)"
  by (auto simp: prefetch_key_def read_through_def sharded_get_def sharded_insert_def cached_of_def
      split: option.split sum.split)

lemma prefetch_fold:
  assumes "sharded_wf c \<and> cache_sound sharded_get S c" and "\<forall>k\<in>set ks. shard_index k = i"
  shows "sharded_wf (fold (prefetch_key ord S i) ks c) \<and>
    cache_sound sharded_get S (fold (prefetch_key ord S i) ks c)"
  using assms
proof (induction ks arbitrary: c)
  case (Cons k ks)
  from Cons.prems shc.read_through_sound [of c S ord k]
  have "sharded_wf (prefetch_key ord S i k c) \<and> cache_sound sharded_get S (prefetch_key ord S i k c)"
    by (auto simp: prefetch_key_eq)
  with Cons show ?case by simp
qed simp

lemma prefetch_keys_sound:
  assumes "sharded_wf c" "cache_sound sharded_get S c"
  shows "sharded_wf (prefetch_keys ord S keys c) \<and> cache_sound sharded_get S (prefetch_keys ord S keys c)"
proof -
  have "sharded_wf (fold (\<lambda>(i, ks). fold (prefetch_key ord S i) ks) gs c) \<and>
      cache_sound sharded_get S (fold (\<lambda>(i, ks). fold (prefetch_key ord S i) ks) gs c)"
    if "\<forall>(i, ks)\<in>set gs. \<forall>k\<in>set ks. shard_index k = i" for gs
    using assms that
  proof (induction gs arbitrary: c)
    case (Cons g gs)
    then show ?case using prefetch_fold [of c S "snd g" "fst g" ord] by (simp add: case_prod_beta)
  qed simp
  moreover have "\<forall>(i, ks)\<in>set (enumerate 0 (group_by_shard keys)). \<forall>k\<in>set ks. shard_index k = i"
    by (auto simp: in_set_enumerate_eq group_by_shard_nth)
  ultimately show ?thesis by (simp add: prefetch_keys_def)
qed

lemma warm_cache_sound:
  assumes "sharded_wf c" "cache_sound sharded_get S c"
  shows "sharded_wf (warm_cache ord S txs predictor c) \<and>
    cache_sound sharded_get S (warm_cache ord S txs predictor c)"
  using assms prefetch_keys_sound [OF assms] by (simp add: warm_cache_def Let_def)

lemma warm_cache_noop: "warm_cache ord S txs noop_predict_keys c = c"
proof -
  have "concat (map noop_predict_keys txs) = []" by (simp add: noop_predict_keys_def)
  then show ?thesis unfolding warm_cache_def Let_def by (simp only:) simp
qed

section \<open>The size of a cache\<close>

text \<open>The hash map visits each of its keys once.\<close>

definition visits_once :: "visit_order \<Rightarrow> bool" where
  "visits_once ord \<longleftrightarrow> (\<forall>ks. distinct ks \<longrightarrow> distinct (ord ks) \<and> set (ord ks) = set ks)"

definition cache_bounded :: "db_cache \<Rightarrow> bool" where
  "cache_bounded c \<longleftrightarrow> hm_wf (entries c) \<and> db_cache_len c \<le> max_entries c"

lemma length_hm_remove_present:
  "hm_wf m \<Longrightarrow> k \<in> fst ` set m \<Longrightarrow> Suc (length (hm_remove k m)) = length m"
proof (induction m)
  case (Cons e m)
  then show ?case by (cases "fst e = k") (auto simp: delete_conv image_iff hm_get_None_iff hm_remove_fresh)
qed simp

lemma length_fold_hm_remove:
  "hm_wf m \<Longrightarrow> distinct ks \<Longrightarrow> set ks \<subseteq> fst ` set m \<Longrightarrow>
     length (fold hm_remove ks m) + length ks = length m \<and> hm_wf (fold hm_remove ks m)"
proof (induction ks arbitrary: m)
  case (Cons k ks)
  have "fst ` set (hm_remove k m) = fst ` set m - {k}"
    by (metis delete_keys list.set_map set_removeAll)
  with Cons.prems have "set ks \<subseteq> fst ` set (hm_remove k m)" by auto
  with Cons length_hm_remove_present [of m k] show ?case by simp
qed simp

lemma db_cache_insert_bounded:
  assumes "cache_bounded c" "visits_once ord" "2 \<le> max_entries c"
  shows "cache_bounded (db_cache_insert ord key value c)"
proof -
  let ?es = "entries c" and ?m = "max_entries c"
  let ?ks = "take (?m div 2) (ord (map fst ?es))"
  from assms have wf: "hm_wf ?es" and len: "length ?es \<le> ?m"
    by (simp_all add: cache_bounded_def db_cache_len_def)
  from wf assms(2) have ord: "distinct (ord (map fst ?es))" "set (ord (map fst ?es)) = fst ` set ?es"
    by (auto simp: visits_once_def)
  then have "length (ord (map fst ?es)) = length ?es"
    using wf by (metis distinct_card length_map set_map)
  moreover have "length (fold hm_remove ?ks ?es) + length ?ks = length ?es \<and> hm_wf (fold hm_remove ?ks ?es)"
    using ord wf by (intro length_fold_hm_remove) (auto dest: in_set_takeD)
  ultimately show ?thesis using wf len assms(3)
    by (auto simp: cache_bounded_def db_cache_len_def db_cache_insert_def Let_def length_hm_insert)
qed

text \<open>A limit of one entry evicts nothing: half of one is zero, and the cache grows without bound.\<close>

lemma db_cache_of_one_grows:
  "db_cache_get key c = None \<Longrightarrow> max_entries c = 1 \<Longrightarrow>
     db_cache_len (db_cache_insert ord key value c) = Suc (db_cache_len c)"
  by (simp add: db_cache_get_def db_cache_len_def db_cache_insert_def Let_def length_hm_insert)

end
