(* ===== verification/Qmdb_Storage.thy ===== *)
theory Qmdb_Storage
  imports Storage_Cache Data_Refinement
begin

text \<open>
  The database storage (\<open>crates/storage/src/qmdb_impl.rs\<close>): a Merkle database behind a lock with a
  sharded read cache in front of it. The database is a library; its operations are the fields of
  the record \<open>qmdb\<close>, over a type \<open>'d\<close> of databases and a type \<open>'c\<close> of merkleized batches, and
  \<open>qmdb_ok\<close> states what its documentation promises. Errors of the library are strings. Metrics and
  logging have no effect on results and are left out, as is the background task that prunes the
  history of the database and never changes the current values. The tokio runtime the caller is in
  is an argument: inside a single-threaded one the synchronous calls refuse to block.
\<close>

section \<open>The database library\<close>

record ('d, 'c) qmdb =
  qd_get :: "'d \<Rightarrow> bytes \<Rightarrow> string + bytes option"
  qd_root :: "'d \<Rightarrow> bytes"
  qd_sync :: "'d \<Rightarrow> string + unit"
  qd_merkleize :: "'d \<Rightarrow> (bytes \<times> bytes option) list \<Rightarrow> string + 'c"
  qd_batch_root :: "'c \<Rightarrow> bytes"
  qd_apply_batch :: "'c \<Rightarrow> 'd \<Rightarrow> (string + unit) \<times> 'd"

definition upd_all :: "('k \<times> 'v option) list \<Rightarrow> ('k \<rightharpoonup> 'v) \<Rightarrow> ('k \<rightharpoonup> 'v)" where
  "upd_all us m = fold (\<lambda>(k, v) m. m(k := v)) us m"

text \<open>
  A database stands for a map from keys to values: reads return its values, a batch that is applied
  makes its writes in order and leaves the root that was computed for it, roots are 32 bytes, and an
  application that fails changes no value.
\<close>

definition qmdb_ok :: "('d, 'c) qmdb \<Rightarrow> ('d \<Rightarrow> bytes \<rightharpoonup> bytes) \<Rightarrow> bool" where
  "qmdb_ok Q val \<longleftrightarrow>
     (\<forall>d k r. qd_get Q d k = Inr r \<longrightarrow> r = val d k) \<and>
     (\<forall>d us c d'. qd_merkleize Q d us = Inr c \<longrightarrow> qd_apply_batch Q c d = (Inr (), d') \<longrightarrow>
        val d' = upd_all us (val d) \<and> qd_root Q d' = qd_batch_root Q c) \<and>
     (\<forall>c d e d'. qd_apply_batch Q c d = (Inl e, d') \<longrightarrow> val d' = val d) \<and>
     (\<forall>d. length (qd_root Q d) = 32) \<and> (\<forall>c. length (qd_batch_root Q c) = 32)"

section \<open>Errors\<close>

datatype storage_error =
  Qmdb string
| KeyError error_code
| ValueTooLarge nat nat
| IoError string
| InvalidState string
| InvalidConfig string

definition map_qmdb_error :: "string + 'a \<Rightarrow> storage_error + 'a" where
  "map_qmdb_error r = (case r of Inl err \<Rightarrow> Inl (Qmdb err) | Inr a \<Rightarrow> Inr a)"

definition key_error :: "error_code + 'a \<Rightarrow> storage_error + 'a" where
  "key_error r = (case r of Inl err \<Rightarrow> Inl (KeyError err) | Inr a \<Rightarrow> Inr a)"

fun map_storage_error :: "storage_error \<Rightarrow> error_code" where
  "map_storage_error (KeyError code) = code"
| "map_storage_error (ValueTooLarge _ _) = STORAGE_ERR_VALUE_TOO_LARGE"
| "map_storage_error (InvalidState _) = ERR_CONCURRENCY_ERROR"
| "map_storage_error (Qmdb _) = ERR_ADB_ERROR"
| "map_storage_error (IoError _) = ERR_STORAGE_IO"
| "map_storage_error (InvalidConfig _) = ERR_STORAGE_IO"

definition to_error_code :: "storage_error + 'a \<Rightarrow> error_code + 'a" where
  "to_error_code r = (case r of Inl err \<Rightarrow> Inl (map_storage_error err) | Inr a \<Rightarrow> Inr a)"

definition root_to_commit_hash :: "bytes \<Rightarrow> storage_error + commit_hash" where
  "root_to_commit_hash root =
     (if length root = 32 then Inr root else Inl (Qmdb ''invalid root hash size''))"

section \<open>Configuration\<close>

text \<open>
  \<open>with_metrics\<close> up to the call that opens the database: the page and write buffer sizes handed to
  it. \<open>usize\<close> has 64 bits, so the conversions from \<open>u64\<close> always fit.
\<close>

definition check_storage_config :: "storage_config \<Rightarrow> storage_error + nat \<times> nat" where
  "check_storage_config config =
     (let page_size = 4096;
          cache_pages = unat (sc_cache_size config div page_size)
      in if cache_pages = 0 then Inl (InvalidConfig ''cache_size must be at least one page'')
         else let write_buffer_size = unat (sc_write_buffer_size config) in
           if write_buffer_size = 0 then Inl (InvalidConfig ''write_buffer_size must be non-zero'')
           else Inr (cache_pages, write_buffer_size))"

section \<open>Operations\<close>

record 'd qmdb_storage =
  qs_db :: 'd
  qs_cache :: sharded_cache

definition qmdb_storage_new :: "('d, 'c) qmdb \<Rightarrow> storage_config \<Rightarrow> (nat \<times> nat \<Rightarrow> string + 'd) \<Rightarrow> storage_error + 'd qmdb_storage" where
  "qmdb_storage_new Q config db_init =
     bind_result (check_storage_config config) (\<lambda>sizes.
     bind_result (map_qmdb_error (db_init sizes)) (\<lambda>db.
     Inr \<lparr>qs_db = db, qs_cache = sharded_with_defaults\<rparr>))"

definition decode_storage_value :: "string + bytes option \<Rightarrow> error_code + bytes option" where
  "decode_storage_value result = (case result of Inr value \<Rightarrow> Inr value | Inl e \<Rightarrow> Inl ERR_ADB_ERROR)"

definition get_async_uncached :: "('d, 'c) qmdb \<Rightarrow> 'd \<Rightarrow> bytes \<Rightarrow> error_code + bytes option" where
  "get_async_uncached Q db key =
     bind_result (create_storage_key key) (\<lambda>storage_key. decode_storage_value (qd_get Q db storage_key))"

definition get_async :: "('d, 'c) qmdb \<Rightarrow> 'd qmdb_storage \<Rightarrow> bytes \<Rightarrow> error_code + bytes option" where
  "get_async Q s key =
     (case sharded_get key (qs_cache s) of
        Some cached \<Rightarrow> Inr (cached_result cached)
      | None \<Rightarrow> get_async_uncached Q (qs_db s) key)"

datatype runtime_flavor = NoRuntime | MultiThread | CurrentThread

definition cache_result :: "visit_order \<Rightarrow> bytes \<Rightarrow> bytes option \<Rightarrow> sharded_cache \<Rightarrow> sharded_cache" where
  "cache_result ord key result =
     (case result of
        Some data \<Rightarrow> sharded_insert_present ord key data
      | None \<Rightarrow> sharded_insert_absent ord key)"

definition qmdb_get ::
    "('d, 'c) qmdb \<Rightarrow> visit_order \<Rightarrow> runtime_flavor \<Rightarrow> bytes \<Rightarrow> 'd qmdb_storage \<Rightarrow>
       (error_code + bytes option) \<times> 'd qmdb_storage" where
  "qmdb_get Q ord rt key s =
     (case sharded_get key (qs_cache s) of
        Some cached \<Rightarrow> (Inr (cached_result cached), s)
      | None \<Rightarrow>
          if rt = CurrentThread then (Inl ERR_RUNTIME_ERROR, s)
          else case get_async_uncached Q (qs_db s) key of
                 Inl e \<Rightarrow> (Inl e, s)
               | Inr result \<Rightarrow> (Inr result, s\<lparr>qs_cache := cache_result ord key result (qs_cache s)\<rparr>))"

text \<open>\<open>get_many_async\<close>: a pass over the cache collects the misses with their positions, the misses are
  read under one read lock, then cached and put in place.\<close>

fun collect_misses ::
    "sharded_cache \<Rightarrow> (nat \<times> bytes) list \<Rightarrow> bytes option list \<Rightarrow> (nat \<times> bytes \<times> bytes) list \<Rightarrow>
       error_code + bytes option list \<times> (nat \<times> bytes \<times> bytes) list" where
  "collect_misses cache [] results misses = Inr (results, misses)"
| "collect_misses cache ((idx, key) # rest) results misses =
     (case sharded_get key cache of
        Some (Present data) \<Rightarrow> collect_misses cache rest (results[idx := Some data]) misses
      | Some Absent \<Rightarrow> collect_misses cache rest results misses
      | None \<Rightarrow>
          bind_result (create_storage_key key) (\<lambda>storage_key.
          collect_misses cache rest results (misses @ [(idx, key, storage_key)])))"

definition get_many_async_uncached ::
    "('d, 'c) qmdb \<Rightarrow> 'd \<Rightarrow> (nat \<times> bytes \<times> bytes) list \<Rightarrow> error_code + bytes option list" where
  "get_many_async_uncached Q db misses =
     collect_result (map (\<lambda>(_, _, storage_key). decode_storage_value (qd_get Q db storage_key)) misses)"

definition get_many_async ::
    "('d, 'c) qmdb \<Rightarrow> visit_order \<Rightarrow> bytes list \<Rightarrow> 'd qmdb_storage \<Rightarrow>
       (error_code + bytes option list) \<times> 'd qmdb_storage" where
  "get_many_async Q ord keys s =
     (if length keys > MAX_BATCH_SIZE then (Inl ERR_BATCH_TOO_LARGE, s)
      else if keys = [] then (Inr [], s)
      else case collect_misses (qs_cache s) (enumerate 0 keys) (replicate (length keys) None) [] of
             Inl e \<Rightarrow> (Inl e, s)
           | Inr (results, misses) \<Rightarrow>
               if misses = [] then (Inr results, s)
               else case get_many_async_uncached Q (qs_db s) misses of
                      Inl e \<Rightarrow> (Inl e, s)
                    | Inr miss_values \<Rightarrow>
                        let (results, cache) = fold (\<lambda>((idx, key, _), value) (results, cache).
                              (results[idx := value], cache_result ord key value cache))
                              (zip misses miss_values) (results, qs_cache s)
                        in (Inr results, s\<lparr>qs_cache := cache\<rparr>))"

definition get_many ::
    "('d, 'c) qmdb \<Rightarrow> visit_order \<Rightarrow> runtime_flavor \<Rightarrow> bytes list \<Rightarrow> 'd qmdb_storage \<Rightarrow>
       (error_code + bytes option list) \<times> 'd qmdb_storage" where
  "get_many Q ord rt keys s =
     (if rt = CurrentThread then (Inl ERR_RUNTIME_ERROR, s) else get_many_async Q ord keys s)"

record prepared_batch =
  updates :: "(bytes \<times> bytes option) list"
  keys_to_invalidate :: "bytes list"
  ops_count :: nat
  sets :: nat
  deletes :: nat

fun prepare_ops :: "storage_operation list \<Rightarrow> prepared_batch \<Rightarrow> storage_error + prepared_batch" where
  "prepare_ops [] b = Inr b"
| "prepare_ops (OperationSet key value # ops) b =
     (if length value > STORAGE_MAX_VALUE_SIZE
      then Inl (ValueTooLarge (length value) STORAGE_MAX_VALUE_SIZE)
      else bind_result (key_error (create_storage_key key)) (\<lambda>storage_key.
        prepare_ops ops (b\<lparr>sets := sets b + 1,
          keys_to_invalidate := keys_to_invalidate b @ [key],
          updates := updates b @ [(storage_key, Some value)]\<rparr>)))"
| "prepare_ops (OperationRemove key # ops) b =
     bind_result (key_error (create_storage_key key)) (\<lambda>storage_key.
       prepare_ops ops (b\<lparr>deletes := deletes b + 1,
         keys_to_invalidate := keys_to_invalidate b @ [key],
         updates := updates b @ [(storage_key, None)]\<rparr>))"

definition prepare_batch :: "storage_operation list \<Rightarrow> storage_error + prepared_batch" where
  "prepare_batch operations =
     (if length operations > MAX_BATCH_SIZE then Inl (KeyError ERR_BATCH_TOO_LARGE)
      else prepare_ops operations \<lparr>updates = [], keys_to_invalidate = [],
             ops_count = length operations, sets = 0, deletes = 0\<rparr>)"

definition commit_state :: "('d, 'c) qmdb \<Rightarrow> 'd qmdb_storage \<Rightarrow> storage_error + commit_hash" where
  "commit_state Q s =
     bind_result (map_qmdb_error (qd_sync Q (qs_db s))) (\<lambda>_. root_to_commit_hash (qd_root Q (qs_db s)))"

definition preview_batch_root ::
    "('d, 'c) qmdb \<Rightarrow> storage_operation list \<Rightarrow> 'd qmdb_storage \<Rightarrow> storage_error + commit_hash" where
  "preview_batch_root Q operations s =
     bind_result (prepare_batch operations) (\<lambda>prepared.
     if updates prepared = [] then root_to_commit_hash (qd_root Q (qs_db s))
     else bind_result (map_qmdb_error (qd_merkleize Q (qs_db s) (updates prepared))) (\<lambda>merkleized.
       root_to_commit_hash (qd_batch_root Q merkleized)))"

definition qmdb_apply_batch ::
    "('d, 'c) qmdb \<Rightarrow> storage_operation list \<Rightarrow> 'd qmdb_storage \<Rightarrow> (storage_error + unit) \<times> 'd qmdb_storage" where
  "qmdb_apply_batch Q operations s =
     (case prepare_batch operations of
        Inl e \<Rightarrow> (Inl e, s)
      | Inr prepared \<Rightarrow>
          if updates prepared = [] then (Inr (), s)
          else case qd_merkleize Q (qs_db s) (updates prepared) of
                 Inl e \<Rightarrow> (Inl (Qmdb e), s)
               | Inr changeset \<Rightarrow>
                   (case qd_apply_batch Q changeset (qs_db s) of
                      (Inl e, db) \<Rightarrow> (Inl (Qmdb e), s\<lparr>qs_db := db\<rparr>)
                    | (Inr _, db) \<Rightarrow>
                        (Inr (), s\<lparr>qs_db := db,
                           qs_cache := fold sharded_invalidate (keys_to_invalidate prepared) (qs_cache s)\<rparr>)))"

definition qmdb_commit :: "('d, 'c) qmdb \<Rightarrow> 'd qmdb_storage \<Rightarrow> error_code + commit_hash" where
  "qmdb_commit Q s = to_error_code (commit_state Q s)"

definition qmdb_batch ::
    "('d, 'c) qmdb \<Rightarrow> storage_operation list \<Rightarrow> 'd qmdb_storage \<Rightarrow> (error_code + unit) \<times> 'd qmdb_storage" where
  "qmdb_batch Q operations s =
     (let (r, s') = qmdb_apply_batch Q operations s in (to_error_code r, s'))"

section \<open>The map a storage presents\<close>

definition key_view :: "(bytes \<rightharpoonup> bytes) \<Rightarrow> (bytes \<rightharpoonup> bytes)" where
  "key_view m k = (case create_storage_key k of Inr storage_key \<Rightarrow> m storage_key | Inl _ \<Rightarrow> None)"

definition qs_contents :: "('d \<Rightarrow> bytes \<rightharpoonup> bytes) \<Rightarrow> 'd qmdb_storage \<Rightarrow> (bytes \<rightharpoonup> bytes)" where
  "qs_contents val s = key_view (val (qs_db s))"

lemma key_view_upd:
  "create_storage_key k = Inr sk \<Longrightarrow> key_view (m(sk := v)) = (key_view m)(k := v)"
  by (auto simp: key_view_def fun_eq_iff dest: create_storage_key_inject split: sum.splits)

lemma key_error_simps [simp]: "key_error (Inl e) = Inl (KeyError e)" "key_error (Inr a) = Inr a"
  by (simp_all add: key_error_def)

lemma upd_all_snoc [simp]: "upd_all (us @ [(k, v)]) m = (upd_all us m)(k := v)"
  by (simp add: upd_all_def)

lemma upd_all_Nil [simp]: "upd_all [] m = m"
  by (simp add: upd_all_def)

lemma prepare_ops_spec:
  "prepare_ops ops b = Inr b' \<Longrightarrow>
     key_view (upd_all (updates b') m) = fold op_apply ops (key_view (upd_all (updates b) m)) \<and>
     keys_to_invalidate b' = keys_to_invalidate b @ map op_key ops \<and>
     length (updates b') = length (updates b) + length ops"
proof (induction ops b rule: prepare_ops.induct)
  case (2 key data ops b)
  then show ?case
    by (cases "create_storage_key key") (simp_all add: key_view_upd del: fun_upd_apply split: if_splits)
next
  case (3 key ops b)
  then show ?case
    by (cases "create_storage_key key") (simp_all add: key_view_upd del: fun_upd_apply)
qed simp

lemma prepare_batch_spec:
  assumes "prepare_batch ops = Inr b"
  shows "key_view (upd_all (updates b) m) = fold op_apply ops (key_view m)"
    and "keys_to_invalidate b = map op_key ops"
    and "updates b = [] \<longleftrightarrow> ops = []"
proof -
  let ?b = "\<lparr>updates = [], keys_to_invalidate = [], ops_count = length ops, sets = 0, deletes = 0\<rparr>"
  from assms have "prepare_ops ops ?b = Inr b" by (simp add: prepare_batch_def split: if_splits)
  from prepare_ops_spec [OF this, of m]
  have v: "key_view (upd_all (updates b) m) = fold op_apply ops (key_view m)"
    and k: "keys_to_invalidate b = map op_key ops" and l: "length (updates b) = length ops" by simp_all
  show "key_view (upd_all (updates b) m) = fold op_apply ops (key_view m)" by (rule v)
  show "keys_to_invalidate b = map op_key ops" by (rule k)
  from l show "updates b = [] \<longleftrightarrow> ops = []" by auto
qed

text \<open>When a batch is accepted: its size, its keys and its values are within the limits.\<close>

definition op_fits :: "storage_operation \<Rightarrow> bool" where
  "op_fits op \<longleftrightarrow> length (op_key op) \<le> STORAGE_MAX_KEY_SIZE \<and>
     (case op of OperationSet _ value \<Rightarrow> length value \<le> STORAGE_MAX_VALUE_SIZE | OperationRemove _ \<Rightarrow> True)"

lemma prepare_ops_ok_iff: "(\<exists>b'. prepare_ops ops b = Inr b') \<longleftrightarrow> list_all op_fits ops"
proof (induction ops b rule: prepare_ops.induct)
  case (2 key data ops b)
  then show ?case
    using create_storage_key_ok_iff [of key]
    by (cases "create_storage_key key") (simp_all add: op_fits_def)
next
  case (3 key ops b)
  then show ?case
    using create_storage_key_ok_iff [of key]
    by (cases "create_storage_key key") (simp_all add: op_fits_def)
qed simp

lemma prepare_batch_ok_iff:
  "(\<exists>b. prepare_batch ops = Inr b) \<longleftrightarrow> length ops \<le> MAX_BATCH_SIZE \<and> list_all op_fits ops"
  using prepare_ops_ok_iff by (simp add: prepare_batch_def)

section \<open>Reads and writes through the cache\<close>

text \<open>
  A map as a read-only store: keys beyond the limit are refused. The invariant of the cache is that
  every entry is the answer of the map.
\<close>

definition map_storage_get :: "(bytes \<rightharpoonup> bytes) \<Rightarrow> readonly_kv" where
  "map_storage_get m k =
     (if length k > STORAGE_MAX_KEY_SIZE then Inl STORAGE_ERR_KEY_TOO_LARGE else Inr (m k))"

definition storage_inv :: "('d \<Rightarrow> bytes \<rightharpoonup> bytes) \<Rightarrow> 'd qmdb_storage \<Rightarrow> bool" where
  "storage_inv val s \<longleftrightarrow> sharded_wf (qs_cache s) \<and>
     cache_sound sharded_get (map_storage_get (qs_contents val s)) (qs_cache s)"

text \<open>A database whose operations never fail.\<close>

definition qmdb_healthy :: "('d, 'c) qmdb \<Rightarrow> bool" where
  "qmdb_healthy Q \<longleftrightarrow> (\<forall>d k. \<exists>v. qd_get Q d k = Inr v) \<and> (\<forall>d us. \<exists>c. qd_merkleize Q d us = Inr c) \<and>
     (\<forall>c d. \<exists>d'. qd_apply_batch Q c d = (Inr (), d'))"

lemma map_storage_get_Inr: "map_storage_get m k = Inr v \<longleftrightarrow> length k \<le> STORAGE_MAX_KEY_SIZE \<and> v = m k"
  by (auto simp: map_storage_get_def)

lemma create_storage_key_Inl: "create_storage_key k = Inl e \<longleftrightarrow> map_storage_get m k = Inl e"
  by (auto simp: create_storage_key_def map_storage_get_def Let_def)

lemma storage_inv_cached:
  "storage_inv val s \<Longrightarrow> sharded_get k (qs_cache s) = Some v \<Longrightarrow>
     map_storage_get (qs_contents val s) k = Inr (cached_result v)"
  by (simp add: storage_inv_def cache_sound_def)

lemma storage_inv_new:
  "qmdb_storage_new Q config db_init = Inr s \<Longrightarrow> storage_inv val s"
  by (auto simp: qmdb_storage_new_def bind_result_def storage_inv_def sharded_with_defaults_def
      sharded_new_sound split: sum.splits)

lemma get_async_uncached_contents:
  assumes "qmdb_ok Q val"
  shows "get_async_uncached Q (qs_db s) k = Inr r \<Longrightarrow> map_storage_get (qs_contents val s) k = Inr r"
    and "qmdb_healthy Q \<Longrightarrow> get_async_uncached Q (qs_db s) k = map_storage_get (qs_contents val s) k"
proof -
  show answer: "map_storage_get (qs_contents val s) k = Inr r" if "get_async_uncached Q (qs_db s) k = Inr r" for r
  proof -
    from that obtain sk where sk: "create_storage_key k = Inr sk" "qd_get Q (qs_db s) sk = Inr r"
      by (auto simp: get_async_uncached_def bind_result_def decode_storage_value_def split: sum.splits)
    with assms have "r = qs_contents val s k" by (simp add: qs_contents_def key_view_def qmdb_ok_def)
    with sk(1) create_storage_key_ok_iff [of k] show ?thesis by (auto simp: map_storage_get_Inr)
  qed
  assume h: "qmdb_healthy Q"
  show "get_async_uncached Q (qs_db s) k = map_storage_get (qs_contents val s) k"
  proof (cases "create_storage_key k")
    case (Inl e)
    then show ?thesis
      using create_storage_key_Inl [of k e "qs_contents val s"] by (simp add: get_async_uncached_def)
  next
    case (Inr sk)
    from h obtain v where "qd_get Q (qs_db s) sk = Inr v" unfolding qmdb_healthy_def by blast
    with Inr have "get_async_uncached Q (qs_db s) k = Inr v"
      by (simp add: get_async_uncached_def decode_storage_value_def)
    with answer show ?thesis by simp
  qed
qed

lemma cache_result_eq: "cache_result ord k r = sharded_insert ord k (cached_of r)"
  by (simp add: cache_result_def cached_of_def sharded_insert_present_def sharded_insert_absent_def
      split: option.split)

lemma storage_inv_cache_result:
  assumes "storage_inv val s" and "map_storage_get (qs_contents val s) k = Inr r"
  shows "storage_inv val (s\<lparr>qs_cache := cache_result ord k r (qs_cache s)\<rparr>)"
proof -
  let ?S = "map_storage_get (qs_contents val s)"
  from assms(1) have c: "sharded_wf (qs_cache s)" "cache_sound sharded_get ?S (qs_cache s)"
    by (simp_all add: storage_inv_def)
  from shc.sound_ins [OF c, of k "cached_of r"] assms(2)
  have "cache_sound sharded_get ?S (sharded_insert ord k (cached_of r) (qs_cache s))" by simp
  with shc.wf_ins [OF c(1)] show ?thesis
    by (simp add: storage_inv_def cache_result_eq qs_contents_def)
qed

text \<open>Reading one key: a value returned is the map's, and a healthy database always answers.\<close>

lemma qmdb_get_spec:
  assumes ok: "qmdb_ok Q val" and inv: "storage_inv val s" and run: "qmdb_get Q ord rt k s = (r, s')"
  shows "storage_inv val s' \<and> qs_contents val s' = qs_contents val s \<and>
    (\<forall>v. r = Inr v \<longrightarrow> map_storage_get (qs_contents val s) k = Inr v) \<and>
    (qmdb_healthy Q \<longrightarrow> rt \<noteq> CurrentThread \<longrightarrow> r = map_storage_get (qs_contents val s) k)"
proof (cases "sharded_get k (qs_cache s)")
  case (Some c)
  with run inv storage_inv_cached [OF inv Some] show ?thesis by (auto simp: qmdb_get_def)
next
  case None
  show ?thesis
  proof (cases "rt = CurrentThread \<or> (\<exists>e. get_async_uncached Q (qs_db s) k = Inl e)")
    case True
    with None run inv get_async_uncached_contents(2) [OF ok, of s k] show ?thesis
      by (auto simp: qmdb_get_def split: if_splits sum.splits)
  next
    case False
    then obtain r' where get: "get_async_uncached Q (qs_db s) k = Inr r'"
      by (cases "get_async_uncached Q (qs_db s) k") auto
    with None False run have "r = Inr r'" "s' = s\<lparr>qs_cache := cache_result ord k r' (qs_cache s)\<rparr>"
      by (auto simp: qmdb_get_def)
    moreover note get_async_uncached_contents(1) [OF ok get]
    ultimately show ?thesis using storage_inv_cache_result [OF inv] by (auto simp: qs_contents_def)
  qed
qed

end
