(* ===== verification/Qmdb_Props.thy ===== *)
theory Qmdb_Props
  imports Qmdb_Storage
begin

text \<open>
  The database storage presents a key-value map: batched reads and writes through the cache, and
  runs of calls one after the other. Then the same calls cut into the steps between which other
  threads may run, and what the cache may hold under every interleaving.
\<close>

section \<open>Batched reads\<close>

lemma collect_result_Inr: "collect_result rs = Inr vs \<Longrightarrow> rs = map Inr vs"
proof (induction rs arbitrary: vs)
  case (Cons r rs)
  then show ?case by (cases r; cases "collect_result rs") auto
qed simp

text \<open>
  What a pass over the cache leaves: cached positions hold their values, the others are listed as
  misses, once each, with the storage key of their key.
\<close>

definition collected ::
    "sharded_cache \<Rightarrow> (nat \<times> bytes) list \<Rightarrow> bytes option list \<Rightarrow> bytes option list \<Rightarrow>
       (nat \<times> bytes \<times> bytes) list \<Rightarrow> bool" where
  "collected cache ps r r' new \<longleftrightarrow>
     length r' = length r \<and> (\<forall>i. i \<notin> fst ` set ps \<longrightarrow> r' ! i = r ! i) \<and>
     distinct (map fst new) \<and> fst ` set new \<subseteq> fst ` set ps \<and>
     (\<forall>(i, k, sk)\<in>set new. (i, k) \<in> set ps \<and> create_storage_key k = Inr sk) \<and>
     (\<forall>(i, k)\<in>set ps. i < length r \<longrightarrow> r ! i = None \<longrightarrow>
        i \<in> fst ` set new \<or> (\<exists>v. sharded_get k cache = Some v \<and> r' ! i = cached_result v))"

lemma collected_miss:
  assumes "collected cache ps r r' new" "idx \<notin> fst ` set ps" "create_storage_key key = Inr sk"
  shows "collected cache ((idx, key) # ps) r r' ((idx, key, sk) # new)"
  using assms by (auto simp: collected_def)

lemma collected_hit:
  assumes "collected cache ps r2 r' new" "idx \<notin> fst ` set ps" "sharded_get key cache = Some v"
    and "r2 = (case v of Present data \<Rightarrow> r[idx := Some data] | Absent \<Rightarrow> r)"
  shows "collected cache ((idx, key) # ps) r r' new"
proof -
  from assms(4) have r2: "length r2 = length r" "i \<noteq> idx \<Longrightarrow> r2 ! i = r ! i"
    "idx < length r \<Longrightarrow> r ! idx = None \<Longrightarrow> r2 ! idx = cached_result v" for i
    by (simp_all split: cached_value.split)
  have in_ps: "r2 ! i = r ! i" if "(i, k) \<in> set ps" for i k
    using assms(2) that r2(2) [of i] by force
  note c = assms(1) [unfolded collected_def r2(1)]
  from c assms(2) r2(3) have hit: "idx < length r \<Longrightarrow> r ! idx = None \<Longrightarrow> r' ! idx = cached_result v" by simp
  have old: "r' ! i = r ! i" if "i \<notin> fst ` set ((idx, key) # ps)" for i
    using c r2(2) [of i] that by simp
  from c have "\<forall>(i, k)\<in>set ps. i < length r \<longrightarrow> r2 ! i = None \<longrightarrow>
      i \<in> fst ` set new \<or> (\<exists>v. sharded_get k cache = Some v \<and> r' ! i = cached_result v)" by (elim conjE)
  note ps = this [THEN bspec, unfolded split_conv]
  have "i \<in> fst ` set new \<or> (\<exists>v. sharded_get k cache = Some v \<and> r' ! i = cached_result v)"
    if "(i, k) \<in> set ((idx, key) # ps)" "i < length r" "r ! i = None" for i k
  proof (cases "(i, k) \<in> set ps")
    case True
    with ps [OF True] in_ps [OF True] that(2,3) show ?thesis by simp
  next
    case False
    with that hit assms(3) show ?thesis by simp
  qed
  with c old show ?thesis unfolding collected_def by (simp add: subset_insertI2 case_prod_beta)
qed

lemma collect_misses_spec:
  "collect_misses cache ps r ms = Inr (r', ms') \<Longrightarrow> distinct (map fst ps) \<Longrightarrow>
     \<exists>new. ms' = ms @ new \<and> collected cache ps r r' new"
proof (induction cache ps r ms rule: collect_misses.induct)
  case (1 cache results misses)
  then show ?case by (simp add: collected_def)
next
  case (2 cache idx key rest results misses)
  from "2.prems"(2) have idx: "idx \<notin> fst ` set rest" and dist: "distinct (map fst rest)" by auto
  show ?case
  proof (cases "sharded_get key cache")
    case None
    with "2.prems" obtain sk where sk: "create_storage_key key = Inr sk"
      and rec: "collect_misses cache rest results (misses @ [(idx, key, sk)]) = Inr (r', ms')"
      by (cases "create_storage_key key") auto
    from "2.IH"(1) [OF None rec dist] collected_miss [OF _ idx sk] show ?thesis by fastforce
  next
    case (Some v)
    define results' where "results' = (case v of Present data \<Rightarrow> results[idx := Some data] | Absent \<Rightarrow> results)"
    from Some "2.prems"(1) have "collect_misses cache rest results' misses = Inr (r', ms')"
      by (cases v) (simp_all add: results'_def)
    then have "\<exists>new. ms' = misses @ new \<and> collected cache rest results' r' new"
      using "2.IH"(2,3) Some dist by (cases v) (simp_all add: results'_def)
    with collected_hit [OF _ idx Some results'_def] show ?thesis by blast
  qed
qed

text \<open>Writing the fetched values to their positions and to the cache.\<close>

lemma put_results_nth:
  assumes "distinct (map fst ms)" "\<forall>(i, _)\<in>set ms. i < length r"
  shows "fst (fold (\<lambda>((i, k, _), v) (r, c). (r[i := v], cache_result ord k v c))
        (zip ms (map (\<lambda>(_, k, _). m k) ms)) (r, c)) ! j =
      (case map_of ms j of Some (k, _) \<Rightarrow> m k | None \<Rightarrow> r ! j)"
  using assms
proof (induction ms arbitrary: r c)
  case (Cons e ms)
  obtain i k sk where e: "e = (i, k, sk)" by (cases e)
  from Cons.prems have "map_of ms i = None" by (auto simp: e map_of_eq_None_iff)
  with Cons show ?case by (auto simp: e nth_list_update split: option.split)
qed simp

lemma put_results_inv:
  assumes "storage_inv val s" and "\<forall>(i, k, sk)\<in>set ms. length k \<le> STORAGE_MAX_KEY_SIZE"
  shows "storage_inv val (s\<lparr>qs_cache := snd (fold (\<lambda>((i, k, _), v) (r, c). (r[i := v], cache_result ord k v c))
        (zip ms (map (\<lambda>(_, k, _). qs_contents val s k) ms)) (r, qs_cache s))\<rparr>)"
  using assms
proof (induction ms arbitrary: r s)
  case (Cons e ms)
  obtain i k sk where e: "e = (i, k, sk)" by (cases e)
  let ?s = "s\<lparr>qs_cache := cache_result ord k (qs_contents val s k) (qs_cache s)\<rparr>"
  have "map_storage_get (qs_contents val s) k = Inr (qs_contents val s k)"
    using Cons.prems(2) by (simp add: e map_storage_get_Inr)
  with Cons.prems have "storage_inv val ?s" by (simp add: storage_inv_cache_result)
  moreover have "qs_contents val ?s = qs_contents val s" by (simp add: qs_contents_def)
  ultimately show ?case
    using Cons.IH [of ?s "r[i := qs_contents val s k]"] Cons.prems(2) by (simp add: e)
qed simp

lemma uncached_values:
  assumes "qmdb_ok Q val"
  shows "get_many_async_uncached Q (qs_db s) ms = Inr vs \<Longrightarrow>
    \<forall>(i, k, sk)\<in>set ms. create_storage_key k = Inr sk \<Longrightarrow> vs = map (\<lambda>(_, k, _). qs_contents val s k) ms"
proof (induction ms arbitrary: vs)
  case (Cons e ms)
  obtain i k sk where e: "e = (i, k, sk)" by (cases e)
  from Cons.prems obtain w ws where ws: "vs = w # ws" "decode_storage_value (qd_get Q (qs_db s) sk) = Inr w"
    "get_many_async_uncached Q (qs_db s) ms = Inr ws"
    by (auto simp: e get_many_async_uncached_def bind_result_def split: sum.splits)
  from Cons.prems(2) ws(2) have "get_async_uncached Q (qs_db s) k = Inr w"
    by (simp add: e get_async_uncached_def)
  with get_async_uncached_contents(1) [OF assms] have "w = qs_contents val s k"
    by (auto simp: map_storage_get_Inr)
  with Cons.IH [OF ws(3)] Cons.prems(2) ws(1) show ?case by (simp add: e)
qed (simp add: get_many_async_uncached_def)

lemma collected_positions:
  assumes "collected (qs_cache s) (enumerate 0 keys) (replicate (length keys) None) res ms" "storage_inv val s"
  shows "(i, k, sk) \<in> set ms \<Longrightarrow> i < length keys \<and> keys ! i = k"
    and "j < length keys \<Longrightarrow> j \<notin> fst ` set ms \<Longrightarrow> res ! j = qs_contents val s (keys ! j)"
proof -
  have key: "(i, k) \<in> set (enumerate 0 keys) \<longleftrightarrow> i < length keys \<and> keys ! i = k" for i k
    by (auto simp: in_set_enumerate_eq)
  show "(i, k, sk) \<in> set ms \<Longrightarrow> i < length keys \<and> keys ! i = k"
    using assms(1) key by (fastforce simp: collected_def)
  assume j: "j < length keys" "j \<notin> fst ` set ms"
  with assms(1) key [of j "keys ! j"] obtain v where "sharded_get (keys ! j) (qs_cache s) = Some v"
    "res ! j = cached_result v" by (fastforce simp: collected_def)
  with storage_inv_cached [OF assms(2)] show "res ! j = qs_contents val s (keys ! j)"
    by (auto simp: map_storage_get_Inr)
qed

lemma collected_keys_fit:
  assumes coll: "collected (qs_cache s) (enumerate 0 keys) (replicate (length keys) None) res ms"
    and inv: "storage_inv val s" and k: "k \<in> set keys"
  shows "length k \<le> STORAGE_MAX_KEY_SIZE"
proof -
  from k obtain j where j: "j < length keys" "keys ! j = k" by (auto simp: in_set_conv_nth)
  then have jk: "(j, k) \<in> set (enumerate 0 keys)" by (auto simp: in_set_enumerate_eq)
  show ?thesis
  proof (cases "j \<in> fst ` set ms")
    case True
    then obtain k' sk where "(j, k', sk) \<in> set ms" by auto
    with coll collected_positions(1) [OF coll inv this] j have "create_storage_key k = Inr sk"
      by (auto simp: collected_def)
    with create_storage_key_ok_iff show ?thesis by blast
  next
    case False
    with coll jk j obtain v where "sharded_get k (qs_cache s) = Some v"
      by (fastforce simp: collected_def)
    with storage_inv_cached [OF inv] show ?thesis by (auto simp: map_storage_get_Inr)
  qed
qed

lemma collected_filled:
  assumes coll: "collected (qs_cache s) (enumerate 0 keys) (replicate (length keys) None) res ms"
    and inv: "storage_inv val s"
  shows "fst (fold (\<lambda>((i, k, _), v) (r, c). (r[i := v], cache_result ord k v c))
      (zip ms (map (\<lambda>(_, k, _). qs_contents val s k) ms)) (res, c)) = map (qs_contents val s) keys"
proof (rule nth_equalityI)
  let ?put = "fold (\<lambda>((i, k, _ :: bytes), v) (r, c). (r[i := v], cache_result ord k v c))"
  let ?z = "zip ms (map (\<lambda>(_, k, _). qs_contents val s k) ms)"
  have "length (fst (?put z (r, c))) = length r" for z and r :: "bytes option list" and c
    by (induction z arbitrary: r c) auto
  moreover have len: "length res = length keys" using coll by (simp add: collected_def)
  ultimately show l: "length (fst (?put ?z (res, c))) = length (map (qs_contents val s) keys)" by simp
  fix j assume "j < length (fst (?put ?z (res, c)))"
  with l have j: "j < length keys" by simp
  note pos = collected_positions [OF coll inv]
  from pos(1) have "\<forall>(i, _)\<in>set ms. i < length res" by (auto simp: len)
  from coll put_results_nth [OF _ this, of ord "qs_contents val s" c j]
  have "fst (?put ?z (res, c)) ! j = (case map_of ms j of Some (k, _) \<Rightarrow> qs_contents val s k | None \<Rightarrow> res ! j)"
    by (simp add: collected_def)
  also have "\<dots> = qs_contents val s (keys ! j)"
    using pos j by (auto simp: map_of_eq_None_iff split: option.split dest: map_of_SomeD)
  finally show "fst (?put ?z (res, c)) ! j = map (qs_contents val s) keys ! j" using j by simp
qed

lemma get_many_async_spec:
  assumes ok: "qmdb_ok Q val" and inv: "storage_inv val s" and run: "get_many_async Q ord keys s = (r, s')"
  shows "storage_inv val s' \<and> qs_contents val s' = qs_contents val s \<and>
    (\<forall>vs. r = Inr vs \<longrightarrow> vs = map (qs_contents val s) keys)"
proof (cases "keys = [] \<or> length keys > MAX_BATCH_SIZE \<or>
    (\<exists>e. collect_misses (qs_cache s) (enumerate 0 keys) (replicate (length keys) None) [] = Inl e)")
  case True
  with inv run show ?thesis by (auto simp: get_many_async_def split: if_splits)
next
  case False
  let ?m = "qs_contents val s" and ?init = "replicate (length keys) None"
  from False obtain res ms where coll: "collect_misses (qs_cache s) (enumerate 0 keys) ?init [] = Inr (res, ms)"
    by (cases "collect_misses (qs_cache s) (enumerate 0 keys) ?init []") auto
  from collect_misses_spec [OF coll] have ms: "collected (qs_cache s) (enumerate 0 keys) ?init res ms"
    by (simp add: enumerate_eq_zip)
  show ?thesis
  proof (cases "ms = [] \<or> (\<exists>e. get_many_async_uncached Q (qs_db s) ms = Inl e)")
    case True
    from collected_filled [OF ms inv] have "res = map ?m keys" if "ms = []" using that by simp
    with True False coll inv run show ?thesis by (auto simp: get_many_async_def split: if_splits)
  next
    case fetched: False
    then obtain vs where vs: "get_many_async_uncached Q (qs_db s) ms = Inr vs"
      by (cases "get_many_async_uncached Q (qs_db s) ms") auto
    from ms have sk: "\<forall>(i, k, sk)\<in>set ms. create_storage_key k = Inr sk" by (auto simp: collected_def)
    then have "\<forall>(i, k, sk)\<in>set ms. length k \<le> STORAGE_MAX_KEY_SIZE"
      using create_storage_key_ok_iff by fast
    moreover from sk uncached_values [OF ok vs] have "vs = map (\<lambda>(_, k, _). ?m k) ms" by blast
    ultimately show ?thesis
      using run False fetched coll vs collected_filled [OF ms inv] put_results_inv [OF inv]
      by (auto simp: get_many_async_def Let_def case_prod_beta qs_contents_def)
  qed
qed

text \<open>A healthy database answers a batch of reads exactly as the map does, errors included.\<close>

lemma collect_map_storage_get:
  "collect_result (map (map_storage_get m) keys) =
     (if \<forall>k\<in>set keys. length k \<le> STORAGE_MAX_KEY_SIZE then Inr (map m keys)
      else Inl STORAGE_ERR_KEY_TOO_LARGE)"
  by (induction keys) (auto simp: map_storage_get_def)

lemma collect_misses_Inl:
  "collect_misses cache ps r ms = Inl e \<Longrightarrow> \<exists>(i, k)\<in>set ps. create_storage_key k = Inl e"
  by (induction cache ps r ms rule: collect_misses.induct)
    (auto simp: bind_result_def split: option.splits cached_value.splits sum.splits)

lemma get_many_async_uncached_healthy:
  "qmdb_healthy Q \<Longrightarrow> \<exists>vs. get_many_async_uncached Q db ms = Inr vs"
proof (induction ms)
  case (Cons e ms)
  from Cons.prems obtain v where "qd_get Q db (snd (snd e)) = Inr v"
    unfolding qmdb_healthy_def by blast
  with Cons show ?case
    by (auto simp: get_many_async_uncached_def decode_storage_value_def case_prod_beta)
qed (simp add: get_many_async_uncached_def)

lemma get_many_async_exact:
  assumes ok: "qmdb_ok Q val" and healthy: "qmdb_healthy Q" and inv: "storage_inv val s"
    and run: "get_many_async Q ord keys s = (r, s')"
  shows "r = (if length keys > MAX_BATCH_SIZE then Inl ERR_BATCH_TOO_LARGE
    else collect_result (map (map_storage_get (qs_contents val s)) keys))"
proof (cases "keys = [] \<or> length keys > MAX_BATCH_SIZE")
  case True
  with run show ?thesis by (auto simp: get_many_async_def)
next
  case False
  let ?m = "qs_contents val s" and ?init = "replicate (length keys) None"
  let ?coll = "collect_misses (qs_cache s) (enumerate 0 keys) ?init []"
  show ?thesis
  proof (cases ?coll)
    case (Inl e)
    from collect_misses_Inl [OF Inl] obtain i where "i < length keys" "create_storage_key (keys ! i) = Inl e"
      by (auto simp: in_set_enumerate_eq)
    then obtain k where "k \<in> set keys" "create_storage_key k = Inl e" using nth_mem by blast
    then have "e = STORAGE_ERR_KEY_TOO_LARGE" "\<not> (\<forall>k\<in>set keys. length k \<le> STORAGE_MAX_KEY_SIZE)"
      using create_storage_key_Inl [of k e "\<lambda>_. None"]
      by (auto simp: map_storage_get_def not_le split: if_splits)
    with Inl False run show ?thesis by (auto simp: get_many_async_def collect_map_storage_get)
  next
    case (Inr rm)
    then obtain res ms where coll: "?coll = Inr (res, ms)" by (cases rm) auto
    from collect_misses_spec [OF coll] have ms: "collected (qs_cache s) (enumerate 0 keys) ?init res ms"
      by (simp add: enumerate_eq_zip)
    from get_many_async_uncached_healthy [OF healthy, of "qs_db s" ms]
    obtain ws where "get_many_async_uncached Q (qs_db s) ms = Inr ws" by blast
    with coll run False obtain vs where "r = Inr vs"
      by (cases "ms = []") (auto simp: get_many_async_def Let_def case_prod_beta)
    moreover have "\<forall>k\<in>set keys. length k \<le> STORAGE_MAX_KEY_SIZE"
      using collected_keys_fit [OF ms inv] by simp
    ultimately show ?thesis
      using get_many_async_spec [OF ok inv run] False by (simp add: collect_map_storage_get)
  qed
qed

section \<open>Batches\<close>

lemma storage_inv_write:
  assumes inv: "storage_inv val s" and cont: "qs_contents val s' = fold op_apply ops (qs_contents val s)"
    and cache: "qs_cache s' = fold sharded_invalidate (map op_key ops) (qs_cache s)"
  shows "storage_inv val s'"
proof -
  let ?S = "map_storage_get (qs_contents val s)" and ?S' = "map_storage_get (qs_contents val s')"
  from inv have c: "sharded_wf (qs_cache s)" "cache_sound sharded_get ?S (qs_cache s)"
    by (simp_all add: storage_inv_def)
  have "cache_sound sharded_get ?S' (qs_cache s')"
    unfolding cache by (rule shc.sound_write [OF c]) (simp add: cont map_storage_get_def fold_op_apply_other)
  with shc.wf_fold_inval [OF c(1)] show ?thesis by (simp add: storage_inv_def cache)
qed

text \<open>A batch that is not applied leaves the map and the cache alone.\<close>

lemma qmdb_apply_batch_unapplied:
  assumes ok: "qmdb_ok Q val" and run: "qmdb_apply_batch Q ops s = (r, s')"
    and unapplied: "\<nexists>b c d. prepare_batch ops = Inr b \<and> updates b \<noteq> [] \<and>
      qd_merkleize Q (qs_db s) (updates b) = Inr c \<and> qd_apply_batch Q c (qs_db s) = (Inr (), d)"
  shows "qs_contents val s' = qs_contents val s \<and> qs_cache s' = qs_cache s \<and> (\<forall>u. r = Inr u \<longrightarrow> ops = [])"
proof (cases "\<exists>b c e d. prepare_batch ops = Inr b \<and> updates b \<noteq> [] \<and>
    qd_merkleize Q (qs_db s) (updates b) = Inr c \<and> qd_apply_batch Q c (qs_db s) = (Inl e, d)")
  case True
  then obtain b c e d where "prepare_batch ops = Inr b" "updates b \<noteq> []"
    and c: "qd_merkleize Q (qs_db s) (updates b) = Inr c" "qd_apply_batch Q c (qs_db s) = (Inl e, d)" by blast
  moreover from ok c(2) have "val d = val (qs_db s)" by (auto simp: qmdb_ok_def)
  ultimately show ?thesis using run by (auto simp: qmdb_apply_batch_def qs_contents_def)
next
  case False
  have "s' = s \<and> (\<forall>u. r = Inr u \<longrightarrow> ops = [])"
    using run False unapplied prepare_batch_spec(3) [of ops]
    by (auto simp: qmdb_apply_batch_def split: sum.splits if_splits prod.splits)
  then show ?thesis by simp
qed

lemma qmdb_apply_batch_spec:
  assumes ok: "qmdb_ok Q val" and inv: "storage_inv val s" and run: "qmdb_apply_batch Q ops s = (r, s')"
  shows "storage_inv val s' \<and>
    qs_contents val s' = (case r of Inr _ \<Rightarrow> fold op_apply ops (qs_contents val s) | Inl _ \<Rightarrow> qs_contents val s)"
proof (cases "\<exists>b c d. prepare_batch ops = Inr b \<and> updates b \<noteq> [] \<and>
    qd_merkleize Q (qs_db s) (updates b) = Inr c \<and> qd_apply_batch Q c (qs_db s) = (Inr (), d)")
  case True
  then obtain b c d where b: "prepare_batch ops = Inr b" "updates b \<noteq> []"
    and c: "qd_merkleize Q (qs_db s) (updates b) = Inr c" "qd_apply_batch Q c (qs_db s) = (Inr (), d)" by blast
  then have r: "r = Inr ()" and s': "s' = s\<lparr>qs_db := d, qs_cache := fold sharded_invalidate (map op_key ops) (qs_cache s)\<rparr>"
    using run prepare_batch_spec(2) [OF b(1)] by (auto simp: qmdb_apply_batch_def)
  from ok c have "val d = upd_all (updates b) (val (qs_db s))" by (auto simp: qmdb_ok_def)
  then have cont: "qs_contents val s' = fold op_apply ops (qs_contents val s)"
    using prepare_batch_spec(1) [OF b(1)] by (simp add: qs_contents_def s')
  with r storage_inv_write [OF inv cont] show ?thesis by (simp add: s')
next
  case False
  from qmdb_apply_batch_unapplied [OF ok run False] inv show ?thesis
    by (auto simp: storage_inv_def split: sum.split)
qed

lemma qmdb_apply_batch_healthy:
  assumes "qmdb_healthy Q"
  shows "fst (qmdb_apply_batch Q ops s) = (case prepare_batch ops of Inl e \<Rightarrow> Inl e | Inr _ \<Rightarrow> Inr ())"
proof (cases "prepare_batch ops")
  case (Inr b)
  from assms obtain c where c: "qd_merkleize Q (qs_db s) (updates b) = Inr c"
    unfolding qmdb_healthy_def by blast
  from assms obtain d where "qd_apply_batch Q c (qs_db s) = (Inr (), d)"
    unfolding qmdb_healthy_def by blast
  with Inr c show ?thesis by (simp add: qmdb_apply_batch_def)
qed (simp add: qmdb_apply_batch_def)

section \<open>Calls one after the other\<close>

datatype storage_call = CallGet bytes | CallGetMany "bytes list" | CallBatch "storage_operation list"

datatype storage_reply =
  ReplyGet "error_code + bytes option"
| ReplyMany "error_code + bytes option list"
| ReplyBatch "error_code + unit"

text \<open>The calls on a database storage, and on a map.\<close>

fun storage_step ::
    "('d, 'c) qmdb \<Rightarrow> visit_order \<Rightarrow> runtime_flavor \<Rightarrow> storage_call \<Rightarrow> 'd qmdb_storage \<Rightarrow>
       storage_reply \<times> 'd qmdb_storage" where
  "storage_step Q ord rt (CallGet key) s = (let (r, s') = qmdb_get Q ord rt key s in (ReplyGet r, s'))"
| "storage_step Q ord rt (CallGetMany keys) s = (let (r, s') = get_many Q ord rt keys s in (ReplyMany r, s'))"
| "storage_step Q ord rt (CallBatch ops) s = (let (r, s') = qmdb_batch Q ops s in (ReplyBatch r, s'))"

fun storage_spec :: "storage_call \<Rightarrow> (bytes \<rightharpoonup> bytes) \<Rightarrow> storage_reply \<times> (bytes \<rightharpoonup> bytes)" where
  "storage_spec (CallGet key) m = (ReplyGet (map_storage_get m key), m)"
| "storage_spec (CallGetMany keys) m =
     (ReplyMany (if length keys > MAX_BATCH_SIZE then Inl ERR_BATCH_TOO_LARGE
                 else collect_result (map (map_storage_get m) keys)), m)"
| "storage_spec (CallBatch ops) m =
     (if length ops \<le> MAX_BATCH_SIZE \<and> list_all op_fits ops
      then (ReplyBatch (Inr ()), fold op_apply ops m)
      else (ReplyBatch (to_error_code (case prepare_batch ops of Inl e \<Rightarrow> Inl e | Inr _ \<Rightarrow> Inr ())), m))"

definition presents :: "('d \<Rightarrow> bytes \<rightharpoonup> bytes) \<Rightarrow> (bytes \<rightharpoonup> bytes) \<Rightarrow> 'd qmdb_storage \<Rightarrow> bool" where
  "presents val m s \<longleftrightarrow> storage_inv val s \<and> qs_contents val s = m"

lemma storage_step_sim:
  assumes "qmdb_ok Q val" "qmdb_healthy Q" "rt \<noteq> CurrentThread" "presents val m s"
  shows "fst (storage_step Q ord rt call s) = fst (storage_spec call m) \<and>
    presents val (snd (storage_spec call m)) (snd (storage_step Q ord rt call s))"
proof -
  from assms(4) have inv: "storage_inv val s" and m: "m = qs_contents val s" by (simp_all add: presents_def)
  show ?thesis
  proof (cases call)
    case (CallGet key)
    obtain r s' where run: "qmdb_get Q ord rt key s = (r, s')" by fastforce
    from qmdb_get_spec [OF assms(1) inv run] assms(2,3)
    have "storage_inv val s'" "qs_contents val s' = m" "r = map_storage_get m key" unfolding m by blast+
    then show ?thesis by (simp add: presents_def CallGet run)
  next
    case (CallGetMany keys)
    obtain r s' where run: "get_many_async Q ord keys s = (r, s')" by fastforce
    from get_many_async_spec [OF assms(1) inv run]
    have "storage_inv val s'" "qs_contents val s' = m" unfolding m by blast+
    with get_many_async_exact [OF assms(1,2) inv run] assms(3)
    show ?thesis by (simp add: presents_def get_many_def CallGetMany run m)
  next
    case (CallBatch ops)
    obtain r s' where run: "qmdb_apply_batch Q ops s = (r, s')" by fastforce
    with qmdb_apply_batch_healthy [OF assms(2), of ops s]
    have r: "r = (case prepare_batch ops of Inl e \<Rightarrow> Inl e | Inr _ \<Rightarrow> Inr ())" by simp
    show ?thesis
      using qmdb_apply_batch_spec [OF assms(1) inv run] prepare_batch_ok_iff [of ops]
      by (cases "prepare_batch ops") (auto simp: presents_def qmdb_batch_def CallBatch run m r to_error_code_def)
  qed
qed

text \<open>The root shown in advance is the root committed.\<close>

lemma preview_then_commit:
  assumes ok: "qmdb_ok Q val" and preview: "preview_batch_root Q ops s = Inr h"
    and batch: "qmdb_apply_batch Q ops s = (Inr (), s')" and commit: "commit_state Q s' = Inr h'"
  shows "h' = h"
proof -
  from commit have h': "h' = qd_root Q (qs_db s')"
    by (auto simp: commit_state_def bind_result_def root_to_commit_hash_def split: sum.splits if_splits)
  from preview obtain b where b: "prepare_batch ops = Inr b"
    by (auto simp: preview_batch_root_def bind_result_def split: sum.splits)
  show ?thesis
  proof (cases "updates b = []")
    case True
    with preview batch h' b show ?thesis
      by (auto simp: preview_batch_root_def qmdb_apply_batch_def root_to_commit_hash_def split: if_splits)
  next
    case False
    with preview b obtain c where c: "qd_merkleize Q (qs_db s) (updates b) = Inr c" "h = qd_batch_root Q c"
      by (auto simp: preview_batch_root_def bind_result_def map_qmdb_error_def root_to_commit_hash_def
          split: sum.splits if_splits)
    with batch b False obtain d u where "qd_apply_batch Q c (qs_db s) = (Inr u, d)" "qs_db s' = d"
      by (auto simp: qmdb_apply_batch_def split: prod.splits sum.splits)
    with ok c h' show ?thesis by (auto simp: qmdb_ok_def)
  qed
qed

end
