(* ===== verification/Qmdb_Races.thy ===== *)
theory Qmdb_Races
  imports Qmdb_Props
begin

text \<open>
  Concurrent calls on the database storage. A read is three steps: it looks in the cache, fetches a
  missing key under the read lock of the database, and stores the answer in the cache after it has
  released that lock. A batch holds the write lock while it is applied and while its keys are
  dropped from the cache, one by one. The cache has locks of its own, so its steps interleave with
  everything. \<open>cn_raced\<close> collects the keys that were written between the fetch and the store of
  some read; it records history and influences nothing.
\<close>

section \<open>Steps\<close>

datatype reader = Idle | Missed bytes | Fetched bytes "bytes option"

record 'd concurrent =
  cn_storage :: "'d qmdb_storage"
  cn_readers :: "nat \<Rightarrow> reader"
  cn_writer :: "bytes list option"
  cn_raced :: "bytes set"

definition concurrent_start :: "'d qmdb_storage \<Rightarrow> 'd concurrent" where
  "concurrent_start s = \<lparr>cn_storage = s, cn_readers = (\<lambda>_. Idle), cn_writer = None, cn_raced = {}\<rparr>"

definition set_reader :: "nat \<Rightarrow> reader \<Rightarrow> 'd concurrent \<Rightarrow> 'd concurrent" where
  "set_reader i p c = c\<lparr>cn_readers := (cn_readers c)(i := p)\<rparr>"

definition on_cache :: "(sharded_cache \<Rightarrow> sharded_cache) \<Rightarrow> 'd concurrent \<Rightarrow> 'd concurrent" where
  "on_cache f c = c\<lparr>cn_storage := (cn_storage c)\<lparr>qs_cache := f (qs_cache (cn_storage c))\<rparr>\<rparr>"

definition begin_write :: "'d \<Rightarrow> bytes list \<Rightarrow> 'd concurrent \<Rightarrow> 'd concurrent" where
  "begin_write d keys c = c\<lparr>cn_storage := (cn_storage c)\<lparr>qs_db := d\<rparr>, cn_writer := Some keys,
     cn_raced := cn_raced c \<union> {k \<in> set keys. \<exists>i v. cn_readers c i = Fetched k v}\<rparr>"

inductive concurrent_step :: "('d, 'c) qmdb \<Rightarrow> visit_order \<Rightarrow> 'd concurrent \<Rightarrow> 'd concurrent \<Rightarrow> bool"
  for Q :: "('d, 'c) qmdb" and ord :: visit_order where
  read_miss: "cn_readers c i = Idle \<Longrightarrow> sharded_get k (qs_cache (cn_storage c)) = None \<Longrightarrow>
    concurrent_step Q ord c (set_reader i (Missed k) c)"
| read_fetch: "cn_readers c i = Missed k \<Longrightarrow> cn_writer c = None \<Longrightarrow>
    get_async_uncached Q (qs_db (cn_storage c)) k = Inr v \<Longrightarrow>
    concurrent_step Q ord c (set_reader i (Fetched k v) c)"
| read_error: "cn_readers c i = Missed k \<Longrightarrow> cn_writer c = None \<Longrightarrow>
    get_async_uncached Q (qs_db (cn_storage c)) k = Inl e \<Longrightarrow>
    concurrent_step Q ord c (set_reader i Idle c)"
| read_store: "cn_readers c i = Fetched k v \<Longrightarrow>
    concurrent_step Q ord c (on_cache (cache_result ord k v) (set_reader i Idle c))"
| write_apply: "cn_writer c = None \<Longrightarrow> prepare_batch ops = Inr b \<Longrightarrow> updates b \<noteq> [] \<Longrightarrow>
    qd_merkleize Q (qs_db (cn_storage c)) (updates b) = Inr changeset \<Longrightarrow>
    qd_apply_batch Q changeset (qs_db (cn_storage c)) = (Inr (), d) \<Longrightarrow>
    concurrent_step Q ord c (begin_write d (keys_to_invalidate b) c)"
| write_invalidate: "cn_writer c = Some (k # ks) \<Longrightarrow>
    concurrent_step Q ord c (on_cache (sharded_invalidate k) c\<lparr>cn_writer := Some ks\<rparr>)"
| write_unlock: "cn_writer c = Some [] \<Longrightarrow> concurrent_step Q ord c (c\<lparr>cn_writer := None\<rparr>)"

section \<open>What the cache may hold\<close>

definition pending :: "'d concurrent \<Rightarrow> bytes set" where
  "pending c = (case cn_writer c of None \<Rightarrow> {} | Some ks \<Rightarrow> set ks)"

text \<open>
  Outside the raced keys, a fetched value is current, and so is a cached one unless its key is about
  to be dropped.
\<close>

definition concurrent_inv :: "('d \<Rightarrow> bytes \<rightharpoonup> bytes) \<Rightarrow> 'd concurrent \<Rightarrow> bool" where
  "concurrent_inv val c \<longleftrightarrow>
     sharded_wf (qs_cache (cn_storage c)) \<and>
     (\<forall>k v. sharded_get k (qs_cache (cn_storage c)) = Some v \<longrightarrow> k \<in> cn_raced c \<or> k \<in> pending c \<or>
        map_storage_get (qs_contents val (cn_storage c)) k = Inr (cached_result v)) \<and>
     (\<forall>i k v. cn_readers c i = Fetched k v \<longrightarrow> k \<in> cn_raced c \<or>
        map_storage_get (qs_contents val (cn_storage c)) k = Inr v)"

lemma concurrent_invI:
  assumes "sharded_wf (qs_cache (cn_storage c))"
    and "\<And>k v. sharded_get k (qs_cache (cn_storage c)) = Some v \<Longrightarrow> k \<in> cn_raced c \<or> k \<in> pending c \<or>
        map_storage_get (qs_contents val (cn_storage c)) k = Inr (cached_result v)"
    and "\<And>i k v. cn_readers c i = Fetched k v \<Longrightarrow> k \<in> cn_raced c \<or>
        map_storage_get (qs_contents val (cn_storage c)) k = Inr v"
  shows "concurrent_inv val c"
  using assms by (simp add: concurrent_inv_def)

lemma concurrent_invD:
  assumes "concurrent_inv val c"
  shows "sharded_wf (qs_cache (cn_storage c))"
    and "sharded_get k (qs_cache (cn_storage c)) = Some v \<Longrightarrow> k \<in> cn_raced c \<or> k \<in> pending c \<or>
        map_storage_get (qs_contents val (cn_storage c)) k = Inr (cached_result v)"
    and "cn_readers c i = Fetched k r \<Longrightarrow> k \<in> cn_raced c \<or>
        map_storage_get (qs_contents val (cn_storage c)) k = Inr r"
  using assms by (simp_all add: concurrent_inv_def)

lemma concurrent_inv_start: "storage_inv val s \<Longrightarrow> concurrent_inv val (concurrent_start s)"
  by (simp add: concurrent_inv_def concurrent_start_def storage_inv_def cache_sound_def)

lemmas concurrent_simps = set_reader_def on_cache_def begin_write_def pending_def qs_contents_def

lemma concurrent_inv_reader:
  assumes "concurrent_inv val c"
    and "\<And>k v. p = Fetched k v \<Longrightarrow> map_storage_get (qs_contents val (cn_storage c)) k = Inr v"
  shows "concurrent_inv val (set_reader i p c)"
  using assms by (auto simp: concurrent_inv_def concurrent_simps split: option.splits)

lemma concurrent_inv_store:
  assumes inv: "concurrent_inv val c" and r: "cn_readers c i = Fetched k v"
  shows "concurrent_inv val (on_cache (cache_result ord k v) (set_reader i Idle c))"
proof -
  let ?c = "on_cache (cache_result ord k v) (set_reader i Idle c)"
  note wf = concurrent_invD(1) [OF inv]
  have c: "qs_cache (cn_storage ?c) = sharded_insert ord k (cached_of v) (qs_cache (cn_storage c))"
    "qs_contents val (cn_storage ?c) = qs_contents val (cn_storage c)" "cn_raced ?c = cn_raced c"
    "pending ?c = pending c" by (simp_all add: concurrent_simps cache_result_eq)
  show ?thesis
  proof (rule concurrent_invI, unfold c)
    show "sharded_wf (sharded_insert ord k (cached_of v) (qs_cache (cn_storage c)))"
      by (rule shc.wf_ins [OF wf])
    fix k' u
    assume u: "sharded_get k' (sharded_insert ord k (cached_of v) (qs_cache (cn_storage c))) = Some u"
    show "k' \<in> cn_raced c \<or> k' \<in> pending c \<or>
        map_storage_get (qs_contents val (cn_storage c)) k' = Inr (cached_result u)"
    proof (cases "k' = k")
      case True
      with u shc.look_ins [OF wf] have "u = cached_of v" by simp
      with concurrent_invD(3) [OF inv r] True show ?thesis by auto
    next
      case False
      with shc.look_ins_other [OF wf u] concurrent_invD(2) [OF inv] show ?thesis by simp
    qed
  next
    fix j k' u assume "cn_readers ?c j = Fetched k' u"
    then have "cn_readers c j = Fetched k' u" by (simp add: concurrent_simps split: if_splits)
    with concurrent_invD(3) [OF inv]
    show "k' \<in> cn_raced c \<or> map_storage_get (qs_contents val (cn_storage c)) k' = Inr u" by simp
  qed
qed

lemma concurrent_inv_write:
  assumes ok: "qmdb_ok Q val" and inv: "concurrent_inv val c" and b: "prepare_batch ops = Inr b"
    and idle: "cn_writer c = None" and m: "qd_merkleize Q (qs_db (cn_storage c)) (updates b) = Inr ch"
    and d: "qd_apply_batch Q ch (qs_db (cn_storage c)) = (Inr (), d)"
  shows "concurrent_inv val (begin_write d (keys_to_invalidate b) c)"
proof -
  let ?s = "cn_storage c" and ?s' = "(cn_storage c)\<lparr>qs_db := d\<rparr>" and ?ks = "keys_to_invalidate b"
  from ok m d have "val d = upd_all (updates b) (val (qs_db ?s))" by (auto simp: qmdb_ok_def)
  then have "qs_contents val ?s' = fold op_apply ops (qs_contents val ?s)"
    using prepare_batch_spec(1) [OF b] by (simp add: qs_contents_def)
  then have same: "map_storage_get (qs_contents val ?s') k = map_storage_get (qs_contents val ?s) k"
    if "k \<notin> set ?ks" for k
    using that prepare_batch_spec(2) [OF b] by (simp add: map_storage_get_def fold_op_apply_other)
  have bw: "cn_storage (begin_write d ?ks c) = ?s'" "cn_readers (begin_write d ?ks c) = cn_readers c"
    "pending (begin_write d ?ks c) = set ?ks"
    "cn_raced (begin_write d ?ks c) = cn_raced c \<union> {k \<in> set ?ks. \<exists>i v. cn_readers c i = Fetched k v}"
    by (simp_all add: begin_write_def pending_def)
  show ?thesis
  proof (rule concurrent_invI, unfold bw)
    show "sharded_wf (qs_cache ?s')" using concurrent_invD(1) [OF inv] by simp
    show "k \<in> cn_raced c \<union> {k \<in> set ?ks. \<exists>i v. cn_readers c i = Fetched k v} \<or> k \<in> set ?ks \<or>
        map_storage_get (qs_contents val ?s') k = Inr (cached_result v)"
      if "sharded_get k (qs_cache ?s') = Some v" for k v
      using that concurrent_invD(2) [OF inv, of k v] same [of k] idle by (auto simp: pending_def)
    show "k \<in> cn_raced c \<union> {k \<in> set ?ks. \<exists>i v. cn_readers c i = Fetched k v} \<or>
        map_storage_get (qs_contents val ?s') k = Inr v" if "cn_readers c i = Fetched k v" for i k v
      using that concurrent_invD(3) [OF inv that] same [of k] by (cases "k \<in> set ?ks") auto
  qed
qed

lemma concurrent_inv_invalidate:
  assumes inv: "concurrent_inv val c" and w: "cn_writer c = Some (k # ks)"
  shows "concurrent_inv val (on_cache (sharded_invalidate k) c\<lparr>cn_writer := Some ks\<rparr>)"
proof -
  note wf = concurrent_invD(1) [OF inv]
  from w concurrent_invD(2,3) [OF inv] shc.look_inval [OF wf] shc.wf_inval [OF wf] show ?thesis
    by (intro concurrent_invI) (auto simp: concurrent_simps split: if_splits, blast)
qed

lemma concurrent_inv_step:
  assumes "qmdb_ok Q val"
  shows "concurrent_step Q ord c c' \<Longrightarrow> concurrent_inv val c \<Longrightarrow> concurrent_inv val c'"
proof (induction rule: concurrent_step.induct)
  case (read_fetch c i k v)
  then show ?case
    using get_async_uncached_contents(1) [OF assms] by (intro concurrent_inv_reader) auto
next
  case (write_unlock c)
  then show ?case by (simp add: concurrent_inv_def concurrent_simps)
qed (auto intro: concurrent_inv_reader concurrent_inv_store concurrent_inv_invalidate
      concurrent_inv_write [OF assms])

lemma concurrent_inv_reachable:
  assumes "qmdb_ok Q val" "(concurrent_step Q ord)\<^sup>*\<^sup>* c c'" "concurrent_inv val c"
  shows "concurrent_inv val c'"
  using assms(2,3) by (induction rule: rtranclp_induct) (auto intro: concurrent_inv_step [OF assms(1)])

section \<open>The race\<close>

text \<open>
  A read fetches a key, a batch sets it, and the read stores what it fetched: the cache then answers
  with the old value while the database has the new one, until the key is written or evicted again.
\<close>

lemma stale_entry_reachable:
  assumes ok: "qmdb_ok Q val" "qmdb_healthy Q" and inv: "storage_inv val s"
    and k: "length k \<le> STORAGE_MAX_KEY_SIZE" "sharded_get k (qs_cache s) = None"
    and v: "length v \<le> STORAGE_MAX_VALUE_SIZE"
  shows "\<exists>s'. (concurrent_step Q ord)\<^sup>*\<^sup>* (concurrent_start s)
      (concurrent_start s'\<lparr>cn_raced := {k}\<rparr>) \<and>
    sharded_get k (qs_cache s') = Some (cached_of (qs_contents val s k)) \<and>
    qs_contents val s' = (qs_contents val s)(k \<mapsto> v)"
proof -
  let ?step = "concurrent_step Q ord" and ?old = "qs_contents val s k"
  let ?c0 = "concurrent_start s" and ?ops = "[OperationSet k v]"
  let ?c1 = "set_reader 0 (Missed k) ?c0" and ?c2 = "set_reader 0 (Fetched k ?old) ?c0"
  have "?ops \<noteq> []" "length ?ops \<le> MAX_BATCH_SIZE \<and> list_all op_fits ?ops"
    using k v by (simp_all add: MAX_BATCH_SIZE_def op_fits_def)
  then obtain b where b: "prepare_batch ?ops = Inr b" "updates b \<noteq> []" "keys_to_invalidate b = [k]"
    using prepare_batch_ok_iff [of ?ops] prepare_batch_spec(2,3) [of ?ops] by auto
  from ok(2) obtain ch where ch: "qd_merkleize Q (qs_db s) (updates b) = Inr ch"
    unfolding qmdb_healthy_def by blast
  from ok(2) obtain d where d: "qd_apply_batch Q ch (qs_db s) = (Inr (), d)"
    unfolding qmdb_healthy_def by blast
  let ?c3 = "begin_write d [k] ?c2"
  let ?c4 = "on_cache (sharded_invalidate k) ?c3\<lparr>cn_writer := Some []\<rparr>"
  let ?c5 = "?c4\<lparr>cn_writer := None\<rparr>"
  let ?c6 = "on_cache (cache_result ord k ?old) (set_reader 0 Idle ?c5)"
  let ?s' = "cn_storage ?c6"
  have get: "get_async_uncached Q (qs_db s) k = Inr ?old"
    using get_async_uncached_contents(2) [OF ok(1) ok(2)] k by (simp add: map_storage_get_def)
  have c1: "set_reader 0 (Fetched k ?old) ?c1 = ?c2" by (simp add: set_reader_def)
  have "?step ?c0 ?c1" using k by (intro read_miss) (simp_all add: concurrent_start_def)
  moreover have "?step ?c1 ?c2"
    using read_fetch [where Q = Q and ord = ord and c = ?c1 and i = 0 and k = k and v = ?old] get
    unfolding c1 by (simp add: set_reader_def concurrent_start_def)
  moreover have "?step ?c2 ?c3"
    using write_apply [where Q = Q and ord = ord and c = ?c2 and b = b and d = d] b ch d
    by (simp add: set_reader_def concurrent_start_def)
  moreover have "?step ?c3 ?c4" by (rule write_invalidate) (simp add: begin_write_def)
  moreover have "?step ?c4 ?c5" by (rule write_unlock) simp
  moreover have "?step ?c5 ?c6" by (rule read_store) (simp add: concurrent_simps)
  ultimately have "?step\<^sup>*\<^sup>* ?c0 ?c6" by (meson converse_rtranclp_into_rtranclp rtranclp.rtrancl_refl)
  moreover have "?c6 = concurrent_start ?s'\<lparr>cn_raced := {k}\<rparr>"
    by (auto simp: concurrent_simps concurrent_start_def fun_eq_iff)
  moreover have "sharded_get k (qs_cache ?s') = Some (cached_of ?old)"
    using inv by (simp add: concurrent_simps concurrent_start_def cache_result_eq storage_inv_def
        shc.look_ins shc.wf_inval)
  moreover have "qs_contents val ?s' = (qs_contents val s)(k \<mapsto> v)"
  proof -
    from ok(1) ch d have "val d = upd_all (updates b) (val (qs_db s))" by (auto simp: qmdb_ok_def)
    then show ?thesis using prepare_batch_spec(1) [OF b(1), of "val (qs_db s)"]
      by (simp add: concurrent_simps concurrent_start_def)
  qed
  ultimately show ?thesis by metis
qed

end
