(* ===== verification/Storage_Theorems.thy ===== *)
theory Storage_Theorems
  imports Qmdb_Races Accounts Invoker Reference_Host
begin

text \<open>The properties of the storage layer.\<close>

section \<open>A database in memory\<close>

text \<open>
  An instance of the database library's interface: association lists, a merkleized batch being the
  database it leads to, with the number of entries as the last byte of the root.
\<close>

fun memory_update :: "bytes \<times> bytes option \<Rightarrow> (bytes, bytes) hashmap \<Rightarrow> (bytes, bytes) hashmap" where
  "memory_update (k, Some v) d = hm_insert k v d"
| "memory_update (k, None) d = hm_remove k d"

definition memory_qmdb :: "((bytes, bytes) hashmap, (bytes, bytes) hashmap) qmdb" where
  "memory_qmdb =
     \<lparr>qd_get = (\<lambda>d k. Inr (hm_get d k)), qd_root = (\<lambda>d. replicate 31 0 @ [of_nat (length d)]),
      qd_sync = (\<lambda>_. Inr ()), qd_merkleize = (\<lambda>d us. Inr (fold memory_update us d)),
      qd_batch_root = (\<lambda>d. replicate 31 0 @ [of_nat (length d)]), qd_apply_batch = (\<lambda>c d. (Inr (), c))\<rparr>"

lemma memory_qmdb_ok: "qmdb_ok memory_qmdb map_of"
proof -
  have step: "map_of (memory_update u d) = (map_of d)(fst u := snd u)" for u d
    by (cases "(u, d)" rule: memory_update.cases) (auto simp: update_conv' delete_conv')
  have "map_of (fold memory_update us d) = upd_all us (map_of d)" for us d
    by (induction us arbitrary: d) (simp_all add: upd_all_def step case_prod_beta del: fun_upd_apply)
  then show ?thesis by (simp add: qmdb_ok_def memory_qmdb_def)
qed

lemma memory_qmdb_healthy: "qmdb_healthy memory_qmdb"
  by (simp add: qmdb_healthy_def memory_qmdb_def)

definition memory_storage :: "(bytes, bytes) hashmap qmdb_storage" where
  "memory_storage = \<lparr>qs_db = [], qs_cache = sharded_with_defaults\<rparr>"

lemma memory_storage_new:
  "qmdb_storage_new memory_qmdb storage_config_default (\<lambda>_. Inr []) = Inr memory_storage"
proof -
  have "check_storage_config storage_config_default = Inr (262144, 67108864)"
    by (simp add: check_storage_config_def storage_config_default_def)
  then show ?thesis by (simp add: qmdb_storage_new_def map_qmdb_error_def memory_storage_def)
qed

lemma memory_contents: "qs_contents map_of memory_storage = Map.empty"
  by (simp add: qs_contents_def memory_storage_def key_view_def fun_eq_iff split: sum.split)

section \<open>Properties\<close>

text \<open>The envelope of a key: a key of at most 254 bytes becomes a string of exactly 256 bytes, a
  longer one is refused with the code for oversized keys, and two keys with the same envelope are
  the same key, so padding with zeros never confuses keys.\<close>

theorem storage_key_envelope:
  "(length k \<le> STORAGE_MAX_KEY_SIZE \<longrightarrow> (\<exists>s. create_storage_key k = Inr s \<and> length s = STORAGE_KEY_SIZE)) \<and>
   (STORAGE_MAX_KEY_SIZE < length k \<longrightarrow> create_storage_key k = Inl STORAGE_ERR_KEY_TOO_LARGE) \<and>
   (create_storage_key k = Inr s \<longrightarrow> create_storage_key k' = Inr s \<longrightarrow> k = k')"
proof (intro conjI impI)
  assume "length k \<le> STORAGE_MAX_KEY_SIZE"
  with create_storage_key_ok_iff obtain s where "create_storage_key k = Inr s" by blast
  with create_storage_key_size show "\<exists>s. create_storage_key k = Inr s \<and> length s = STORAGE_KEY_SIZE" by blast
next
  assume "STORAGE_MAX_KEY_SIZE < length k"
  then show "create_storage_key k = Inl STORAGE_ERR_KEY_TOO_LARGE" by (simp add: create_storage_key_def)
qed (rule create_storage_key_inject)

theorem storage_key_envelope_witness:
  "(\<exists>s. create_storage_key [97] = Inr s \<and> length s = 256) \<and> create_storage_key [97] \<noteq> create_storage_key [97, 0]"
proof -
  from storage_key_envelope [of "[97]"] obtain s where s: "create_storage_key [97] = Inr s" "length s = 256"
    by (auto simp: STORAGE_MAX_KEY_SIZE_def MAX_STORAGE_KEY_SIZE_def STORAGE_KEY_SIZE_def)
  with storage_key_envelope [of "[97]" s "[97, 0]"] show ?thesis by auto
qed

text \<open>C10. A fresh database storage whose database does not fail behaves as a map: any sequence of
  reads, batched reads and batches returns what a map returns, including the errors for oversized
  keys, values and batches, and the map it presents at the end is the one the batches build. The
  cache is invisible.\<close>

theorem qmdb_refines_map:
  assumes "qmdb_ok Q val" "qmdb_healthy Q" "rt \<noteq> CurrentThread"
    "qmdb_storage_new Q config db_init = Inr s"
  shows "fst (run_seq (storage_step Q ord rt) calls s) = fst (run_seq storage_spec calls (qs_contents val s)) \<and>
    qs_contents val (snd (run_seq (storage_step Q ord rt) calls s)) =
      snd (run_seq storage_spec calls (qs_contents val s))"
proof -
  have "data_refinement (storage_step Q ord rt) storage_spec (presents val) (\<lambda>_ _. True)"
    by (intro data_refinement.intro) (simp_all add: storage_step_sim [OF assms(1-3)])
  moreover have "presents val (qs_contents val s) s"
    using storage_inv_new [OF assms(4)] by (simp add: presents_def)
  moreover have "ops_ok storage_spec (\<lambda>_ _. True) calls m" for m by (induction calls arbitrary: m) simp_all
  ultimately show ?thesis using data_refinement.run_seq_sim by (fastforce simp: presents_def)
qed

theorem qmdb_refines_map_witness:
  "fst (run_seq (storage_step memory_qmdb id MultiThread)
      [CallGet [7], CallBatch [OperationSet [7] [1], OperationSet [8] [2]], CallGet [7], CallBatch [OperationRemove [7]],
       CallGetMany [[8], [7]], CallBatch [OperationSet [7] (replicate 5000 0)]] memory_storage) =
   [ReplyGet (Inr None), ReplyBatch (Inr ()), ReplyGet (Inr (Some [1])), ReplyBatch (Inr ()),
    ReplyMany (Inr [Some [2], None]), ReplyBatch (Inl STORAGE_ERR_VALUE_TOO_LARGE)]"
proof -
  let ?calls = "[CallGet [7], CallBatch [OperationSet [7] [1], OperationSet [8] [2]], CallGet [7],
    CallBatch [OperationRemove [7]], CallGetMany [[8], [7]], CallBatch [OperationSet [7] (replicate 5000 0)]]"
  have "fst (run_seq (storage_step memory_qmdb id MultiThread) ?calls memory_storage) =
      fst (run_seq storage_spec ?calls (qs_contents map_of memory_storage))"
    by (rule qmdb_refines_map [OF memory_qmdb_ok memory_qmdb_healthy _ memory_storage_new, THEN conjunct1]) simp
  also have "\<dots> = [ReplyGet (Inr None), ReplyBatch (Inr ()), ReplyGet (Inr (Some [1])), ReplyBatch (Inr ()),
      ReplyMany (Inr [Some [2], None]), ReplyBatch (Inl STORAGE_ERR_VALUE_TOO_LARGE)]"
    by (simp add: memory_contents map_storage_get_def STORAGE_MAX_KEY_SIZE_def MAX_STORAGE_KEY_SIZE_def
        MAX_BATCH_SIZE_def op_fits_def STORAGE_MAX_VALUE_SIZE_def prepare_batch_def to_error_code_def)
  finally show ?thesis .
qed

text \<open>C11. Concurrent reads and batches: once no batch is in progress, a read of a key that was never
  written between some read's fetch and its store returns the current value. In particular a batch
  never leaves an entry behind by itself.\<close>

theorem cache_current_unless_raced:
  assumes "qmdb_ok Q val" "qmdb_storage_new Q config db_init = Inr s"
    "(concurrent_step Q ord)\<^sup>*\<^sup>* (concurrent_start s) c" "cn_writer c = None" "k \<notin> cn_raced c"
    "fst (qmdb_get Q ord rt k (cn_storage c)) = Inr v"
  shows "v = qs_contents val (cn_storage c) k"
proof -
  note inv = concurrent_inv_reachable [OF assms(1,3) concurrent_inv_start [OF storage_inv_new [OF assms(2)]]]
  show ?thesis
  proof (cases "sharded_get k (qs_cache (cn_storage c))")
    case (Some u)
    with concurrent_invD(2) [OF inv Some] assms(4-6) show ?thesis
      by (auto simp: pending_def qmdb_get_def map_storage_get_Inr)
  next
    case None
    with assms(6) have "get_async_uncached Q (qs_db (cn_storage c)) k = Inr v"
      by (auto simp: qmdb_get_def split: if_splits sum.splits)
    from get_async_uncached_contents(1) [OF assms(1) this] show ?thesis by (simp add: map_storage_get_Inr)
  qed
qed

theorem cache_current_unless_raced_witness:
  "(concurrent_step memory_qmdb id)\<^sup>*\<^sup>* (concurrent_start memory_storage)
     (set_reader 1 (Missed [9]) (concurrent_start memory_storage)) \<and>
   qs_contents map_of memory_storage [7] = None"
proof -
  let ?c = "set_reader 1 (Missed [9]) (concurrent_start memory_storage)"
  have step: "concurrent_step memory_qmdb id (concurrent_start memory_storage) ?c"
    by (rule read_miss) (simp_all add: concurrent_start_def memory_storage_def sharded_with_defaults_def)
  then have run: "(concurrent_step memory_qmdb id)\<^sup>*\<^sup>* (concurrent_start memory_storage) ?c" by blast
  have "fst (qmdb_get memory_qmdb id MultiThread [7] (cn_storage ?c)) = Inr None"
    by (simp add: qmdb_get_def concurrent_simps concurrent_start_def memory_storage_def
        sharded_with_defaults_def get_async_uncached_def create_storage_key_eq decode_storage_value_def memory_qmdb_def)
  from cache_current_unless_raced [OF memory_qmdb_ok memory_storage_new run _ _ this]
  have "None = qs_contents map_of memory_storage [7]"
    by (simp add: set_reader_def concurrent_start_def)
  with run show ?thesis by auto
qed

text \<open>The exception is real: while a read of a key that is not cached is in progress, a batch may
  set the key, and the read then stores the value it had fetched before. With no call in progress
  any more, every later read returns the old value although the database holds the new one.\<close>

theorem cache_race_leaves_stale_value:
  assumes "qmdb_ok Q val" "qmdb_healthy Q" "qmdb_storage_new Q config db_init = Inr s"
    "length k \<le> STORAGE_MAX_KEY_SIZE" "length v \<le> STORAGE_MAX_VALUE_SIZE"
  shows "\<exists>c. (concurrent_step Q ord)\<^sup>*\<^sup>* (concurrent_start s) c \<and>
    cn_writer c = None \<and> cn_readers c = (\<lambda>_. Idle) \<and>
    qs_contents val (cn_storage c) k = Some v \<and>
    fst (qmdb_get Q ord rt k (cn_storage c)) = Inr (qs_contents val s k)"
proof -
  note inv = storage_inv_new [OF assms(3), of val]
  from assms(3) have "sharded_get k (qs_cache s) = None"
    by (auto simp: qmdb_storage_new_def bind_result_def sharded_with_defaults_def split: sum.splits)
  from stale_entry_reachable [OF assms(1,2) inv assms(4) this assms(5), of ord] obtain s' where s':
    "(concurrent_step Q ord)\<^sup>*\<^sup>* (concurrent_start s) (concurrent_start s'\<lparr>cn_raced := {k}\<rparr>)"
    "sharded_get k (qs_cache s') = Some (cached_of (qs_contents val s k))"
    "qs_contents val s' = (qs_contents val s)(k \<mapsto> v)" by blast
  then show ?thesis
    by (intro exI [of _ "concurrent_start s'\<lparr>cn_raced := {k}\<rparr>"]) (simp add: concurrent_start_def qmdb_get_def)
qed

theorem cache_race_leaves_stale_value_witness:
  "\<exists>c. (concurrent_step memory_qmdb id)\<^sup>*\<^sup>* (concurrent_start memory_storage) c \<and>
     qs_contents map_of (cn_storage c) [7] = Some [1] \<and>
     fst (qmdb_get memory_qmdb id MultiThread [7] (cn_storage c)) = Inr None"
proof -
  from cache_race_leaves_stale_value [OF memory_qmdb_ok memory_qmdb_healthy memory_storage_new,
    of "[7]" "[1]" id MultiThread]
  show ?thesis by (auto simp: memory_contents STORAGE_MAX_KEY_SIZE_def MAX_STORAGE_KEY_SIZE_def
      STORAGE_MAX_VALUE_SIZE_def)
qed

text \<open>The root that \<open>preview_batch_root\<close> shows for a batch is the hash committed after the batch
  is applied to the same storage, the empty batch included.\<close>

theorem preview_root_is_committed:
  assumes "qmdb_ok Q val" "preview_batch_root Q ops s = Inr h"
    "qmdb_apply_batch Q ops s = (Inr (), s')" "commit_state Q s' = Inr h'"
  shows "h' = h"
  by (rule preview_then_commit [OF assms])

theorem preview_root_is_committed_witness:
  "\<exists>s'. qmdb_apply_batch memory_qmdb [OperationSet [7] [1]] memory_storage = (Inr (), s') \<and>
     commit_state memory_qmdb s' = Inr (replicate 31 0 @ [1])"
proof -
  let ?ops = "[OperationSet [7] [1]]"
  obtain sk where sk: "create_storage_key [7] = Inr sk" by (simp add: create_storage_key_eq)
  have b: "prepare_batch ?ops = Inr \<lparr>updates = [(sk, Some [1])], keys_to_invalidate = [[7]],
      ops_count = 1, sets = 1, deletes = 0\<rparr>"
    by (simp add: prepare_batch_def MAX_BATCH_SIZE_def STORAGE_MAX_VALUE_SIZE_def sk)
  have p: "preview_batch_root memory_qmdb ?ops memory_storage = Inr (replicate 31 0 @ [1])"
    by (simp add: preview_batch_root_def b memory_qmdb_def map_qmdb_error_def root_to_commit_hash_def memory_storage_def)
  obtain s' where s': "qmdb_apply_batch memory_qmdb ?ops memory_storage = (Inr (), s')"
    by (simp add: qmdb_apply_batch_def b memory_qmdb_def)
  obtain h where h: "commit_state memory_qmdb s' = Inr h"
    by (simp add: commit_state_def memory_qmdb_def map_qmdb_error_def root_to_commit_hash_def)
  with preview_root_is_committed [OF memory_qmdb_ok p s' h] s' show ?thesis by simp
qed

text \<open>The keys that cache warming predicts for a token transfer are not among the keys the
  transfer reads: the balance of a holder lives under a prefixed key of 66 bytes.\<close>

theorem warming_misses_balances:
  assumes "host_ok H" "account_wf t" "account_wf holder" "account_wf s" "account_wf r"
    "make_key (tk_balances (token_new H C)) holder = Inr k"
  shows "storage_key t k \<notin> set (token_transfer_keys t s r)"
proof -
  from assms(1,3) have "serialize (h_account_id H) holder = Some holder" by (simp add: host_ok_def)
  with assms(6) have "k = 1 # holder" by (simp add: make_key_def token_new_def map_new_def encode_def to_vec_def)
  then have "length (storage_key t k) = 66" using assms(2,3) by (simp add: storage_key_def)
  moreover have "length (balance_key t a) = 72" "length (nonce_key a) = 37" if "account_wf a" for a
    using that assms(2) by (simp_all add: balance_key_def nonce_key_def str_bytes_def)
  ultimately show ?thesis using assms(4,5) by (auto simp: token_transfer_keys_def)
qed

theorem warming_misses_balances_witness:
  "storage_key (account_from_u64 70000) (1 # account_from_u64 5) \<notin>
     set (token_transfer_keys (account_from_u64 70000) (account_from_u64 5) (account_from_u64 6))"
proof -
  have "make_key (tk_balances (token_new reference_host C)) (account_from_u64 5) = Inr (1 # account_from_u64 5)" for C
    using reference_host_ok by (simp add: make_key_def token_new_def map_new_def encode_def to_vec_def host_ok_def)
  from warming_misses_balances [OF reference_host_ok _ _ _ _ this] show ?thesis by simp
qed

end
