(* ===== verification/Server_Block.thy ===== *)
theory Server_Block
  imports Stf
begin

text \<open>
  Blocks of the server (\<open>crates/app/server/src/block.rs\<close>) and its errors (\<open>error.rs\<close>): the
  Ethereum-style header, the builder, the view of a block as the state transition function sees it,
  and the archived snapshot. Hashes, addresses and blooms are byte strings; a transaction of type
  \<open>'t\<close> is seen through the function \<open>view\<close> to the transactions of the state transition function
  and encoded by \<open>enc\<close>.
\<close>

section \<open>Headers and blocks\<close>

record block_header =
  bh_parent_hash :: bytes
  bh_ommers_hash :: bytes
  bh_beneficiary :: bytes
  bh_state_root :: bytes
  bh_transactions_root :: bytes
  bh_receipts_root :: bytes
  bh_logs_bloom :: bytes
  bh_difficulty :: nat
  bh_number :: u64
  bh_gas_limit :: u64
  bh_gas_used :: u64
  bh_timestamp :: u64
  bh_extra_data :: bytes
  bh_mix_hash :: bytes
  bh_nonce :: bytes
  bh_base_fee_per_gas :: "u64 option"
  bh_withdrawals_root :: "bytes option"
  bh_blob_gas_used :: "u64 option"
  bh_excess_blob_gas :: "u64 option"
  bh_parent_beacon_block_root :: "bytes option"

definition B256_ZERO :: bytes where "B256_ZERO = replicate 32 0"

definition block_header_default :: block_header where
  "block_header_default =
     \<lparr>bh_parent_hash = B256_ZERO, bh_ommers_hash = B256_ZERO, bh_beneficiary = replicate 20 0,
      bh_state_root = B256_ZERO, bh_transactions_root = B256_ZERO, bh_receipts_root = B256_ZERO,
      bh_logs_bloom = replicate 256 0, bh_difficulty = 0, bh_number = 0, bh_gas_limit = 0,
      bh_gas_used = 0, bh_timestamp = 0, bh_extra_data = [], bh_mix_hash = B256_ZERO,
      bh_nonce = replicate 8 0, bh_base_fee_per_gas = None, bh_withdrawals_root = None,
      bh_blob_gas_used = None, bh_excess_blob_gas = None, bh_parent_beacon_block_root = None\<rparr>"

definition EMPTY_OMMERS_HASH :: bytes where
  "EMPTY_OMMERS_HASH =
     [0x1d, 0xcc, 0x4d, 0xe8, 0xde, 0xc7, 0x5d, 0x7a, 0xab, 0x85, 0xb5, 0x67, 0xb6, 0xcc,
      0xd4, 0x1a, 0xd3, 0x12, 0x45, 0x1b, 0x94, 0x8a, 0x74, 0x13, 0xf0, 0xa1, 0x42, 0xfd,
      0x40, 0xd4, 0x93, 0x47]"

definition block_header_new :: "u64 \<Rightarrow> u64 \<Rightarrow> bytes \<Rightarrow> block_header" where
  "block_header_new n ts parent =
     block_header_default\<lparr>bh_number := n, bh_timestamp := ts, bh_parent_hash := parent,
       bh_ommers_hash := EMPTY_OMMERS_HASH, bh_gas_limit := 30000000\<rparr>"

definition with_beneficiary :: "bytes \<Rightarrow> block_header \<Rightarrow> block_header" where
  "with_beneficiary a h = h\<lparr>bh_beneficiary := a\<rparr>"

definition with_gas_limit :: "u64 \<Rightarrow> block_header \<Rightarrow> block_header" where
  "with_gas_limit g h = h\<lparr>bh_gas_limit := g\<rparr>"

definition with_base_fee :: "u64 \<Rightarrow> block_header \<Rightarrow> block_header" where
  "with_base_fee f h = h\<lparr>bh_base_fee_per_gas := Some f\<rparr>"

record 't eth_block =
  eb_header :: block_header
  eb_transactions :: "'t list"

definition eth_block_new :: "block_header \<Rightarrow> 't list \<Rightarrow> 't eth_block" where
  "eth_block_new h txs = \<lparr>eb_header = h, eb_transactions = txs\<rparr>"

definition block_for_testing :: "u64 \<Rightarrow> 't list \<Rightarrow> 't eth_block" where
  "block_for_testing n txs = \<lparr>eb_header = block_header_new n 0 B256_ZERO, eb_transactions = txs\<rparr>"

text \<open>The block trait of the state transition function.\<close>

definition stf_block :: "('t \<Rightarrow> tx) \<Rightarrow> 't eth_block \<Rightarrow> blk" where
  "stf_block view b =
     \<lparr>blk_context = \<lparr>bc_height = bh_number (eb_header b), bc_time = bh_timestamp (eb_header b)\<rparr>,
      blk_txs = map view (eb_transactions b), blk_gas_limit = bh_gas_limit (eb_header b)\<rparr>"

section \<open>The builder\<close>

text \<open>The builder has the fields of a block; each setter replaces one and \<open>build\<close> returns them.\<close>

definition builder_new :: "'t eth_block" where
  "builder_new = \<lparr>eb_header = block_header_default, eb_transactions = []\<rparr>"

definition builder_number :: "u64 \<Rightarrow> 't eth_block \<Rightarrow> 't eth_block" where
  "builder_number n b = b\<lparr>eb_header := (eb_header b)\<lparr>bh_number := n\<rparr>\<rparr>"

definition builder_timestamp :: "u64 \<Rightarrow> 't eth_block \<Rightarrow> 't eth_block" where
  "builder_timestamp ts b = b\<lparr>eb_header := (eb_header b)\<lparr>bh_timestamp := ts\<rparr>\<rparr>"

definition builder_parent_hash :: "bytes \<Rightarrow> 't eth_block \<Rightarrow> 't eth_block" where
  "builder_parent_hash h b = b\<lparr>eb_header := (eb_header b)\<lparr>bh_parent_hash := h\<rparr>\<rparr>"

definition builder_gas_limit :: "u64 \<Rightarrow> 't eth_block \<Rightarrow> 't eth_block" where
  "builder_gas_limit g b = b\<lparr>eb_header := (eb_header b)\<lparr>bh_gas_limit := g\<rparr>\<rparr>"

definition builder_beneficiary :: "bytes \<Rightarrow> 't eth_block \<Rightarrow> 't eth_block" where
  "builder_beneficiary addr b = b\<lparr>eb_header := (eb_header b)\<lparr>bh_beneficiary := addr\<rparr>\<rparr>"

definition builder_base_fee :: "u64 \<Rightarrow> 't eth_block \<Rightarrow> 't eth_block" where
  "builder_base_fee fee b = b\<lparr>eb_header := (eb_header b)\<lparr>bh_base_fee_per_gas := Some fee\<rparr>\<rparr>"

definition builder_extra_data :: "bytes \<Rightarrow> 't eth_block \<Rightarrow> 't eth_block" where
  "builder_extra_data data b = b\<lparr>eb_header := (eb_header b)\<lparr>bh_extra_data := data\<rparr>\<rparr>"

definition builder_transaction :: "'t \<Rightarrow> 't eth_block \<Rightarrow> 't eth_block" where
  "builder_transaction t b = b\<lparr>eb_transactions := eb_transactions b @ [t]\<rparr>"

definition builder_transactions :: "'t list \<Rightarrow> 't eth_block \<Rightarrow> 't eth_block" where
  "builder_transactions ts b = b\<lparr>eb_transactions := eb_transactions b @ ts\<rparr>"

definition builder_build :: "'t eth_block \<Rightarrow> 't eth_block" where
  "builder_build b = b"

section \<open>Archived blocks\<close>

record archived_block =
  ab_number :: u64
  ab_timestamp :: u64
  ab_parent_hash :: bytes
  ab_state_root :: bytes
  ab_block_hash :: bytes
  ab_gas_limit :: u64
  ab_gas_used :: u64
  ab_transactions :: "bytes list"

definition to_archived ::
    "('t \<Rightarrow> error_code + bytes) \<Rightarrow> 't eth_block \<Rightarrow> bytes \<Rightarrow> bytes \<Rightarrow> u64 \<Rightarrow> error_code + archived_block" where
  "to_archived enc b hash root gas =
     bind_result (collect_result (map enc (eb_transactions b))) (\<lambda>txs.
     Inr \<lparr>ab_number = bh_number (eb_header b), ab_timestamp = bh_timestamp (eb_header b),
          ab_parent_hash = bh_parent_hash (eb_header b), ab_state_root = root, ab_block_hash = hash,
          ab_gas_limit = bh_gas_limit (eb_header b), ab_gas_used = gas, ab_transactions = txs\<rparr>)"

section \<open>Errors\<close>

text \<open>The messages as their constant part with the error code they format, where there is one.\<close>

datatype server_error =
  NoPendingBlock
| ServerConfig string
| ServerStorage string "error_code option"
| ServerGenesis string
| ServerRpc string
| ServerGrpc string
| ServerExecution string "error_code option"
| ServerShutdown string
| ServerIndexer string

end
