(* ===== verification/Dev_Consensus.thy ===== *)
theory Dev_Consensus
  imports Server_Block Mempool_Clean Storage_Types
begin

text \<open>
  The development consensus engine (\<open>crates/app/server/src/dev.rs\<close>) and the persistence of the chain
  state (\<open>persistence.rs\<close>). A block is built from given transactions or from the pool, executed by
  the state transition function, its changes written to the storage and committed, and the pool told
  which transactions were executed. The storage is an interface of three operations; the clock is
  an argument, \<open>keccak256\<close> a parameter. The archive callback is called with the encoded block: the
  calls are recorded in \<open>dv_archived\<close>. The chain index and the subscriptions are fed after the
  fact by a spawned task and influence nothing here.
\<close>

section \<open>Configuration and state\<close>

record dev_config =
  dc_block_interval :: "u64 option"
  dc_gas_limit :: u64
  dc_initial_height :: u64
  dc_chain_id :: u64

definition dev_config_default :: dev_config where
  "dev_config_default =
     \<lparr>dc_block_interval = Some 1000, dc_gas_limit = 30000000, dc_initial_height = 1, dc_chain_id = 1\<rparr>"

definition dev_config_manual :: dev_config where
  "dev_config_manual = dev_config_default\<lparr>dc_block_interval := None\<rparr>"

definition dev_config_with_interval :: "u64 \<Rightarrow> dev_config" where
  "dev_config_with_interval i = dev_config_default\<lparr>dc_block_interval := Some i\<rparr>"

record dev_state =
  ds_height :: u64
  ds_last_hash :: bytes
  ds_last_timestamp :: u64

definition dev_state_new :: "u64 \<Rightarrow> dev_state" where
  "dev_state_new initial_height = \<lparr>ds_height = initial_height, ds_last_hash = B256_ZERO, ds_last_timestamp = 0\<rparr>"

record produced_block =
  pb_height :: u64
  pb_hash :: bytes
  pb_tx_count :: nat
  pb_gas_used :: u64
  pb_successful_txs :: nat
  pb_failed_txs :: nat

text \<open>The storage trait: reading, batches and commits.\<close>

record 's storage_ops =
  so_get :: "'s \<Rightarrow> readonly_kv"
  so_batch :: "storage_operation list \<Rightarrow> 's \<Rightarrow> (error_code + unit) \<times> 's"
  so_commit :: "'s \<Rightarrow> error_code + commit_hash"

text \<open>What does not change while the engine runs.\<close>

record ('t, 's) dev_env =
  de_host :: host
  de_codes :: account_codes
  de_fuel :: nat
  de_stf :: stf
  de_view :: "'t \<Rightarrow> tx"
  de_encode :: "'t \<Rightarrow> error_code + bytes"
  de_archived_codec :: "archived_block borsh"
  de_keccak256 :: "bytes \<Rightarrow> bytes"
  de_storage_ops :: "'s storage_ops"
  de_config :: dev_config
  de_archive :: bool

record ('s, 'k) dev_consensus =
  dv_storage :: 's
  dv_state :: dev_state
  dv_mempool :: "'k mempool option"
  dv_archived :: "(u64 \<times> bytes \<times> bytes) list"

definition dev_consensus_new :: "('t, 's) dev_env \<Rightarrow> 's \<Rightarrow> ('s, 'k) dev_consensus" where
  "dev_consensus_new E s = \<lparr>dv_storage = s, dv_state = dev_state_new (dc_initial_height (de_config E)),
     dv_mempool = None, dv_archived = []\<rparr>"

definition dev_consensus_with_mempool :: "('t, 's) dev_env \<Rightarrow> 's \<Rightarrow> 'k mempool \<Rightarrow> ('s, 'k) dev_consensus" where
  "dev_consensus_with_mempool E s pool = \<lparr>dv_storage = s, dv_state = dev_state_new (dc_initial_height (de_config E)),
     dv_mempool = Some pool, dv_archived = []\<rparr>"

section \<open>Producing a block\<close>

definition compute_block_hash :: "(bytes \<Rightarrow> bytes) \<Rightarrow> u64 \<Rightarrow> u64 \<Rightarrow> bytes \<Rightarrow> bytes" where
  "compute_block_hash keccak256 height timestamp parent_hash =
     keccak256 (le_bytes 8 height @ le_bytes 8 timestamp @ parent_hash)"

fun change_to_operation :: "core_state_change \<Rightarrow> storage_operation" where
  "change_to_operation (CSet key value) = OperationSet key value"
| "change_to_operation (CRemove key) = OperationRemove key"

definition state_changes_to_operations :: "core_state_change list \<Rightarrow> storage_operation list" where
  "state_changes_to_operations changes = map change_to_operation changes"

definition build_block :: "dev_config \<Rightarrow> u64 \<Rightarrow> u64 \<Rightarrow> bytes \<Rightarrow> 't list \<Rightarrow> 't eth_block" where
  "build_block config height timestamp parent_hash transactions =
     builder_build (builder_transactions transactions (builder_gas_limit (dc_gas_limit config)
       (builder_parent_hash parent_hash (builder_timestamp timestamp (builder_number height builder_new)))))"

definition execute_block ::
    "('t, 's) dev_env \<Rightarrow> 's \<Rightarrow> 't eth_block \<Rightarrow> (error_code, block_result) outcome \<times> exec_state" where
  "execute_block E s b =
     apply_block_on (de_host E) (de_codes E) (de_fuel E) (de_stf E) (so_get (de_storage_ops E) s)
       (stf_block (de_view E) b)"

definition archive_block ::
    "('t, 's) dev_env \<Rightarrow> 't eth_block \<Rightarrow> bytes \<Rightarrow> bytes \<Rightarrow> u64 \<Rightarrow> u64 \<Rightarrow> ('s, 'k) dev_consensus \<Rightarrow> ('s, 'k) dev_consensus" where
  "archive_block E b hash root gas height dv =
     (if de_archive E then
        (case to_archived (de_encode E) b hash root gas of
           Inr archived \<Rightarrow>
             (case to_vec (de_archived_codec E) archived of
                Some encoded \<Rightarrow> dv\<lparr>dv_archived := dv_archived dv @ [(height, hash, encoded)]\<rparr>
              | None \<Rightarrow> dv)
         | Inl _ \<Rightarrow> dv)
      else dv)"

text \<open>The counts of a block: its gas is a plain sum, which wraps.\<close>

definition count_successful :: "tx_result list \<Rightarrow> nat" where
  "count_successful results = length (filter (\<lambda>r. case tr_response r of Inr _ \<Rightarrow> True | Inl _ \<Rightarrow> False) results)"

definition commit_block ::
    "('t, 's) dev_env \<Rightarrow> u64 \<Rightarrow> 't eth_block \<Rightarrow> block_result \<Rightarrow> core_state_change list \<Rightarrow>
       (('s, 'k) dev_consensus, server_error, produced_block) comp" where
  "commit_block E timestamp b result changes dv =
     (let height = bh_number (eb_header b);
          parent_hash = bh_parent_hash (eb_header b);
          block_hash = compute_block_hash (de_keccak256 E) height timestamp parent_hash;
          gas = sum_list (map tr_gas_used (tx_results result));
          executed_tx_count = length (tx_results result);
          successful = count_successful (tx_results result);
          failed = executed_tx_count - successful
      in case so_batch (de_storage_ops E) (state_changes_to_operations changes) (dv_storage dv) of
           (Inl e, s) \<Rightarrow> (Err (ServerStorage ''batch failed: '' (Some e)), dv\<lparr>dv_storage := s\<rparr>)
         | (Inr _, s) \<Rightarrow>
             (case so_commit (de_storage_ops E) s of
                Inl e \<Rightarrow> (Err (ServerStorage ''commit failed: '' (Some e)), dv\<lparr>dv_storage := s\<rparr>)
              | Inr state_root \<Rightarrow>
                  let dv = dv\<lparr>dv_storage := s,
                              dv_state := (dv_state dv)\<lparr>ds_last_hash := block_hash, ds_last_timestamp := timestamp\<rparr>\<rparr>;
                      dv = archive_block E b block_hash state_root gas height dv
                  in (Ok \<lparr>pb_height = height, pb_hash = block_hash, pb_tx_count = executed_tx_count,
                          pb_gas_used = gas, pb_successful_txs = successful, pb_failed_txs = failed\<rparr>, dv)))"

definition produce_block_with_txs ::
    "('t, 's) dev_env \<Rightarrow> u64 \<Rightarrow> 't list \<Rightarrow> (('s, 'k) dev_consensus, server_error, produced_block) comp" where
  "produce_block_with_txs E timestamp transactions dv =
     (let height = ds_height (dv_state dv);
          dv = dv\<lparr>dv_state := (dv_state dv)\<lparr>ds_height := height + 1\<rparr>\<rparr>;
          b = build_block (de_config E) height timestamp (ds_last_hash (dv_state dv)) transactions
      in case execute_block E (dv_storage dv) b of
           (Ok result, exec) \<Rightarrow>
             (case into_changes exec of
                Inl e \<Rightarrow> (Err (ServerExecution ''failed to get state changes: '' (Some e)), dv)
              | Inr changes \<Rightarrow> commit_block E timestamp b result changes dv)
         | (OutOfFuel, _) \<Rightarrow> (OutOfFuel, dv)
         | (_, _) \<Rightarrow> (Panic, dv))"

definition produce_block ::
    "('t, 's) dev_env \<Rightarrow> u64 \<Rightarrow> (('s, 'k) dev_consensus, server_error, produced_block) comp" where
  "produce_block E timestamp = produce_block_with_txs E timestamp []"

definition produce_block_from_mempool ::
    "('k::linorder mempool_tx, 's) dev_env \<Rightarrow> u64 \<Rightarrow> nat \<Rightarrow> (('s, 'k) dev_consensus, server_error, produced_block) comp" where
  "produce_block_from_mempool E timestamp max_txs dv =
     (case dv_mempool dv of
        None \<Rightarrow> (Err (ServerExecution ''no mempool configured'' None), dv)
      | Some pool \<Rightarrow>
          if max_txs = 0 then produce_block_with_txs E timestamp [] dv
          else
            let ((selected, _), pool) = propose (dc_gas_limit (de_config E)) max_txs pool;
                tx_hashes = map mt_id selected;
                finalized = (\<lambda>executed dv. if tx_hashes = [] then dv
                   else dv\<lparr>dv_mempool := map_option (finalize executed) (dv_mempool dv)\<rparr>)
            in case produce_block_with_txs E timestamp selected (dv\<lparr>dv_mempool := Some pool\<rparr>) of
                 (Ok result, dv) \<Rightarrow> (Ok result, finalized (take (pb_tx_count result) tx_hashes) dv)
               | (Err err, dv) \<Rightarrow> (Err err, finalized [] dv)
               | (Panic, dv) \<Rightarrow> (Panic, dv)
               | (OutOfFuel, dv) \<Rightarrow> (OutOfFuel, dv))"

text \<open>One tick of the background loop.\<close>

definition production_tick ::
    "('k::linorder mempool_tx, 's) dev_env \<Rightarrow> nat \<Rightarrow> u64 \<Rightarrow> (('s, 'k) dev_consensus, server_error, produced_block) comp" where
  "production_tick E max_txs_per_block timestamp dv =
     (if dv_mempool dv \<noteq> None then produce_block_from_mempool E timestamp max_txs_per_block dv
      else produce_block E timestamp dv)"

text \<open>
  The background loops, over the times of the ticks until the shutdown signal. An error is logged and
  the loop goes on; without an interval they return at once.
\<close>

primrec production_loop ::
    "(u64 \<Rightarrow> (('s, 'k) dev_consensus, server_error, produced_block) comp) \<Rightarrow> u64 list \<Rightarrow>
       (('s, 'k) dev_consensus, server_error, unit) comp" where
  "production_loop tick [] dv = (Ok (), dv)"
| "production_loop tick (timestamp # ts) dv =
     (case tick timestamp dv of
        (Ok _, dv) \<Rightarrow> production_loop tick ts dv
      | (Err _, dv) \<Rightarrow> production_loop tick ts dv
      | (Panic, dv) \<Rightarrow> (Panic, dv)
      | (OutOfFuel, dv) \<Rightarrow> (OutOfFuel, dv))"

definition run_block_production ::
    "('t, 's) dev_env \<Rightarrow> u64 list \<Rightarrow> (('s, 'k) dev_consensus, server_error, unit) comp" where
  "run_block_production E ts dv =
     (case dc_block_interval (de_config E) of None \<Rightarrow> (Ok (), dv) | Some _ \<Rightarrow> production_loop (produce_block E) ts dv)"

definition run_block_production_with_mempool ::
    "('k::linorder mempool_tx, 's) dev_env \<Rightarrow> nat \<Rightarrow> u64 list \<Rightarrow> (('s, 'k) dev_consensus, server_error, unit) comp" where
  "run_block_production_with_mempool E max_txs_per_block ts dv =
     (case dc_block_interval (de_config E) of
        None \<Rightarrow> (Ok (), dv)
      | Some _ \<Rightarrow> production_loop (production_tick E max_txs_per_block) ts dv)"

section \<open>The persisted chain state\<close>

definition CHAIN_STATE_KEY :: bytes where "CHAIN_STATE_KEY = str_bytes ''__evolve_chain_state__''"

record 'g chain_state =
  ch_height :: u64
  ch_genesis_result :: 'g

definition load_chain_state :: "'g chain_state borsh \<Rightarrow> readonly_kv \<Rightarrow> 'g chain_state option" where
  "load_chain_state B S =
     (case S CHAIN_STATE_KEY of
        Inr (Some bs) \<Rightarrow> from_slice B bs
      | _ \<Rightarrow> None)"

definition save_chain_state ::
    "'g chain_state borsh \<Rightarrow> 's storage_ops \<Rightarrow> 'g chain_state \<Rightarrow> 's \<Rightarrow> (server_error + unit) \<times> 's" where
  "save_chain_state B SO state s =
     (case to_vec B state of
        None \<Rightarrow> (Inl (ServerStorage ''serialize: '' None), s)
      | Some value \<Rightarrow>
          (case so_batch SO [OperationSet CHAIN_STATE_KEY value] s of
             (Inl e, s) \<Rightarrow> (Inl (ServerStorage ''batch: '' (Some e)), s)
           | (Inr _, s) \<Rightarrow>
               (case so_commit SO s of
                  Inl e \<Rightarrow> (Inl (ServerStorage ''commit: '' (Some e)), s)
                | Inr _ \<Rightarrow> (Inr (), s))))"

end
