(* ===== verification/Dev_Props.thy ===== *)
theory Dev_Props
  imports Dev_Consensus Stf_Props
begin

text \<open>
  Block production end to end: the transactions a block executes are a prefix of the proposal, so
  the pool is told of exactly the executed ones; a failed production returns every transaction to
  the pool; and the pool drains.
\<close>

section \<open>Gas budgets\<close>

lemma foldl_saturating_mono: "a \<le> b \<Longrightarrow> foldl saturating_add a xs \<le> foldl saturating_add (b :: 'a::len word) xs"
  by (induction xs arbitrary: a b) (simp_all add: saturating_add_mono)

lemma foldl_saturating_ge: "a \<le> foldl saturating_add (a :: 'a::len word) xs"
proof (induction xs arbitrary: a)
  case (Cons x xs)
  from saturating_add_ge [of a x] Cons.IH [of "saturating_add a x"] show ?case by simp
qed simp

section \<open>Transactions one after the other\<close>

fun exec_all ::
    "host \<Rightarrow> account_codes \<Rightarrow> nat \<Rightarrow> stf \<Rightarrow> block_context \<Rightarrow> tx list \<Rightarrow> (exec_state, error_code, tx_result list) comp" where
  "exec_all H A n S b [] s = (Ok [], s)"
| "exec_all H A n S b (tx # txs) s =
     andThen (apply_tx H A n S tx (stf_gas_config S) b) (\<lambda>r.
     andThen (exec_all H A n S b txs) (\<lambda>rs. ret (r # rs))) s"

text \<open>When the limits of the transactions fit the block's gas, none is skipped: the block executes a
  prefix of them.\<close>

lemma apply_txs_prefix:
  "apply_txs H A n S b lim N txs (rs, g, k) s = (Ok (rs', g', k'), s') \<Longrightarrow>
   foldl saturating_add g (map tx_gas_limit txs) \<le> lim \<Longrightarrow>
   \<exists>new. rs' = rs @ new \<and> length new \<le> length txs \<and> (txs \<noteq> [] \<longrightarrow> new \<noteq> []) \<and>
     exec_all H A n S b (take (length new) txs) s = (Ok new, s')"
proof (induction txs arbitrary: rs g k s)
  case (Cons tx txs)
  have fits: "saturating_add g (tx_gas_limit tx) \<le> lim"
    using Cons.prems(2) foldl_saturating_ge [of "saturating_add g (tx_gas_limit tx)" "map tx_gas_limit txs"] by simp
  from Cons.prems(1) show ?case
  proof (cases rule: apply_txs_ConsE)
    case skip
    with fits show ?thesis by simp
  next
    case (stop r)
    then show ?thesis by (intro exI [of _ "[r]"]) (simp add: andThen_def ret_def)
  next
    case (more r s1)
    have "saturating_add g (tr_gas_used r) \<le> saturating_add g (tx_gas_limit tx)"
      by (rule saturating_add_mono [OF order_refl apply_tx_gas_bound [OF more(2)]])
    from foldl_saturating_mono [OF this, of "map tx_gas_limit txs"] Cons.prems(2)
    have "foldl saturating_add (saturating_add g (tr_gas_used r)) (map tx_gas_limit txs) \<le> lim" by simp
    from Cons.IH [OF more(4) this] obtain new where "rs' = (rs @ [r]) @ new" "length new \<le> length txs"
      "exec_all H A n S b (take (length new) txs) s1 = (Ok new, s')" by blast
    with more(2) show ?thesis by (intro exI [of _ "r # new"]) (simp add: andThen_def ret_def)
  qed
qed simp

section \<open>Producing a block\<close>

lemma commit_block_Ok:
  assumes "commit_block E ts b result changes dv = (Ok r, dv')"
  shows "pb_tx_count r = length (tx_results result) \<and> pb_height r = bh_number (eb_header b) \<and>
    pb_hash r = compute_block_hash (de_keccak256 E) (bh_number (eb_header b)) ts (bh_parent_hash (eb_header b)) \<and>
    dv_mempool dv' = dv_mempool dv \<and>
    dv_state dv' = (dv_state dv)\<lparr>ds_last_hash := pb_hash r, ds_last_timestamp := ts\<rparr> \<and>
    (\<exists>u. so_batch (de_storage_ops E) (state_changes_to_operations changes) (dv_storage dv) = (Inr u, dv_storage dv'))"
  using assms unfolding commit_block_def archive_block_def Let_def
  by (auto split: prod.splits sum.splits option.splits if_splits)

lemma commit_block_Err:
  assumes "commit_block E ts b result changes dv = (Err e, dv')"
  shows "dv_mempool dv' = dv_mempool dv \<and> dv_state dv' = dv_state dv \<and>
    dv_storage dv' = snd (so_batch (de_storage_ops E) (state_changes_to_operations changes) (dv_storage dv))"
  using assms unfolding commit_block_def Let_def by (auto split: prod.splits sum.splits)

lemma build_block_header [simp]:
  "eb_transactions (build_block cfg h ts p txs) = txs"
  "bh_number (eb_header (build_block cfg h ts p txs)) = h"
  "bh_parent_hash (eb_header (build_block cfg h ts p txs)) = p"
  "bh_gas_limit (eb_header (build_block cfg h ts p txs)) = dc_gas_limit cfg"
  "bh_timestamp (eb_header (build_block cfg h ts p txs)) = ts"
  by (simp_all add: build_block_def builder_build_def builder_transactions_def builder_gas_limit_def
      builder_parent_hash_def builder_timestamp_def builder_number_def builder_new_def)

text \<open>A successful production: the block executed, what it wrote and what it left.\<close>

lemma produce_block_with_txs_Ok:
  assumes "produce_block_with_txs E ts txs dv = (Ok r, dv')"
  obtains result exec changes u where
    "execute_block E (dv_storage dv) (build_block (de_config E) (ds_height (dv_state dv)) ts (ds_last_hash (dv_state dv)) txs)
       = (Ok result, exec)" "into_changes exec = Inr changes"
    "pb_tx_count r = length (tx_results result)" "pb_height r = ds_height (dv_state dv)"
    "pb_hash r = compute_block_hash (de_keccak256 E) (pb_height r) ts (ds_last_hash (dv_state dv))"
    "dv_mempool dv' = dv_mempool dv"
    "dv_state dv' = \<lparr>ds_height = ds_height (dv_state dv) + 1, ds_last_hash = pb_hash r, ds_last_timestamp = ts\<rparr>"
    "so_batch (de_storage_ops E) (state_changes_to_operations changes) (dv_storage dv) = (Inr u, dv_storage dv')"
  using assms unfolding produce_block_with_txs_def Let_def
  by (auto split: prod.splits outcome.splits sum.splits dest!: commit_block_Ok)

lemma produce_block_with_txs_Err:
  assumes "produce_block_with_txs E ts txs dv = (Err e, dv')"
  shows "dv_mempool dv' = dv_mempool dv \<and> dv_state dv' = (dv_state dv)\<lparr>ds_height := ds_height (dv_state dv) + 1\<rparr> \<and>
    (\<exists>exec changes result.
      execute_block E (dv_storage dv) (build_block (de_config E) (ds_height (dv_state dv)) ts (ds_last_hash (dv_state dv)) txs)
       = (Ok result, exec) \<and> into_changes exec = Inr changes \<and>
      dv_storage dv' = snd (so_batch (de_storage_ops E) (state_changes_to_operations changes) (dv_storage dv)))"
  using assms unfolding produce_block_with_txs_def Let_def
  by (auto simp: into_changes_eq split: prod.splits outcome.splits dest!: commit_block_Err)

section \<open>Producing from the pool\<close>

text \<open>Both traits of a pending transaction speak of the same gas limit.\<close>

definition gas_agrees :: "('k mempool_tx \<Rightarrow> tx) \<Rightarrow> 'k mempool \<Rightarrow> bool" where
  "gas_agrees view p \<longleftrightarrow> (\<forall>h tx. mempool_get h p = Some tx \<longrightarrow> tx_gas_limit (view tx) = mt_gas_limit tx)"

lemma produce_from_mempool_Ok:
  assumes run: "produce_block_from_mempool E ts max_txs dv = (Ok r, dv')"
    and pool: "dv_mempool dv = Some pool" and "max_txs \<noteq> 0"
    and pr: "propose (dc_gas_limit (de_config E)) max_txs pool = ((sel, gas), pool1)"
  shows "\<exists>dv1. produce_block_with_txs E ts sel (dv\<lparr>dv_mempool := Some pool1\<rparr>) = (Ok r, dv1) \<and>
    dv' = dv1\<lparr>dv_mempool := Some (if sel = [] then pool1 else finalize (take (pb_tx_count r) (map mt_id sel)) pool1)\<rparr>"
proof -
  obtain o1 dv1 where p: "produce_block_with_txs E ts sel (dv\<lparr>dv_mempool := Some pool1\<rparr>) = (o1, dv1)" by fastforce
  with assms obtain r' where o1: "o1 = Ok r'"
    by (cases o1) (auto simp: produce_block_from_mempool_def Let_def)
  with p have "dv_mempool dv1 = Some pool1" by (auto elim: produce_block_with_txs_Ok)
  with assms p o1 show ?thesis
    by (cases "sel = []") (auto simp: produce_block_from_mempool_def Let_def)
qed

lemma produce_from_mempool_Err:
  assumes run: "produce_block_from_mempool E ts max_txs dv = (Err e, dv')"
    and pool: "dv_mempool dv = Some pool" and "max_txs \<noteq> 0"
    and pr: "propose (dc_gas_limit (de_config E)) max_txs pool = ((sel, gas), pool1)"
  shows "\<exists>dv1. produce_block_with_txs E ts sel (dv\<lparr>dv_mempool := Some pool1\<rparr>) = (Err e, dv1) \<and>
    dv' = dv1\<lparr>dv_mempool := Some (if sel = [] then pool1 else finalize [] pool1)\<rparr>"
proof -
  obtain o1 dv1 where p: "produce_block_with_txs E ts sel (dv\<lparr>dv_mempool := Some pool1\<rparr>) = (o1, dv1)" by fastforce
  with assms obtain e' where o1: "o1 = Err e'"
    by (cases o1) (auto simp: produce_block_from_mempool_def Let_def)
  with p have "dv_mempool dv1 = Some pool1" by (auto dest: produce_block_with_txs_Err)
  with assms p o1 show ?thesis
    by (cases "sel = []") (auto simp: produce_block_from_mempool_def Let_def)
qed

lemma propose_get: "propose g m p = ((sel, gas), p') \<Longrightarrow> mempool_get h p' = mempool_get h p"
  by (erule propose_shape) (simp add: mempool_get_def)

lemma propose_in_flight:
  assumes "propose g m p = (([], gas), p')" shows "in_flight p' = in_flight p"
  using assms by (auto elim: propose_shape)

text \<open>The proposal fits the gas of the block it is made for.\<close>

lemma proposal_fits:
  assumes reach: "pool_reach pool" and agree: "gas_agrees view pool" and "lim \<noteq> 0"
    and pr: "propose lim m pool = ((sel, gas), pool1)"
  shows "foldl saturating_add 0 (map tx_gas_limit (map view sel)) \<le> lim"
proof -
  note greedy = propose_greedy [OF reach pr]
  from greedy have "\<forall>tx\<in>set sel. mempool_get (mt_id tx) pool = Some tx" by blast
  with agree have eq: "map tx_gas_limit (map view sel) = map mt_gas_limit sel"
    by (auto simp: gas_agrees_def)
  from greedy \<open>lim \<noteq> 0\<close> show ?thesis unfolding eq by blast
qed

lemma execute_block_prefix:
  assumes "execute_block E s (build_block cfg h ts p txs) = (Ok result, exec)"
    and "foldl saturating_add 0 (map tx_gas_limit (map (de_view E) txs)) \<le> dc_gas_limit cfg"
  shows "\<exists>evs s1 s2. do_begin_block (de_host E) (de_codes E) (de_fuel E) (de_stf E)
        (stf_block (de_view E) (build_block cfg h ts p txs)) (exec_state_new (so_get (de_storage_ops E) s)) = (Ok evs, s1) \<and>
      exec_all (de_host E) (de_codes E) (de_fuel E) (de_stf E) \<lparr>bc_height = h, bc_time = ts\<rparr>
        (map (de_view E) (take (length (tx_results result)) txs)) s1 = (Ok (tx_results result), s2)"
    and "length (tx_results result) \<le> length txs" and "txs \<noteq> [] \<Longrightarrow> tx_results result \<noteq> []"
proof -
  let ?b = "stf_block (de_view E) (build_block cfg h ts p txs)"
  have b: "blk_txs ?b = map (de_view E) txs" "blk_gas_limit ?b = dc_gas_limit cfg"
    "blk_context ?b = \<lparr>bc_height = h, bc_time = ts\<rparr>" by (simp_all add: stf_block_def)
  from assms(1) obtain evs s1 s2 where beg: "do_begin_block (de_host E) (de_codes E) (de_fuel E) (de_stf E) ?b
      (exec_state_new (so_get (de_storage_ops E) s)) = (Ok evs, s1)"
    and txs: "apply_txs (de_host E) (de_codes E) (de_fuel E) (de_stf E) (blk_context ?b) (blk_gas_limit ?b)
      (length (blk_txs ?b)) (blk_txs ?b) ([], 0, 0) s1 = (Ok (tx_results result, br_gas_used result, txs_skipped result), s2)"
    unfolding execute_block_def apply_block_on_def by (rule apply_block_cases)
  have "foldl saturating_add 0 (map tx_gas_limit (blk_txs ?b)) \<le> blk_gas_limit ?b"
    using assms(2) by (simp add: b)
  from apply_txs_prefix [OF txs this] have len: "length (tx_results result) \<le> length (blk_txs ?b)"
    and ne: "blk_txs ?b \<noteq> [] \<Longrightarrow> tx_results result \<noteq> []"
    and exec: "exec_all (de_host E) (de_codes E) (de_fuel E) (de_stf E) (blk_context ?b)
      (take (length (tx_results result)) (blk_txs ?b)) s1 = (Ok (tx_results result), s2)" by auto
  from beg exec show "\<exists>evs s1 s2. do_begin_block (de_host E) (de_codes E) (de_fuel E) (de_stf E) ?b
        (exec_state_new (so_get (de_storage_ops E) s)) = (Ok evs, s1) \<and>
      exec_all (de_host E) (de_codes E) (de_fuel E) (de_stf E) \<lparr>bc_height = h, bc_time = ts\<rparr>
        (map (de_view E) (take (length (tx_results result)) txs)) s1 = (Ok (tx_results result), s2)"
    unfolding b by (auto simp: take_map)
  from len show "length (tx_results result) \<le> length txs" by (simp add: b)
  from ne show "txs \<noteq> [] \<Longrightarrow> tx_results result \<noteq> []" by (simp add: b)
qed

section \<open>The pool drains\<close>

lemma mempool_len_card: "pool_wf p \<Longrightarrow> mempool_len p = card {h. mempool_get h p \<noteq> None}"
proof -
  assume "pool_wf p"
  then have "distinct (map fst (by_hash p))" by (simp add: pool_wf_def)
  then have "card (fst ` set (by_hash p)) = length (by_hash p)"
    by (metis distinct_card length_map list.set_map)
  moreover have "{h. mempool_get h p \<noteq> None} = fst ` set (by_hash p)"
    by (auto simp: mempool_get_def hm_get_None_iff)
  ultimately show ?thesis by (simp add: mempool_len_def)
qed

lemma mempool_len_less:
  assumes "pool_wf p" "pool_wf p'" "\<And>h. mempool_get h p' \<noteq> None \<Longrightarrow> mempool_get h p \<noteq> None"
    and "mempool_get h0 p \<noteq> None" "mempool_get h0 p' = None"
  shows "mempool_len p' < mempool_len p"
proof -
  have "{h. mempool_get h p' \<noteq> None} \<subset> {h. mempool_get h p \<noteq> None}" using assms(3-5) by blast
  moreover have "finite {h. mempool_get h p \<noteq> None}"
    by (rule finite_subset [OF _ finite_imageI [OF finite_set, of fst "by_hash p"]])
      (auto simp: mempool_get_def hm_get_None_iff)
  ultimately show ?thesis
    using assms(1,2) by (simp add: mempool_len_card psubset_card_mono)
qed

text \<open>Something is proposed as long as something fits a block on its own.\<close>

lemma proposal_nonempty:
  assumes reach: "pool_reach p" and pr: "propose lim m p = ((sel, gas), p')" and "m \<noteq> 0" "in_flight p = []"
    and tx: "mempool_get h p = Some tx" "mt_gas_limit tx \<le> lim"
  shows "sel \<noteq> []"
proof
  assume "sel = []"
  note greedy = propose_greedy [OF reach pr]
  from clean_reach [OF reach] tx(1) have "mt_id tx = h" by (auto simp: pool_clean_def pool_wf_def mempool_get_def)
  with greedy tx(1) assms(4) \<open>sel = []\<close> have "m \<noteq> 0 \<and> length sel = m \<or> lim \<noteq> 0 \<and> lim < saturating_add gas (mt_gas_limit tx)"
    by auto
  moreover from greedy \<open>sel = []\<close> have "gas = 0" by simp
  ultimately show False using \<open>sel = []\<close> \<open>m \<noteq> 0\<close> tx(2) by auto
qed

lemma nonempty_get:
  assumes "\<not> mempool_is_empty pool"
  obtains h tx where "mempool_get h pool = Some tx"
proof (cases "by_hash pool")
  case Nil
  with assms show ?thesis by (simp add: mempool_is_empty_def)
next
  case (Cons e l)
  then have "mempool_get (fst e) pool = Some (snd e)" by (cases e) (simp add: mempool_get_def)
  then show ?thesis by (rule that)
qed

lemma tick_shrinks:
  assumes run: "produce_block_from_mempool E ts max_txs dv = (Ok r, dv')" and pool: "dv_mempool dv = Some pool"
    and reach: "pool_reach pool" "in_flight pool = []" "gas_agrees (de_view E) pool"
    and lim: "max_txs \<noteq> 0" "dc_gas_limit (de_config E) \<noteq> 0"
    and small: "\<forall>h tx. mempool_get h pool = Some tx \<longrightarrow> mt_gas_limit tx \<le> dc_gas_limit (de_config E)"
  shows "\<exists>pool'. dv_mempool dv' = Some pool' \<and> pool_reach pool' \<and> in_flight pool' = [] \<and>
    (\<forall>h tx. mempool_get h pool' = Some tx \<longrightarrow> mempool_get h pool = Some tx) \<and>
    (mempool_is_empty pool \<or> mempool_len pool' < mempool_len pool)"
proof -
  obtain sel gas pool1 where pr: "propose (dc_gas_limit (de_config E)) max_txs pool = ((sel, gas), pool1)"
    by (metis prod.collapse)
  define pool' where "pool' = (if sel = [] then pool1 else finalize (take (pb_tx_count r) (map mt_id sel)) pool1)"
  from produce_from_mempool_Ok [OF run pool lim(1) pr] obtain dv1 where
    blk: "produce_block_with_txs E ts sel (dv\<lparr>dv_mempool := Some pool1\<rparr>) = (Ok r, dv1)"
    and dv': "dv_mempool dv' = Some pool'" by (auto simp: pool'_def)
  from reach_propose [OF reach(1), of "dc_gas_limit (de_config E)" max_txs] pr
  have r1: "pool_reach pool1" by simp
  then have r': "pool_reach pool'" by (simp add: pool'_def reach_finalize)
  have get': "mempool_get h pool' = Some tx \<Longrightarrow> mempool_get h pool = Some tx" for h tx
    using propose_get [OF pr, of h] by (auto simp: pool'_def finalize_get split: if_splits)
  have fl: "in_flight pool' = []"
    using propose_in_flight [of "dc_gas_limit (de_config E)" max_txs pool gas pool1] pr reach(2)
    by (auto simp: pool'_def finalize_get)
  have "mempool_len pool' < mempool_len pool" if ne: "\<not> mempool_is_empty pool"
  proof -
    from ne obtain h tx where "mempool_get h pool = Some tx" by (rule nonempty_get)
    with small proposal_nonempty [OF reach(1) pr lim(1) reach(2)] have sel: "sel \<noteq> []" by blast
    from blk obtain result exec where
      ex: "execute_block E (dv_storage dv) (build_block (de_config E) (pb_height r) ts (ds_last_hash (dv_state dv)) sel) = (Ok result, exec)"
      and cnt: "pb_tx_count r = length (tx_results result)" by (rule produce_block_with_txs_Ok) auto
    from execute_block_prefix(3) [OF ex proposal_fits [OF reach(1,3) lim(2) pr] sel] cnt have "0 < pb_tx_count r" by simp
    with sel have "mt_id (hd sel) \<in> set (take (pb_tx_count r) (map mt_id sel))" by (cases sel; cases "pb_tx_count r") auto
    with sel have none: "mempool_get (mt_id (hd sel)) pool' = None" by (simp add: pool'_def finalize_get)
    have "mempool_get (mt_id (hd sel)) pool \<noteq> None"
      using propose_greedy [OF reach(1) pr] sel by (metis list.set_sel(1) option.distinct(1))
    with mempool_len_less [of pool pool' "mt_id (hd sel)"] get' none clean_reach [OF reach(1)] clean_reach [OF r']
    show ?thesis by (auto simp: pool_clean_def)
  qed
  with dv' r' fl get' show ?thesis by blast
qed

text \<open>Ticks that all succeed.\<close>

lemma production_loop_drain:
  assumes "\<And>t dv. \<exists>r dv'. production_tick E m t dv = (Ok r, dv')" "dv_mempool dv = Some pool" "mempool_len pool \<le> length ts"
    "pool_reach pool" "in_flight pool = []" "gas_agrees (de_view E) pool" "m \<noteq> 0" "dc_gas_limit (de_config E) \<noteq> 0"
    "\<forall>h tx. mempool_get h pool = Some tx \<longrightarrow> mt_gas_limit tx \<le> dc_gas_limit (de_config E)"
  shows "\<exists>dv' pool'. production_loop (production_tick E m) ts dv = (Ok (), dv') \<and> dv_mempool dv' = Some pool' \<and>
    mempool_is_empty pool'"
  using assms(2-)
proof (induction ts arbitrary: dv pool)
  case Nil
  then show ?case by (simp add: mempool_len_def mempool_is_empty_def)
next
  case (Cons t ts)
  from assms(1) [of t dv] obtain r dv1 where "production_tick E m t dv = (Ok r, dv1)" by blast
  with Cons.prems(1) have tick: "produce_block_from_mempool E t m dv = (Ok r, dv1)"
    and loop: "production_loop (production_tick E m) (t # ts) dv = production_loop (production_tick E m) ts dv1"
    by (simp_all add: production_tick_def)
  from tick_shrinks [OF tick Cons.prems(1,3-8)] obtain pool1 where pool1: "dv_mempool dv1 = Some pool1"
    "pool_reach pool1" "in_flight pool1 = []"
    "\<forall>h tx. mempool_get h pool1 = Some tx \<longrightarrow> mempool_get h pool = Some tx"
    and less: "mempool_is_empty pool \<or> mempool_len pool1 < mempool_len pool" by blast
  have "mempool_len pool1 \<le> length ts"
  proof (cases "mempool_is_empty pool")
    case True
    then have "mempool_get h pool = None" for h by (simp add: mempool_is_empty_def mempool_get_def)
    with pool1(4) have "mempool_get h pool1 = None" for h by (metis option.exhaust)
    then have "by_hash pool1 = []"
      by (cases "by_hash pool1") (force simp: mempool_get_def split: if_splits)+
    then show ?thesis by (simp add: mempool_len_def)
  next
    case False
    with less Cons.prems(2) show ?thesis by simp
  qed
  moreover have "gas_agrees (de_view E) pool1" using Cons.prems(5) pool1(4) by (auto simp: gas_agrees_def)
  ultimately show ?case using Cons.IH [OF pool1(1)] pool1 Cons.prems(6-8) unfolding loop by blast
qed

end
