(* ===== verification/Storage_Backend.thy ===== *)
theory Storage_Backend
  imports Dev_Props Qmdb_Props
begin

text \<open>
  What block production relies on of a storage, and the storages that provide it. The interface is the
  locale \<open>storage_backend\<close>: a storage stands for a map, reads answer from it for the keys that fit, a
  batch that succeeds makes its writes in order and one that fails makes none. The in-memory storage
  and the database storage both implement it.
\<close>

section \<open>The interface\<close>

locale storage_backend =
  fixes SO :: "'s storage_ops"
    and inv :: "'s \<Rightarrow> bool"
    and holds :: "'s \<Rightarrow> bytes \<rightharpoonup> bytes"
    and fits :: "bytes \<Rightarrow> bool"
  assumes get_fits: "\<And>s k. inv s \<Longrightarrow> fits k \<Longrightarrow> so_get SO s k = Inr (holds s k)"
    and get_unfit: "\<And>s k. inv s \<Longrightarrow> \<not> fits k \<Longrightarrow> \<exists>e. so_get SO s k = Inl e"
    and batch_done: "\<And>s s' ops u. inv s \<Longrightarrow> so_batch SO ops s = (Inr u, s') \<Longrightarrow>
      inv s' \<and> holds s' = fold op_apply ops (holds s)"
    and batch_failed: "\<And>s s' ops e. inv s \<Longrightarrow> so_batch SO ops s = (Inl e, s') \<Longrightarrow> inv s' \<and> holds s' = holds s"
begin

lemma get_holds: "inv s \<Longrightarrow> so_get SO s k = Inr v \<Longrightarrow> v = holds s k"
  using get_fits [of s k] get_unfit [of s k] by (cases "fits k") auto

text \<open>Writing the changes of an execution makes its reads the storage's contents.\<close>

lemma changes_written:
  assumes inv: "inv s" and wf: "hm_wf (overlay exec)" and base: "base_storage exec = so_get SO s"
    and cs: "into_changes exec = Inr changes"
    and run: "so_batch SO (state_changes_to_operations changes) s = (Inr u, s')"
    and rd: "logical_get exec k = Inr v"
  shows "v = map_option message_from_bytes (holds s' k)"
proof -
  have eq: "op_apply (change_to_operation c) m = apply_change c m" for c m
    by (cases c) (simp_all add: fun_eq_iff)
  have "fold op_apply (state_changes_to_operations changes) m = fold apply_change changes m" for m
    unfolding state_changes_to_operations_def by (induction changes arbitrary: m) (simp_all add: eq)
  with batch_done [OF inv run] have h: "holds s' = fold apply_change changes (holds s)" by simp
  let ?x = "exec\<lparr>base_storage := \<lambda>k. Inr (holds s k)\<rparr>"
  have "logical_get exec k = logical_get ?x k"
    using rd get_holds [OF inv, of k]
    by (auto simp: logical_get_def base bind_result_def split: option.splits sum.splits)
  also have "\<dots> = Inr (map_option message_from_bytes (holds s' k))"
    using into_changes_apply [of ?x "holds s" changes k] wf cs by (simp add: h into_changes_eq)
  finally show ?thesis using rd by simp
qed

lemma save_then_load:
  assumes "inv s" "save_chain_state B SO st s = (Inr (), s')" "fits CHAIN_STATE_KEY"
    and "\<And>bs. to_vec B st = Some bs \<Longrightarrow> from_slice B bs = Some st"
  shows "load_chain_state B (so_get SO s') = Some st"
proof -
  from assms(2) obtain bs u where bs: "to_vec B st = Some bs"
    and b: "so_batch SO [OperationSet CHAIN_STATE_KEY bs] s = (Inr u, s')"
    by (auto simp: save_chain_state_def split: option.splits prod.splits sum.splits)
  from batch_done [OF assms(1) b] get_fits [of s' CHAIN_STATE_KEY] assms(3)
  have "so_get SO s' CHAIN_STATE_KEY = Inr (Some bs)" by simp
  with assms(4) [OF bs] show ?thesis by (simp add: load_chain_state_def)
qed

lemma save_keeps_others:
  assumes "inv s" "save_chain_state B SO st s = (r, s')" "k \<noteq> CHAIN_STATE_KEY"
  shows "inv s' \<and> holds s' k = holds s k"
  using assms batch_done [OF assms(1)] batch_failed [OF assms(1)]
  by (auto simp: save_chain_state_def split: option.splits prod.splits sum.splits)

end

section \<open>The in-memory storage\<close>

definition mock_storage_ops :: "mock_storage storage_ops" where
  "mock_storage_ops = \<lparr>so_get = mock_storage_get, so_batch = mock_storage_batch, so_commit = mock_storage_commit\<rparr>"

lemma mock_storage_ops_simps [simp]:
  "so_get mock_storage_ops = mock_storage_get" "so_batch mock_storage_ops = mock_storage_batch"
  "so_commit mock_storage_ops = mock_storage_commit"
  by (simp_all add: mock_storage_ops_def)

interpretation mock_sb: storage_backend mock_storage_ops "\<lambda>_. True" map_of "\<lambda>_. True"
proof unfold_locales
  show "so_batch mock_storage_ops ops s = (Inr u, s') \<Longrightarrow> True \<and> map_of s' = fold op_apply ops (map_of s)" for ops s u s'
    using mock_storage_batch_map [of ops s] by simp
qed (simp_all add: mock_storage_get_def mock_storage_batch_def)

text \<open>Over the in-memory storage production fails only when execution does.\<close>

lemma mock_produces:
  assumes "de_storage_ops E = mock_storage_ops" "\<forall>s b. \<exists>result exec. execute_block E s b = (Ok result, exec)"
  shows "\<exists>r dv'. produce_block_with_txs E ts txs dv = (Ok r, dv')"
proof -
  let ?b = "build_block (de_config E) (ds_height (dv_state dv)) ts (ds_last_hash (dv_state dv)) txs"
  from assms(2) obtain result exec where "execute_block E (dv_storage dv) ?b = (Ok result, exec)" by blast
  with assms(1) show ?thesis
    by (simp add: produce_block_with_txs_def commit_block_def into_changes_eq mock_storage_batch_def
        mock_storage_commit_def Let_def)
qed

lemma mock_tick:
  assumes "de_storage_ops E = mock_storage_ops" "\<forall>s b. \<exists>result exec. execute_block E s b = (Ok result, exec)"
  shows "\<exists>r dv'. production_tick E m ts dv = (Ok r, dv')"
proof (cases "dv_mempool dv")
  case (Some pool)
  obtain sel gas pool1 where pr: "propose (dc_gas_limit (de_config E)) m pool = ((sel, gas), pool1)"
    by (metis prod.collapse)
  from mock_produces [OF assms, of ts sel "dv\<lparr>dv_mempool := Some pool1\<rparr>"] mock_produces [OF assms, of ts "[]" dv] Some pr
  show ?thesis by (auto simp: production_tick_def produce_block_from_mempool_def Let_def)
qed (use mock_produces [OF assms, of ts "[]" dv] in \<open>simp add: production_tick_def produce_block_def\<close>)

section \<open>The database storage\<close>

text \<open>Block execution reads through the synchronous \<open>get\<close>; the entries it leaves in the cache are not
  part of what later reads depend on, and the model's execution reads a fixed snapshot.\<close>

definition qmdb_storage_ops :: "('d, 'c) qmdb \<Rightarrow> visit_order \<Rightarrow> runtime_flavor \<Rightarrow> 'd qmdb_storage storage_ops" where
  "qmdb_storage_ops Q ord rt = \<lparr>so_get = \<lambda>s key. fst (qmdb_get Q ord rt key s), so_batch = qmdb_batch Q,
     so_commit = qmdb_commit Q\<rparr>"

lemma qmdb_storage_ops_simps [simp]:
  "so_get (qmdb_storage_ops Q ord rt) s key = fst (qmdb_get Q ord rt key s)"
  "so_batch (qmdb_storage_ops Q ord rt) = qmdb_batch Q" "so_commit (qmdb_storage_ops Q ord rt) = qmdb_commit Q"
  by (simp_all add: qmdb_storage_ops_def)

lemma qmdb_backend:
  assumes ok: "qmdb_ok Q val" and healthy: "qmdb_healthy Q" and rt: "rt \<noteq> CurrentThread"
  shows "storage_backend (qmdb_storage_ops Q ord rt) (storage_inv val) (qs_contents val)
    (\<lambda>k. length k \<le> STORAGE_MAX_KEY_SIZE)"
proof unfold_locales
  fix s and k
  assume inv: "storage_inv val s"
  obtain r s' where run: "qmdb_get Q ord rt k s = (r, s')" by fastforce
  from qmdb_get_spec [OF ok inv run] healthy rt
  have r: "r = map_storage_get (qs_contents val s) k" by blast
  show "length k \<le> STORAGE_MAX_KEY_SIZE \<Longrightarrow> so_get (qmdb_storage_ops Q ord rt) s k = Inr (qs_contents val s k)"
    by (simp add: run r map_storage_get_def)
  show "\<not> length k \<le> STORAGE_MAX_KEY_SIZE \<Longrightarrow> \<exists>e. so_get (qmdb_storage_ops Q ord rt) s k = Inl e"
    by (simp add: run r map_storage_get_def)
next
  fix s s' and ops
  assume inv: "storage_inv val s"
  obtain r s1 where run: "qmdb_apply_batch Q ops s = (r, s1)" by fastforce
  note spec = qmdb_apply_batch_spec [OF ok inv run]
  show "storage_inv val s' \<and> qs_contents val s' = fold op_apply ops (qs_contents val s)"
    if "so_batch (qmdb_storage_ops Q ord rt) ops s = (Inr u, s')" for u
    using that spec by (cases r) (auto simp: qmdb_batch_def run to_error_code_def)
  show "storage_inv val s' \<and> qs_contents val s' = qs_contents val s"
    if "so_batch (qmdb_storage_ops Q ord rt) ops s = (Inl e, s')" for e
    using that spec by (cases r) (auto simp: qmdb_batch_def run to_error_code_def)
qed

end
