(* ===== verification/Server_Theorems.thy ===== *)
theory Server_Theorems
  imports Storage_Backend Storage_Theorems Stf_Theorems Mempool_Theorems
begin

text \<open>The properties of block production.\<close>

section \<open>Blocks from the pool\<close>

text \<open>C8. A block produced from the pool executes a prefix of the proposal, one transaction after
  the other on the state the begin-block hook leaves, and exactly the executed transactions leave
  the pool; all others are pending again and none is in flight.\<close>

theorem mempool_block_exact:
  assumes "produce_block_from_mempool E ts max_txs dv = (Ok r, dv')" "dv_mempool dv = Some pool"
    "pool_reach pool" "in_flight pool = []" "gas_agrees (de_view E) pool"
    "max_txs \<noteq> 0" "dc_gas_limit (de_config E) \<noteq> 0"
  shows "\<exists>sel gas pool1 pool' evs s1 s2 results.
    propose (dc_gas_limit (de_config E)) max_txs pool = ((sel, gas), pool1) \<and>
    do_begin_block (de_host E) (de_codes E) (de_fuel E) (de_stf E)
      (stf_block (de_view E) (build_block (de_config E) (pb_height r) ts (ds_last_hash (dv_state dv)) sel))
      (exec_state_new (so_get (de_storage_ops E) (dv_storage dv))) = (Ok evs, s1) \<and>
    exec_all (de_host E) (de_codes E) (de_fuel E) (de_stf E) \<lparr>bc_height = pb_height r, bc_time = ts\<rparr>
      (map (de_view E) (take (pb_tx_count r) sel)) s1 = (Ok results, s2) \<and>
    pb_tx_count r = length results \<and> pb_tx_count r \<le> length sel \<and>
    dv_mempool dv' = Some pool' \<and> in_flight pool' = [] \<and>
    (\<forall>h. mempool_get h pool' = (if h \<in> mt_id ` set (take (pb_tx_count r) sel) then None else mempool_get h pool))"
proof -
  obtain sel gas pool1 where pr: "propose (dc_gas_limit (de_config E)) max_txs pool = ((sel, gas), pool1)"
    by (metis prod.collapse)
  from produce_from_mempool_Ok [OF assms(1,2,6) pr] obtain dv1 where
    run: "produce_block_with_txs E ts sel (dv\<lparr>dv_mempool := Some pool1\<rparr>) = (Ok r, dv1)"
    and dv': "dv_mempool dv' = Some (if sel = [] then pool1 else finalize (take (pb_tx_count r) (map mt_id sel)) pool1)"
    by auto
  from run obtain result exec where
    ex: "execute_block E (dv_storage dv) (build_block (de_config E) (pb_height r) ts (ds_last_hash (dv_state dv)) sel) = (Ok result, exec)"
    and cnt: "pb_tx_count r = length (tx_results result)"
    by (rule produce_block_with_txs_Ok) auto
  note fits = proposal_fits [OF assms(3,5,7) pr]
  from execute_block_prefix(1,2) [OF ex fits] cnt obtain evs s1 s2 where
    "do_begin_block (de_host E) (de_codes E) (de_fuel E) (de_stf E)
      (stf_block (de_view E) (build_block (de_config E) (pb_height r) ts (ds_last_hash (dv_state dv)) sel))
      (exec_state_new (so_get (de_storage_ops E) (dv_storage dv))) = (Ok evs, s1)"
    "exec_all (de_host E) (de_codes E) (de_fuel E) (de_stf E) \<lparr>bc_height = pb_height r, bc_time = ts\<rparr>
      (map (de_view E) (take (pb_tx_count r) sel)) s1 = (Ok (tx_results result), s2)"
    "pb_tx_count r \<le> length sel" by auto
  moreover have "in_flight (the (dv_mempool dv')) = []"
    using propose_in_flight [of "dc_gas_limit (de_config E)" max_txs pool gas pool1] pr assms(4)
    by (auto simp: dv' finalize_get)
  moreover have "mempool_get h (the (dv_mempool dv')) =
      (if h \<in> mt_id ` set (take (pb_tx_count r) sel) then None else mempool_get h pool)" for h
    using propose_get [OF pr, of h] by (auto simp: dv' finalize_get take_map)
  ultimately show ?thesis using pr cnt dv' by (intro exI conjI allI) auto
qed

text \<open>A node over the in-memory storage whose transactions are refused by the storage account.\<close>

definition example_env :: "'s storage_ops \<Rightarrow> ('k mempool_tx, 's) dev_env" where
  "example_env SO = \<lparr>de_host = reference_host, de_codes = example_codes reference_host, de_fuel = 3, de_stf = plain_stf,
     de_view = \<lambda>t. refused_tx (mt_gas_limit t), de_encode = \<lambda>_. Inr [],
     de_archived_codec = \<lparr>serialize = \<lambda>_. None, deserialize_reader = \<lambda>_. None\<rparr>, de_keccak256 = \<lambda>_. replicate 32 9,
     de_storage_ops = SO, de_config = dev_config_default, de_archive = False\<rparr>"

lemma example_env_simps [simp]:
  "de_host (example_env SO) = reference_host" "de_codes (example_env SO) = example_codes reference_host"
  "de_fuel (example_env SO) = 3" "de_stf (example_env SO) = plain_stf"
  "de_view (example_env SO) = (\<lambda>t. refused_tx (mt_gas_limit t))"
  "de_keccak256 (example_env SO) = (\<lambda>_. replicate 32 9)" "de_storage_ops (example_env SO) = SO"
  "de_config (example_env SO) = dev_config_default" "de_archive (example_env SO) = False"
  by (simp_all add: example_env_def)

definition example_node :: "'s storage_ops \<Rightarrow> 's \<Rightarrow> ('s, gas_price_ordering) dev_consensus" where
  "example_node SO s = dev_consensus_with_mempool
     (example_env SO :: (gas_price_ordering mempool_tx, 's) dev_env) s example_pool"

lemma example_node_simps [simp]:
  "dv_storage (example_node SO s) = s" "dv_mempool (example_node SO s) = Some example_pool"
  by (simp_all add: example_node_def dev_consensus_with_mempool_def)

lemma example_proposal:
  "\<exists>p. propose 30000000 500 example_pool =
     (([example_pool_tx 2 100 21000, example_pool_tx 1 50 30000], 51000), p)"
  by (simp add: propose_def select_with_gas_budget_def budget_loop.simps pool_eval example_pool_def
      saturating_add_def)

lemma apply_refused_txs:
  "list_all (\<lambda>g. g \<le> lim) gs \<Longrightarrow> lim \<noteq> 0 \<Longrightarrow>
     \<exists>rs' k' s'. apply_txs H A (Suc n) plain_stf b lim N (map refused_tx gs) (rs, 0, k) s = (Ok (rs', 0, k'), s') \<and>
       length rs' = length rs + length gs \<and> overlay s' = overlay s"
proof (induction gs arbitrary: rs k s)
  case (Cons g gs)
  from Cons.prems have le: "\<not> lim < g" "\<not> lim \<le> 0" by (auto simp: not_less word_le_0_iff)
  let ?s = "s\<lparr>metrics := inc_restores (inc_checkpoints (metrics s)), events := []\<rparr>"
  let ?r = "\<lparr>tr_events = events s, tr_gas_used = 0, tr_response = Inl ERR_FUNDS_TO_SYSTEM_ACCOUNT\<rparr>"
  from Cons.IH [of "rs @ [?r]" k ?s] Cons.prems le show ?case by (auto simp: apply_refused_tx)
qed simp

lemma execute_refused:
  assumes "list_all (\<lambda>t. mt_gas_limit t \<le> 30000000) txs"
  shows "\<exists>result exec. execute_block (example_env SO) s (build_block dev_config_default h ts p txs) = (Ok result, exec) \<and>
    length (tx_results result) = length txs \<and> overlay exec = []"
proof -
  have lim: "dc_gas_limit dev_config_default = 30000000" by (simp add: dev_config_default_def)
  from assms have "list_all (\<lambda>g. g \<le> 30000000) (map mt_gas_limit txs)" by (simp add: list.pred_map comp_def)
  from apply_refused_txs [OF this, of reference_host "example_codes reference_host" 2
      "\<lparr>bc_height = h, bc_time = ts\<rparr>" "length txs" "[]" 0 "exec_state_new (so_get SO s)"]
  show ?thesis
    by (auto simp: execute_block_def apply_block_on_def apply_block_def stf_block_def do_begin_block_def comp_def
        do_end_block_def andThen_def ret_def Let_def run_blocker_Return exec_state_new_def lim numeral_3_eq_3)
qed

lemma produce_refused:
  assumes "list_all (\<lambda>t. mt_gas_limit t \<le> 30000000) txs" "so_batch SO [] (dv_storage dv) = (Inr (), s')"
  shows "\<exists>r dv'. produce_block_with_txs (example_env SO) ts txs dv =
      (case so_commit SO s' of Inl e \<Rightarrow> (Err (ServerStorage ''commit failed: '' (Some e)), dv') | Inr _ \<Rightarrow> (Ok r, dv')) \<and>
    pb_tx_count r = length txs \<and> dv_mempool dv' = dv_mempool dv"
proof -
  let ?b = "build_block dev_config_default (ds_height (dv_state dv)) ts (ds_last_hash (dv_state dv)) txs"
  from execute_refused [OF assms(1), of SO "dv_storage dv" "ds_height (dv_state dv)" ts "ds_last_hash (dv_state dv)"]
  obtain result exec where
    ex: "execute_block (example_env SO) (dv_storage dv) ?b = (Ok result, exec)"
    and len: "length (tx_results result) = length txs" and ov: "overlay exec = []" by blast
  from ov have "into_changes exec = Inr []" by (simp add: into_changes_eq)
  with ex len assms(2) show ?thesis
    by (cases "so_commit SO s'") (auto simp: produce_block_with_txs_def commit_block_def archive_block_def
        state_changes_to_operations_def Let_def intro: exI [of _ "undefined\<lparr>pb_tx_count := length txs\<rparr>"])
qed

lemma example_from_mempool:
  assumes "so_batch SO [] s = (Inr (), s')"
  shows "\<exists>r dv'. produce_block_from_mempool (example_env SO) 7 500 (example_node SO s) =
      (case so_commit SO s' of Inl e \<Rightarrow> (Err (ServerStorage ''commit failed: '' (Some e)), dv') | Inr _ \<Rightarrow> (Ok r, dv')) \<and>
    pb_tx_count r = 2"
proof -
  let ?txs = "[example_pool_tx 2 100 21000, example_pool_tx 1 50 30000]"
  from example_proposal obtain p where pr: "propose 30000000 500 example_pool = ((?txs, 51000), p)" by blast
  let ?dv = "(example_node SO s)\<lparr>dv_mempool := Some p\<rparr>"
  have "list_all (\<lambda>t. mt_gas_limit t \<le> 30000000) ?txs" by (simp add: example_pool_tx_def)
  from produce_refused [OF this, of SO ?dv s' 7] assms
  have "\<exists>r dv'. produce_block_with_txs (example_env SO) 7 ?txs ?dv =
      (case so_commit SO s' of Inl e \<Rightarrow> (Err (ServerStorage ''commit failed: '' (Some e)), dv') | Inr _ \<Rightarrow> (Ok r, dv')) \<and>
    pb_tx_count r = 2" by (auto simp: numeral_2_eq_2)
  then show ?thesis using pr
    by (cases "so_commit SO s'") (auto simp: produce_block_from_mempool_def dev_config_default_def Let_def)
qed

lemma example_agrees: "gas_agrees (\<lambda>t. refused_tx (mt_gas_limit t)) example_pool"
  by (simp add: gas_agrees_def)

theorem mempool_block_exact_witness:
  "\<exists>r dv' pool'. produce_block_from_mempool (example_env mock_storage_ops) 7 500
       (example_node mock_storage_ops []) = (Ok r, dv') \<and>
     dv_mempool dv' = Some pool' \<and> mempool_get [1] pool' = None \<and> in_flight pool' = []"
proof -
  let ?E = "example_env mock_storage_ops :: (gas_price_ordering mempool_tx, mock_storage) dev_env"
  let ?dv = "example_node mock_storage_ops []"
  obtain r dv' where run: "produce_block_from_mempool ?E 7 500 ?dv = (Ok r, dv')" and two: "pb_tx_count r = 2"
    using example_from_mempool [of mock_storage_ops "[]" "[]"]
    by (auto simp: mock_storage_batch_def mock_storage_commit_def)
  from example_proposal obtain p where pr: "propose 30000000 500 example_pool =
      (([example_pool_tx 2 100 21000, example_pool_tx 1 50 30000], 51000), p)" by blast
  have lim: "dc_gas_limit (de_config ?E) = 30000000" by (simp add: dev_config_default_def)
  have agree: "gas_agrees (de_view ?E) example_pool" by (simp add: example_agrees)
  have flight: "in_flight example_pool = []" by (simp add: example_pool_def)
  have nonzero: "(500 :: nat) \<noteq> 0" "dc_gas_limit (de_config ?E) \<noteq> 0" by (simp_all add: dev_config_default_def)
  from mempool_block_exact [OF run example_node_simps(2) example_pool_reach flight agree nonzero]
  obtain sel gas pool1 pool' where "propose (dc_gas_limit (de_config ?E)) 500 example_pool = ((sel, gas), pool1)"
    and pool': "dv_mempool dv' = Some pool'" "in_flight pool' = []"
    and gone: "\<forall>h. mempool_get h pool' = (if h \<in> mt_id ` set (take (pb_tx_count r) sel) then None
      else mempool_get h example_pool)" by blast
  with pr lim have "sel = [example_pool_tx 2 100 21000, example_pool_tx 1 50 30000]" by simp
  with gone two have "mempool_get [1] pool' = None" by (simp add: example_pool_tx_def)
  with run pool' show ?thesis by blast
qed





section \<open>The pool drains\<close>


lemma apply_refused_returns:
  "\<exists>rs' k' s'. apply_txs H A (Suc n) plain_stf b lim N (map refused_tx gs) (rs, 0, k) s = (Ok (rs', 0, k'), s')"
proof (induction gs arbitrary: rs k s)
  case (Cons g gs)
  let ?s = "s\<lparr>metrics := inc_restores (inc_checkpoints (metrics s)), events := []\<rparr>"
  let ?r = "\<lparr>tr_events = events s, tr_gas_used = 0, tr_response = Inl ERR_FUNDS_TO_SYSTEM_ACCOUNT\<rparr>"
  from Cons.IH [of "rs @ [?r]" k ?s] Cons.IH [of rs "k + 1" s] show ?case by (auto simp: apply_refused_tx Let_def)
qed simp

lemma execute_refused_returns: "\<exists>result exec. execute_block (example_env SO) s b = (Ok result, exec)"
  using apply_refused_returns [of reference_host "example_codes reference_host" 2
      "\<lparr>bc_height = bh_number (eb_header b), bc_time = bh_timestamp (eb_header b)\<rparr>" "bh_gas_limit (eb_header b)"
      "length (eb_transactions b)" "map mt_gas_limit (eb_transactions b)" "[]" 0 "exec_state_new (so_get SO s)"]
  by (auto simp: execute_block_def apply_block_on_def apply_block_def stf_block_def do_begin_block_def comp_def
      do_end_block_def andThen_def ret_def Let_def run_blocker_Return exec_state_new_def numeral_3_eq_3)


section \<open>What a block leaves in the storage\<close>

text \<open>C9. A produced block is written through: after it, whatever the executed state would answer for a key is
  what the storage holds there, and the recorded hash is that of the height, the time and the parent's
  hash.\<close>

theorem block_written_through:
  assumes "storage_backend (de_storage_ops E) ok holds fits" "ok (dv_storage dv)"
    and "produce_block_with_txs E ts txs dv = (Ok r, dv')"
  shows "ok (dv_storage dv') \<and> dv_state dv' = \<lparr>ds_height = pb_height r + 1,
      ds_last_hash = compute_block_hash (de_keccak256 E) (pb_height r) ts (ds_last_hash (dv_state dv)), ds_last_timestamp = ts\<rparr> \<and>
    (\<exists>result exec. execute_block E (dv_storage dv)
        (build_block (de_config E) (pb_height r) ts (ds_last_hash (dv_state dv)) txs) = (Ok result, exec) \<and>
      pb_tx_count r = length (tx_results result) \<and>
      (\<forall>k v. logical_get exec k = Inr v \<longrightarrow> v = map_option message_from_bytes (holds (dv_storage dv') k)))"
proof -
  from assms(3) obtain result exec changes u where
    ex: "execute_block E (dv_storage dv) (build_block (de_config E) (pb_height r) ts (ds_last_hash (dv_state dv)) txs)
       = (Ok result, exec)" and cs: "into_changes exec = Inr changes"
    and b: "so_batch (de_storage_ops E) (state_changes_to_operations changes) (dv_storage dv) = (Inr u, dv_storage dv')"
    and rest: "pb_tx_count r = length (tx_results result)" "dv_state dv' = \<lparr>ds_height = pb_height r + 1,
      ds_last_hash = compute_block_hash (de_keccak256 E) (pb_height r) ts (ds_last_hash (dv_state dv)), ds_last_timestamp = ts\<rparr>"
    by (rule produce_block_with_txs_Ok) auto
  from ex have run: "apply_block (de_host E) (de_codes E) (de_fuel E) (de_stf E) (stf_block (de_view E)
      (build_block (de_config E) (pb_height r) ts (ds_last_hash (dv_state dv)) txs))
      (exec_state_new (so_get (de_storage_ops E) (dv_storage dv))) = (Ok result, exec)"
    by (simp add: execute_block_def apply_block_on_def)
  from apply_block_wf [OF run] exec_state_new_wf(1) have "hm_wf (overlay exec)"
    by (simp add: exec_state_wf_def overlay_wf_def)
  moreover from apply_block_base [OF run] have "base_storage exec = so_get (de_storage_ops E) (dv_storage dv)"
    by (simp add: exec_state_new_def)
  ultimately have "v = map_option message_from_bytes (holds (dv_storage dv') k)" if "logical_get exec k = Inr v" for k v
    using storage_backend.changes_written [OF assms(1,2) _ _ cs b that] by blast
  with ex rest storage_backend.batch_done [OF assms(1,2) b] show ?thesis by blast
qed

theorem block_written_through_witness:
  "\<exists>r dv'. produce_block_with_txs (example_env mock_storage_ops) 7 [example_pool_tx 1 50 30000]
       (example_node mock_storage_ops [([4], [5])]) = (Ok r, dv') \<and> ds_last_hash (dv_state dv') = replicate 32 9"
proof -
  let ?E = "example_env mock_storage_ops :: (gas_price_ordering mempool_tx, mock_storage) dev_env"
  have b: "storage_backend (de_storage_ops ?E) (\<lambda>_. True) map_of (\<lambda>_. True)" by (simp add: mock_sb.storage_backend_axioms)
  obtain r dv' where run: "produce_block_with_txs ?E 7 [example_pool_tx 1 50 30000] (example_node mock_storage_ops [([4], [5])]) = (Ok r, dv')"
    using mock_produces [of ?E] execute_refused_returns by fastforce
  from block_written_through [OF b _ run] run show ?thesis by (auto simp: compute_block_hash_def)
qed

text \<open>C26. The limits of execution and storage do not agree. A value of more than 4092 bytes and at most a
  megabyte is accepted by the execution state and comes out as a change, and then the database storage
  refuses the batch, so that the block is not produced.\<close>

theorem stf_value_limit_exceeds_storage:
  assumes "STORAGE_MAX_VALUE_SIZE < length v" "length v \<le> MAX_VALUE_SIZE" "length k \<le> MAX_KEY_SIZE"
    and "de_storage_ops E = qmdb_storage_ops Q ord rt"
  shows "\<exists>s'. set_op k (OwnedBytes v) (exec_state_new base) = (Ok (), s') \<and> into_changes s' = Inr [CSet k v] \<and>
    commit_block E ts b result [CSet k v] dv =
      (Err (ServerStorage ''batch failed: '' (Some STORAGE_ERR_VALUE_TOO_LARGE)), dv)"
proof -
  from assms have "set_op k (OwnedBytes v) (exec_state_new base) = (Ok (), snd (set_op k (OwnedBytes v) (exec_state_new base)))"
    "overlay (snd (set_op k (OwnedBytes v) (exec_state_new base))) = [(k, Some (OwnedBytes v))]"
    by (simp_all add: set_op_cases record_change_def Let_def exec_state_new_def MAX_OVERLAY_ENTRIES_def)
  moreover from assms(1) have "qmdb_batch Q (state_changes_to_operations [CSet k v]) s =
      (to_error_code (Inl (ValueTooLarge (length v) STORAGE_MAX_VALUE_SIZE)), s)" for s
    by (simp add: qmdb_batch_def qmdb_apply_batch_def prepare_batch_def state_changes_to_operations_def MAX_BATCH_SIZE_def)
  ultimately show ?thesis
    using assms(4) by (auto simp: into_changes_eq commit_block_def to_error_code_def Let_def)
qed

definition empty_result :: block_result where
  "empty_result = \<lparr>begin_block_events = [], tx_results = [], end_block_events = [], br_gas_used = 0, txs_skipped = 0\<rparr>"

theorem stf_value_limit_exceeds_storage_witness:
  "commit_block (example_env (qmdb_storage_ops memory_qmdb id MultiThread)) 7 (block_for_testing 1 []) empty_result
       [CSet [1] (replicate 5000 0)] (example_node (qmdb_storage_ops memory_qmdb id MultiThread) memory_storage) =
     (Err (ServerStorage ''batch failed: '' (Some STORAGE_ERR_VALUE_TOO_LARGE)),
      example_node (qmdb_storage_ops memory_qmdb id MultiThread) memory_storage)"
proof -
  let ?ops = "qmdb_storage_ops memory_qmdb id MultiThread" and ?v = "replicate 5000 0 :: bytes"
  have "STORAGE_MAX_VALUE_SIZE < length ?v" "length ?v \<le> MAX_VALUE_SIZE" "length [1 :: u8] \<le> MAX_KEY_SIZE"
    by (simp_all add: STORAGE_MAX_VALUE_SIZE_def MAX_VALUE_SIZE_def MAX_KEY_SIZE_def MAX_STORAGE_KEY_SIZE_def)
  from stf_value_limit_exceeds_storage [OF this, of "example_env ?ops" memory_qmdb id MultiThread "\<lambda>_. Inr None" 7
      "block_for_testing 1 []" empty_result "example_node ?ops memory_storage"]
  show ?thesis by auto
qed

section \<open>The persisted chain state\<close>

text \<open>A chain state that was saved is loaded again, and saving it changes no other key.\<close>

theorem chain_state_roundtrip:
  assumes "qmdb_ok Q val" "qmdb_healthy Q" "rt \<noteq> CurrentThread" "storage_inv val s"
    and "save_chain_state B (qmdb_storage_ops Q ord rt) st s = (Inr (), s')"
    and "\<And>bs. to_vec B st = Some bs \<Longrightarrow> from_slice B bs = Some st"
  shows "load_chain_state B (so_get (qmdb_storage_ops Q ord rt) s') = Some st \<and>
    (\<forall>k. k \<noteq> CHAIN_STATE_KEY \<longrightarrow> qs_contents val s' k = qs_contents val s k)"
proof -
  note sb = qmdb_backend [OF assms(1-3), of ord]
  have "length CHAIN_STATE_KEY \<le> STORAGE_MAX_KEY_SIZE"
    by (simp add: CHAIN_STATE_KEY_def str_bytes_def STORAGE_MAX_KEY_SIZE_def MAX_STORAGE_KEY_SIZE_def)
  from storage_backend.save_then_load [OF sb assms(4,5) this assms(6)]
    storage_backend.save_keeps_others [OF sb assms(4,5)] show ?thesis by blast
qed

definition height_codec :: "unit chain_state borsh" where
  "height_codec = \<lparr>serialize = \<lambda>st. Some (le_bytes 8 (ch_height st)), deserialize_reader = \<lambda>bs.
     if length bs < 8 then None else Some (\<lparr>ch_height = of_nat (le_val (take 8 bs)), ch_genesis_result = ()\<rparr>, drop 8 bs)\<rparr>"

theorem chain_state_roundtrip_witness:
  "\<exists>s'. save_chain_state height_codec (qmdb_storage_ops memory_qmdb id MultiThread) \<lparr>ch_height = 5, ch_genesis_result = ()\<rparr>
       memory_storage = (Inr (), s') \<and>
     load_chain_state height_codec (so_get (qmdb_storage_ops memory_qmdb id MultiThread) s') =
       Some \<lparr>ch_height = 5, ch_genesis_result = ()\<rparr>"
proof -
  let ?st = "\<lparr>ch_height = 5, ch_genesis_result = ()\<rparr>" and ?ops = "qmdb_storage_ops memory_qmdb id MultiThread"
  let ?batch = "[OperationSet CHAIN_STATE_KEY (le_bytes 8 (5 :: u64))]"
  have codec: "from_slice height_codec (le_bytes 8 (5 :: u64)) = Some ?st"
    using le_val_le_bytes [of 8 "5 :: u64"] by (simp add: from_slice_def height_codec_def)
  have "\<exists>b. prepare_batch ?batch = Inr b"
    by (simp add: prepare_batch_ok_iff op_fits_def MAX_BATCH_SIZE_def STORAGE_MAX_VALUE_SIZE_def CHAIN_STATE_KEY_def
        str_bytes_def STORAGE_MAX_KEY_SIZE_def MAX_STORAGE_KEY_SIZE_def)
  then obtain s' where b: "qmdb_batch memory_qmdb ?batch memory_storage = (Inr (), s')"
    using qmdb_apply_batch_healthy [OF memory_qmdb_healthy, of ?batch memory_storage]
    by (cases "qmdb_apply_batch memory_qmdb ?batch memory_storage") (auto simp: qmdb_batch_def to_error_code_def)
  obtain h where "qmdb_commit memory_qmdb s' = Inr h"
    by (simp add: qmdb_commit_def commit_state_def memory_qmdb_def map_qmdb_error_def root_to_commit_hash_def to_error_code_def)
  with b have run: "save_chain_state height_codec ?ops ?st memory_storage = (Inr (), s')"
    by (simp add: save_chain_state_def to_vec_def height_codec_def)
  have inv: "storage_inv map_of memory_storage"
    by (rule storage_inv_new [OF memory_storage_new])
  have "from_slice height_codec bs = Some ?st" if "to_vec height_codec ?st = Some bs" for bs
    using that codec by (simp add: to_vec_def height_codec_def)
  from chain_state_roundtrip [OF memory_qmdb_ok memory_qmdb_healthy _ inv run this] run show ?thesis by auto
qed

end
