(* ===== verification/Genesis.thy ===== *)
theory Genesis
  imports Stf
begin

text \<open>
  The genesis module (\<open>crates/app/genesis/src\<close>): genesis files with their sender and recipient
  specifications, validation and resolution of references (\<open>file.rs\<close>), the registry of message
  encoders (\<open>registry.rs\<close>), the types and errors (\<open>types.rs\<close>, \<open>error.rs\<close>), and the execution of
  genesis on the state transition function (\<open>lib.rs\<close>). JSON values have the constructors of
  \<open>serde_json::Value\<close>; parsing a text into one is the library's. The \<open>hex\<close> library is the record
  \<open>hex_lib\<close>. Messages of errors are kept as their constant part.
\<close>

section \<open>JSON values and the hex library\<close>

datatype json_number = PosInt u64 | NegInt int | Float string

datatype json =
  JNull
| JBool bool
| JNumber json_number
| JString string
| JArray "json list"
| JObject "(string \<times> json) list"

fun as_u64 :: "json_number \<Rightarrow> u64 option" where
  "as_u64 (PosInt n) = Some n"
| "as_u64 _ = None"

record hex_lib =
  hex_encode :: "bytes \<Rightarrow> string"
  hex_decode :: "string \<Rightarrow> bytes option"

definition hex_digits :: string where "hex_digits = ''0123456789abcdef''"

text \<open>What is relied on: text consists of lower-case digits, two for a byte, and is read back.\<close>

definition hex_ok :: "hex_lib \<Rightarrow> bool" where
  "hex_ok X \<longleftrightarrow> (\<forall>b. hex_decode X (hex_encode X b) = Some b \<and> set (hex_encode X b) \<subseteq> set hex_digits \<and>
     length (hex_encode X b) = 2 * length b)"

fun trim_start_matches_0x :: "string \<Rightarrow> string" where
  "trim_start_matches_0x (a # b # s) =
     (if a = CHR ''0'' \<and> b = CHR ''x'' then trim_start_matches_0x s else a # b # s)"
| "trim_start_matches_0x s = s"

definition starts_with_dollar :: "string \<Rightarrow> bool" where
  "starts_with_dollar s = (case s of c # _ \<Rightarrow> c = CHR ''$'' | [] \<Rightarrow> False)"

definition strip_dollar :: "string \<Rightarrow> string option" where
  "strip_dollar s = (if starts_with_dollar s then Some (tl s) else None)"

text \<open>The 32 bytes a text spells, with or without \<open>0x\<close>.\<close>

definition decode_account :: "hex_lib \<Rightarrow> string \<Rightarrow> account_id option" where
  "decode_account X s =
     (case hex_decode X (trim_start_matches_0x s) of
        Some b \<Rightarrow> if length b = 32 then Some b else None
      | None \<Rightarrow> None)"

section \<open>Errors\<close>

datatype genesis_error =
  GenesisParseError string
| InvalidReference string nat
| CircularReference string
| DuplicateId string nat nat
| GenesisFailed string "error_code option"
| TransactionFailed nat "string option" "error_code option"
| UnknownMessageType string
| EncodeError string
| GenesisIoError string
| GenesisJsonError string

section \<open>Types\<close>

definition DEFAULT_BLOCK_GAS_LIMIT :: u64 where "DEFAULT_BLOCK_GAS_LIMIT = 30000000"

record consensus_params =
  cp_block_gas_limit :: u64

definition consensus_params_default :: consensus_params where
  "consensus_params_default = \<lparr>cp_block_gas_limit = DEFAULT_BLOCK_GAS_LIMIT\<rparr>"

definition consensus_params_new :: "u64 \<Rightarrow> consensus_params" where
  "consensus_params_new block_gas_limit = \<lparr>cp_block_gas_limit = block_gas_limit\<rparr>"

record genesis_tx =
  gt_id :: "string option"
  gt_sender :: account_id
  gt_recipient :: account_id
  gt_request :: invoke_request

definition genesis_tx_new :: "account_id \<Rightarrow> account_id \<Rightarrow> invoke_request \<Rightarrow> genesis_tx" where
  "genesis_tx_new from to request = \<lparr>gt_id = None, gt_sender = from, gt_recipient = to, gt_request = request\<rparr>"

definition genesis_tx_with_id :: "string \<Rightarrow> account_id \<Rightarrow> account_id \<Rightarrow> invoke_request \<Rightarrow> genesis_tx" where
  "genesis_tx_with_id i from to request =
     \<lparr>gt_id = Some i, gt_sender = from, gt_recipient = to, gt_request = request\<rparr>"

section \<open>Specifications of accounts\<close>

datatype sender_spec = SenderSystem | SenderReference string | SenderAccountId account_id

datatype recipient_spec = RecipientRuntime | RecipientReference string | RecipientAccountId account_id

definition default_sender :: sender_spec where "default_sender = SenderSystem"

fun serialize_sender :: "hex_lib \<Rightarrow> sender_spec \<Rightarrow> string" where
  "serialize_sender X SenderSystem = ''system''"
| "serialize_sender X (SenderReference r) = r"
| "serialize_sender X (SenderAccountId i) = hex_encode X i"

fun deserialize_sender :: "hex_lib \<Rightarrow> json \<Rightarrow> genesis_error + sender_spec" where
  "deserialize_sender X (JString s) =
     (if s = ''system'' then Inr SenderSystem
      else if starts_with_dollar s then Inr (SenderReference s)
      else case decode_account X s of
             Some b \<Rightarrow> Inr (SenderAccountId b)
           | None \<Rightarrow> Inr (SenderReference s))"
| "deserialize_sender X (JNumber n) =
     bind_result (ok_or (GenesisJsonError ''invalid account ID number'') (as_u64 n))
       (\<lambda>v. Inr (SenderAccountId (account_from_u64 v)))"
| "deserialize_sender X _ = Inl (GenesisJsonError ''expected string or number for sender'')"

fun serialize_recipient :: "hex_lib \<Rightarrow> recipient_spec \<Rightarrow> string" where
  "serialize_recipient X RecipientRuntime = ''runtime''"
| "serialize_recipient X (RecipientReference r) = r"
| "serialize_recipient X (RecipientAccountId i) = hex_encode X i"

fun deserialize_recipient :: "hex_lib \<Rightarrow> json \<Rightarrow> genesis_error + recipient_spec" where
  "deserialize_recipient X (JString s) =
     (if s = ''runtime'' then Inr RecipientRuntime
      else if starts_with_dollar s then Inr (RecipientReference s)
      else case decode_account X s of
             Some b \<Rightarrow> Inr (RecipientAccountId b)
           | None \<Rightarrow> Inr (RecipientReference s))"
| "deserialize_recipient X (JNumber n) =
     bind_result (ok_or (GenesisJsonError ''invalid account ID number'') (as_u64 n))
       (\<lambda>v. Inr (RecipientAccountId (account_from_u64 v)))"
| "deserialize_recipient X _ = Inl (GenesisJsonError ''expected string or number for recipient'')"

section \<open>Genesis files\<close>

record genesis_tx_json =
  gj_id :: "string option"
  gj_sender :: sender_spec
  gj_recipient :: recipient_spec
  gj_msg_type :: string
  gj_msg :: json

record genesis_file =
  gf_chain_id :: string
  gf_genesis_time :: u64
  gf_consensus_params :: consensus_params
  gf_transactions :: "genesis_tx_json list"

text \<open>The reference a specification makes, if it makes one.\<close>

definition sender_ref :: "sender_spec \<Rightarrow> string option" where
  "sender_ref spec = (case spec of SenderReference r \<Rightarrow> strip_dollar r | _ \<Rightarrow> None)"

definition recipient_ref :: "recipient_spec \<Rightarrow> string option" where
  "recipient_ref spec = (case spec of RecipientReference r \<Rightarrow> strip_dollar r | _ \<Rightarrow> None)"

definition check_ref :: "nat \<Rightarrow> (string, nat) hashmap \<Rightarrow> string option \<Rightarrow> genesis_error + unit" where
  "check_ref idx seen_ids ref =
     (case ref of
        Some ref_id \<Rightarrow> if hm_get seen_ids ref_id = None then Inl (InvalidReference ref_id idx) else Inr ()
      | None \<Rightarrow> Inr ())"

fun validate_loop :: "nat \<Rightarrow> genesis_tx_json list \<Rightarrow> (string, nat) hashmap \<Rightarrow> genesis_error + unit" where
  "validate_loop idx [] seen_ids = Inr ()"
| "validate_loop idx (tx # txs) seen_ids =
     bind_result
       (case gj_id tx of
          Some i \<Rightarrow>
            (case hm_get seen_ids i of
               Some prev_idx \<Rightarrow> Inl (DuplicateId i idx prev_idx)
             | None \<Rightarrow> Inr (hm_insert i idx seen_ids))
        | None \<Rightarrow> Inr seen_ids) (\<lambda>seen_ids.
     bind_result (check_ref idx seen_ids (sender_ref (gj_sender tx))) (\<lambda>_.
     bind_result (check_ref idx seen_ids (recipient_ref (gj_recipient tx))) (\<lambda>_.
     validate_loop (Suc idx) txs seen_ids)))"

definition genesis_validate :: "genesis_file \<Rightarrow> genesis_error + unit" where
  "genesis_validate gf = validate_loop 0 (gf_transactions gf) []"

section \<open>Resolving references\<close>

fun resolve_references_in_value ::
    "hex_lib \<Rightarrow> (string, account_id) hashmap \<Rightarrow> json \<Rightarrow> genesis_error + json" where
  "resolve_references_in_value X id_to_account (JString s) =
     (if starts_with_dollar s then
        bind_result (ok_or (InvalidReference (tl s) 0) (hm_get id_to_account (tl s)))
          (\<lambda>account_id. Inr (JString (hex_encode X account_id)))
      else Inr (JString s))"
| "resolve_references_in_value X id_to_account (JArray arr) =
     bind_result (collect_result (map (resolve_references_in_value X id_to_account) arr)) (\<lambda>vs. Inr (JArray vs))"
| "resolve_references_in_value X id_to_account (JObject obj) =
     bind_result (collect_result (map (\<lambda>kv. bind_result (resolve_references_in_value X id_to_account (snd kv))
       (\<lambda>rv. Inr (fst kv, rv))) obj)) (\<lambda>kvs. Inr (JObject kvs))"
| "resolve_references_in_value X id_to_account other = Inr other"

definition SYSTEM_ACCOUNT_ID :: account_id where "SYSTEM_ACCOUNT_ID = account_from_u64 0"

definition resolve_account ::
    "hex_lib \<Rightarrow> string \<Rightarrow> nat \<Rightarrow> (string, account_id) hashmap \<Rightarrow> string \<Rightarrow> genesis_error + account_id" where
  "resolve_account X message idx id_to_account r =
     (if starts_with_dollar r then ok_or (InvalidReference (tl r) idx) (hm_get id_to_account (tl r))
      else ok_or (GenesisParseError message) (decode_account X r))"

definition resolve_sender ::
    "hex_lib \<Rightarrow> nat \<Rightarrow> (string, account_id) hashmap \<Rightarrow> sender_spec \<Rightarrow> genesis_error + account_id" where
  "resolve_sender X idx id_to_account spec =
     (case spec of
        SenderSystem \<Rightarrow> Inr SYSTEM_ACCOUNT_ID
      | SenderReference r \<Rightarrow> resolve_account X ''invalid sender'' idx id_to_account r
      | SenderAccountId i \<Rightarrow> Inr i)"

definition resolve_recipient ::
    "hex_lib \<Rightarrow> nat \<Rightarrow> (string, account_id) hashmap \<Rightarrow> recipient_spec \<Rightarrow> genesis_error + account_id" where
  "resolve_recipient X idx id_to_account spec =
     (case spec of
        RecipientRuntime \<Rightarrow> Inr RUNTIME_ACCOUNT_ID
      | RecipientReference r \<Rightarrow> resolve_account X ''invalid recipient'' idx id_to_account r
      | RecipientAccountId i \<Rightarrow> Inr i)"

section \<open>The registry\<close>

type_synonym message_encoder = "json \<Rightarrow> genesis_error + invoke_request"

record message_type_info =
  mi_type_name :: string
  mi_description :: string
  mi_schema :: "json option"

type_synonym simple_registry = "(string, message_encoder \<times> message_type_info) hashmap"

definition simple_registry_new :: simple_registry where "simple_registry_new = []"

definition register :: "string \<Rightarrow> string \<Rightarrow> message_encoder \<Rightarrow> simple_registry \<Rightarrow> simple_registry" where
  "register type_name description encoder reg =
     hm_insert type_name (encoder, \<lparr>mi_type_name = type_name, mi_description = description, mi_schema = None\<rparr>) reg"

definition register_with_schema ::
    "string \<Rightarrow> string \<Rightarrow> json \<Rightarrow> message_encoder \<Rightarrow> simple_registry \<Rightarrow> simple_registry" where
  "register_with_schema type_name description schema encoder reg =
     hm_insert type_name (encoder, \<lparr>mi_type_name = type_name, mi_description = description, mi_schema = Some schema\<rparr>) reg"

definition encode_message :: "simple_registry \<Rightarrow> string \<Rightarrow> json \<Rightarrow> genesis_error + invoke_request" where
  "encode_message reg msg_type msg =
     bind_result (ok_or (UnknownMessageType msg_type) (hm_get reg msg_type)) (\<lambda>(encoder, _). encoder msg)"

definition list_message_types :: "simple_registry \<Rightarrow> message_type_info list" where
  "list_message_types reg = map (\<lambda>(_, _, info). info) reg"

text \<open>\<open>register_message!\<close>: a message type with a JSON reader.\<close>

definition register_message ::
    "'m invokable \<Rightarrow> (json \<Rightarrow> 'm option) \<Rightarrow> string \<Rightarrow> string \<Rightarrow> simple_registry \<Rightarrow> simple_registry" where
  "register_message I from_value type_name description =
     register type_name description (\<lambda>v.
       bind_result (ok_or (EncodeError ''invalid payload'') (from_value v)) (\<lambda>msg.
       case invoke_request_new I msg of Inl e \<Rightarrow> Inl (EncodeError ''invalid message'') | Inr r \<Rightarrow> Inr r))"

section \<open>Transactions of a file\<close>

text \<open>The registry by its encoding function; \<open>next_account_id\<close> is the account an identified transaction
  is assumed to create.\<close>

fun to_transactions_loop ::
    "hex_lib \<Rightarrow> (string \<Rightarrow> json \<Rightarrow> genesis_error + invoke_request) \<Rightarrow> nat \<Rightarrow> genesis_tx_json list \<Rightarrow>
       (string, account_id) hashmap \<Rightarrow> account_id \<Rightarrow> genesis_error + genesis_tx list" where
  "to_transactions_loop X enc idx [] id_to_account next_account_id = Inr []"
| "to_transactions_loop X enc idx (tx # txs) id_to_account next_account_id =
     bind_result (resolve_sender X idx id_to_account (gj_sender tx)) (\<lambda>from.
     bind_result (resolve_recipient X idx id_to_account (gj_recipient tx)) (\<lambda>to.
     bind_result (resolve_references_in_value X id_to_account (gj_msg tx)) (\<lambda>resolved_msg.
     bind_result (enc (gj_msg_type tx) resolved_msg) (\<lambda>request.
     case gj_id tx of
       Some i \<Rightarrow>
         bind_result (to_transactions_loop X enc (Suc idx) txs (hm_insert i next_account_id id_to_account)
           (account_increase next_account_id)) (\<lambda>rest. Inr (genesis_tx_with_id i from to request # rest))
     | None \<Rightarrow>
         bind_result (to_transactions_loop X enc (Suc idx) txs id_to_account next_account_id)
           (\<lambda>rest. Inr (genesis_tx_new from to request # rest))))))"

definition to_transactions ::
    "hex_lib \<Rightarrow> (string \<Rightarrow> json \<Rightarrow> genesis_error + invoke_request) \<Rightarrow> genesis_file \<Rightarrow> genesis_error + genesis_tx list" where
  "to_transactions X enc gf =
     bind_result (genesis_validate gf) (\<lambda>_.
     to_transactions_loop X enc 0 (gf_transactions gf) [] (account_from_u64 1))"

section \<open>Running genesis\<close>

definition CONSENSUS_PARAMS_KEY :: bytes where "CONSENSUS_PARAMS_KEY = str_bytes ''consensus_params''"

record genesis_result =
  gr_index :: nat
  gr_id :: "string option"
  gr_success :: bool
  gr_error :: "error_code option"

text \<open>The closure given to \<open>system_exec\<close>; the results it collects in a cell are its value here.\<close>

fun genesis_action :: "nat \<Rightarrow> genesis_tx list \<Rightarrow> genesis_result list \<Rightarrow> genesis_result list prog" where
  "genesis_action idx [] results = Return (Inr results)"
| "genesis_action idx (tx # txs) results =
     DoExec (gt_recipient tx) (gt_request tx) [] (\<lambda>result.
       let success = (case result of Inr _ \<Rightarrow> True | Inl _ \<Rightarrow> False);
           error = (case result of Inr _ \<Rightarrow> None | Inl e \<Rightarrow> Some e);
           results = results @ [\<lparr>gr_index = idx, gr_id = gt_id tx, gr_success = success, gr_error = error\<rparr>]
       in if \<not> success then Return (Inr results) else genesis_action (Suc idx) txs results)"

definition apply_genesis ::
    "host \<Rightarrow> account_codes \<Rightarrow> nat \<Rightarrow> consensus_params borsh \<Rightarrow> readonly_kv \<Rightarrow> consensus_params \<Rightarrow> genesis_tx list \<Rightarrow>
       (genesis_error, exec_state \<times> genesis_result list) outcome" where
  "apply_genesis H A n B storage params txs =
     (case system_exec H A n storage \<lparr>bc_height = 0, bc_time = 0\<rparr> (genesis_action 0 txs []) of
        Ok (results, state) \<Rightarrow>
          (case find (\<lambda>r. \<not> gr_success r) results of
             Some failed \<Rightarrow> Err (TransactionFailed (gr_index failed) (gr_id failed) (gr_error failed))
           | None \<Rightarrow>
               (case to_vec B params of
                  None \<Rightarrow> Err (GenesisFailed ''failed to serialize consensus params'' None)
                | Some params_bytes \<Rightarrow>
                    (case set_op CONSENSUS_PARAMS_KEY (message_from_bytes params_bytes) state of
                       (Ok _, state) \<Rightarrow> Ok (state, results)
                     | (Err e, _) \<Rightarrow> Err (GenesisFailed ''failed to store consensus params'' (Some e))
                     | (Panic, _) \<Rightarrow> Panic
                     | (OutOfFuel, _) \<Rightarrow> OutOfFuel)))
      | Err e \<Rightarrow> Err (GenesisFailed [] (Some e))
      | Panic \<Rightarrow> Panic
      | OutOfFuel \<Rightarrow> OutOfFuel)"

definition read_consensus_params :: "consensus_params borsh \<Rightarrow> readonly_kv \<Rightarrow> genesis_error + consensus_params" where
  "read_consensus_params B storage =
     (case storage CONSENSUS_PARAMS_KEY of
        Inl e \<Rightarrow> Inl (GenesisFailed ''failed to read consensus params'' (Some e))
      | Inr None \<Rightarrow> Inl (GenesisFailed ''consensus params not found in state'' None)
      | Inr (Some bs) \<Rightarrow>
          ok_or (GenesisFailed ''failed to deserialize consensus params'' None) (from_slice B bs))"

end
