(* ===== verification/Genesis_Props.thy ===== *)
theory Genesis_Props
  imports Genesis Storage_Backend
begin

text \<open>
  Facts on the genesis module: what validation accepts, how references are resolved, that
  specifications of accounts are printed and read back, and what running genesis does.
\<close>

section \<open>Validation\<close>

definition tx_refs :: "genesis_tx_json \<Rightarrow> string set" where
  "tx_refs tx = set_option (sender_ref (gj_sender tx)) \<union> set_option (recipient_ref (gj_recipient tx))"

primrec tx_ids :: "genesis_tx_json list \<Rightarrow> string list" where
  "tx_ids [] = []"
| "tx_ids (tx # txs) = (case gj_id tx of None \<Rightarrow> tx_ids txs | Some i \<Rightarrow> i # tx_ids txs)"

text \<open>Every transaction refers to identifiers seen before it or to its own.\<close>

primrec refs_seen :: "string set \<Rightarrow> genesis_tx_json list \<Rightarrow> bool" where
  "refs_seen D [] \<longleftrightarrow> True"
| "refs_seen D (tx # txs) \<longleftrightarrow>
     tx_refs tx \<subseteq> D \<union> set_option (gj_id tx) \<and> refs_seen (D \<union> set_option (gj_id tx)) txs"

lemma ex_le_Suc: "(\<exists>j\<le>Suc i. P j) \<longleftrightarrow> P 0 \<or> (\<exists>j\<le>i. P (Suc j))"
  using Ex_less_Suc2 [of "Suc i" P] by (simp only: less_Suc_eq_le)

lemma refs_seen_iff:
  "refs_seen D txs \<longleftrightarrow> (\<forall>i<length txs. \<forall>r\<in>tx_refs (txs ! i). r \<in> D \<or> (\<exists>j\<le>i. gj_id (txs ! j) = Some r))"
proof (induction txs arbitrary: D)
  case (Cons tx txs)
  have "refs_seen D (tx # txs) \<longleftrightarrow> (\<forall>r\<in>tx_refs tx. r \<in> D \<or> gj_id tx = Some r) \<and>
      (\<forall>i<length txs. \<forall>r\<in>tx_refs (txs ! i). (r \<in> D \<or> gj_id tx = Some r) \<or> (\<exists>j\<le>i. gj_id (txs ! j) = Some r))"
    unfolding refs_seen.simps Cons.IH by (cases "gj_id tx") auto
  then show ?case by (simp add: All_less_Suc2 ex_le_Suc)
qed simp

lemma check_ref_ok: "check_ref idx seen ref = Inr () \<longleftrightarrow> set_option ref \<subseteq> dom (hm_get seen)"
  by (auto simp: check_ref_def split: option.split)

lemma validate_loop_ok:
  "validate_loop idx txs seen = Inr () \<longleftrightarrow>
     distinct (tx_ids txs) \<and> set (tx_ids txs) \<inter> dom (hm_get seen) = {} \<and> refs_seen (dom (hm_get seen)) txs"
proof (induction txs arbitrary: idx seen)
  case (Cons tx txs)
  have split: "(bind_result (check_ref idx s r1) (\<lambda>_. bind_result (check_ref idx s r2) (\<lambda>_. k)) = Inr ()) \<longleftrightarrow>
      set_option r1 \<union> set_option r2 \<subseteq> dom (hm_get s) \<and> k = Inr ()" for s r1 r2 and k :: "genesis_error + unit"
    using check_ref_ok [of idx s r1] check_ref_ok [of idx s r2]
    by (cases "check_ref idx s r1"; cases "check_ref idx s r2") auto
  show ?case
  proof (cases "gj_id tx")
    case None
    then show ?thesis by (simp add: split Cons.IH tx_refs_def) blast
  next
    case (Some i)
    have "dom (hm_get (hm_insert i idx seen)) = insert i (dom (hm_get seen))" by (auto simp: update_conv')
    with Some show ?thesis
      by (cases "hm_get seen i") (auto simp: split Cons.IH tx_refs_def simp del: hm_get_insert)
  qed
qed simp

section \<open>Printing and reading specifications\<close>

lemma trim_hex: "set s \<subseteq> set hex_digits \<Longrightarrow> trim_start_matches_0x s = s"
  by (cases s rule: trim_start_matches_0x.cases) (auto simp: hex_digits_def)

lemma decode_encoded:
  assumes "hex_ok X" "length a = 32"
  shows "decode_account X (hex_encode X a) = Some a" "\<not> starts_with_dollar (hex_encode X a)"
    "length (hex_encode X a) = 64"
proof -
  from assms(1) have X: "hex_decode X (hex_encode X a) = Some a" "set (hex_encode X a) \<subseteq> set hex_digits"
    "length (hex_encode X a) = 2 * length a" by (simp_all add: hex_ok_def)
  from X(1,2) assms(2) show "decode_account X (hex_encode X a) = Some a" by (simp add: decode_account_def trim_hex)
  from X(2) show "\<not> starts_with_dollar (hex_encode X a)"
    by (cases "hex_encode X a") (auto simp: starts_with_dollar_def hex_digits_def)
  from X(3) assms(2) show "length (hex_encode X a) = 64" by simp
qed

lemma decode_account_length: "decode_account X s = Some a \<Longrightarrow> length a = 32"
  by (auto simp: decode_account_def split: option.splits if_splits)

lemma sender_normal:
  assumes "hex_ok X" "deserialize_sender X v = Inr spec"
  shows "deserialize_sender X (JString (serialize_sender X spec)) = Inr spec"
proof (cases spec)
  case (SenderAccountId a)
  with assms(2) have "length a = 32"
    by (cases "(X, v)" rule: deserialize_sender.cases)
      (auto simp: decode_account_length bind_result_def ok_or_def split: if_splits option.splits sum.splits)
  with decode_encoded [OF assms(1)] SenderAccountId show ?thesis by fastforce
qed (use assms(2) in \<open>cases "(X, v)" rule: deserialize_sender.cases;
    auto simp: bind_result_def ok_or_def split: if_splits option.splits sum.splits\<close>)+

lemma recipient_normal:
  assumes "hex_ok X" "deserialize_recipient X v = Inr spec"
  shows "deserialize_recipient X (JString (serialize_recipient X spec)) = Inr spec"
proof (cases spec)
  case (RecipientAccountId a)
  with assms(2) have "length a = 32"
    by (cases "(X, v)" rule: deserialize_recipient.cases)
      (auto simp: decode_account_length bind_result_def ok_or_def split: if_splits option.splits sum.splits)
  with decode_encoded [OF assms(1)] RecipientAccountId show ?thesis by fastforce
qed (use assms(2) in \<open>cases "(X, v)" rule: deserialize_recipient.cases;
    auto simp: bind_result_def ok_or_def split: if_splits option.splits sum.splits\<close>)+

section \<open>Resolved references\<close>

text \<open>The accounts known before a transaction.\<close>

primrec known_accounts ::
    "(string, account_id) hashmap \<Rightarrow> account_id \<Rightarrow> genesis_tx_json list \<Rightarrow> (string, account_id) hashmap" where
  "known_accounts m a [] = m"
| "known_accounts m a (tx # txs) =
     (case gj_id tx of None \<Rightarrow> known_accounts m a txs
      | Some i \<Rightarrow> known_accounts (hm_insert i a m) (account_increase a) txs)"

definition resolved_tx ::
    "hex_lib \<Rightarrow> (string \<Rightarrow> json \<Rightarrow> genesis_error + invoke_request) \<Rightarrow> nat \<Rightarrow> (string, account_id) hashmap \<Rightarrow>
       genesis_tx_json \<Rightarrow> genesis_tx \<Rightarrow> bool" where
  "resolved_tx X enc idx m tx gt \<longleftrightarrow> gt_id gt = gj_id tx \<and> resolve_sender X idx m (gj_sender tx) = Inr (gt_sender gt) \<and>
     resolve_recipient X idx m (gj_recipient tx) = Inr (gt_recipient gt) \<and>
     (\<exists>msg. resolve_references_in_value X m (gj_msg tx) = Inr msg \<and> enc (gj_msg_type tx) msg = Inr (gt_request gt))"

lemma to_transactions_loop_ok:
  "to_transactions_loop X enc idx txs m a = Inr gts \<Longrightarrow>
     length gts = length txs \<and>
     (\<forall>i<length txs. resolved_tx X enc (idx + i) (known_accounts m a (take i txs)) (txs ! i) (gts ! i))"
proof (induction txs arbitrary: idx m a gts)
  case (Cons tx txs)
  show ?case
  proof (cases "gj_id tx")
    case None
    with Cons.prems obtain src dst msg request rest where r: "resolve_sender X idx m (gj_sender tx) = Inr src"
      "resolve_recipient X idx m (gj_recipient tx) = Inr dst" "resolve_references_in_value X m (gj_msg tx) = Inr msg"
      "enc (gj_msg_type tx) msg = Inr request" "to_transactions_loop X enc (Suc idx) txs m a = Inr rest"
      and gts: "gts = genesis_tx_new src dst request # rest"
      by (auto simp: bind_result_Inr)
    from Cons.IH [OF r(5)] r(1-4) None show ?thesis
      by (simp add: gts All_less_Suc2 resolved_tx_def genesis_tx_new_def)
  next
    case (Some i)
    with Cons.prems obtain src dst msg request rest where r: "resolve_sender X idx m (gj_sender tx) = Inr src"
      "resolve_recipient X idx m (gj_recipient tx) = Inr dst" "resolve_references_in_value X m (gj_msg tx) = Inr msg"
      "enc (gj_msg_type tx) msg = Inr request"
      "to_transactions_loop X enc (Suc idx) txs (hm_insert i a m) (account_increase a) = Inr rest"
      and gts: "gts = genesis_tx_with_id i src dst request # rest"
      by (auto simp: bind_result_Inr)
    from Cons.IH [OF r(5)] r(1-4) Some show ?thesis
      by (simp add: gts All_less_Suc2 resolved_tx_def genesis_tx_with_id_def)
  qed
qed simp

lemma known_accounts_get:
  assumes "distinct (tx_ids txs)" "set (tx_ids txs) \<inter> dom (hm_get m) = {}" "i \<le> length txs"
    "hm_get (known_accounts m a (take i txs)) r = Some acc"
  shows "hm_get m r = Some acc \<or>
    (\<exists>j<i. gj_id (txs ! j) = Some r \<and> acc = (account_increase ^^ length (tx_ids (take j txs))) a)"
  using assms
proof (induction txs arbitrary: m a i)
  case (Cons tx txs)
  show ?case
  proof (cases i)
    case 0
    with Cons.prems(4) show ?thesis by simp
  next
    case (Suc k)
    show ?thesis
    proof (cases "gj_id tx")
      case None
      with Cons.prems Cons.IH [of m k a] Suc show ?thesis by (simp add: Ex_less_Suc2)
    next
      case (Some d)
      let ?m = "hm_insert d a m"
      from Cons.prems(1,2) Some have "distinct (tx_ids txs)" "set (tx_ids txs) \<inter> dom (hm_get ?m) = {}"
        by (auto simp: dom_def)
      from Cons.IH [OF this, of k "account_increase a"] Cons.prems(3,4) Suc Some
      have "hm_get ?m r = Some acc \<or> (\<exists>j<k. gj_id (txs ! j) = Some r \<and>
          acc = (account_increase ^^ length (tx_ids (take j txs))) (account_increase a))" by simp
      with Some Suc show ?thesis by (auto simp: Ex_less_Suc2 funpow_swap1 split: if_splits)
    qed
  qed
qed simp

section \<open>Running genesis\<close>

text \<open>The transactions executed one after the other by the runtime.\<close>

primrec exec_txs ::
    "host \<Rightarrow> account_codes \<Rightarrow> nat \<Rightarrow> ctx \<Rightarrow> genesis_tx list \<Rightarrow> (world, error_code, invoke_response list) comp" where
  "exec_txs H A n c [] = ret []"
| "exec_txs H A n c (tx # txs) =
     andThen (do_exec H A n c (gt_recipient tx) (gt_request tx) []) (\<lambda>r.
     andThen (exec_txs H A n c txs) (\<lambda>rs. ret (r # rs)))"

definition passed :: "nat \<Rightarrow> genesis_tx list \<Rightarrow> genesis_result list" where
  "passed idx txs = map (\<lambda>(i, tx). \<lparr>gr_index = i, gr_id = gt_id tx, gr_success = True, gr_error = None\<rparr>) (enumerate idx txs)"

lemma passed_simps [simp]:
  "passed idx [] = []"
  "passed idx (tx # txs) = \<lparr>gr_index = idx, gr_id = gt_id tx, gr_success = True, gr_error = None\<rparr> # passed (Suc idx) txs"
  by (simp_all add: passed_def)

lemma find_passed: "find (\<lambda>r. \<not> gr_success r) (passed idx txs @ rs) = find (\<lambda>r. \<not> gr_success r) rs"
  by (induction txs arbitrary: idx) simp_all

text \<open>The run of the closure: all transactions pass, or the first that fails ends it.\<close>

lemma genesis_action_run:
  assumes "run_in H A n c (genesis_action idx txs results) w = (Ok out, w')"
  shows "(\<exists>rs. exec_txs H A n c txs w = (Ok rs, w') \<and> out = results @ passed idx txs) \<or>
    (\<exists>i e rs w1. i < length txs \<and> exec_txs H A n c (take i txs) w = (Ok rs, w1) \<and>
       do_exec H A n c (gt_recipient (txs ! i)) (gt_request (txs ! i)) [] w1 = (Err e, w') \<and>
       out = results @ passed idx (take i txs) @
         [\<lparr>gr_index = idx + i, gr_id = gt_id (txs ! i), gr_success = False, gr_error = Some e\<rparr>])"
  using assms
proof (induction txs arbitrary: idx results w)
  case Nil
  then show ?case by (simp add: run_in_def lift_result_def ret_def)
next
  case (Cons tx txs)
  obtain o1 w1 where ex: "do_exec H A n c (gt_recipient tx) (gt_request tx) [] w = (o1, w1)" by fastforce
  let ?r = "\<lparr>gr_index = idx, gr_id = gt_id tx, gr_success = True, gr_error = None\<rparr>"
  consider r where "o1 = Ok r" "run_in H A n c (genesis_action (Suc idx) txs (results @ [?r])) w1 = (Ok out, w')"
    | e where "o1 = Err e" "w' = w1"
      "out = results @ [\<lparr>gr_index = idx, gr_id = gt_id tx, gr_success = False, gr_error = Some e\<rparr>]"
    using Cons.prems ex by (cases o1) (auto simp: run_in_def attempt_def lift_result_def Let_def)
  then show ?case
  proof cases
    case 1
    from Cons.IH [OF 1(2)] show ?thesis
    proof (elim disjE exE conjE)
      fix rs assume "exec_txs H A n c txs w1 = (Ok rs, w')" "out = (results @ [?r]) @ passed (Suc idx) txs"
      with 1(1) ex show ?thesis by (intro disjI1 exI [of _ "r # rs"]) (simp add: andThen_def ret_def)
    next
      fix i e rs w2
      assume "i < length txs" "exec_txs H A n c (take i txs) w1 = (Ok rs, w2)"
        "do_exec H A n c (gt_recipient (txs ! i)) (gt_request (txs ! i)) [] w2 = (Err e, w')"
        "out = (results @ [?r]) @ passed (Suc idx) (take i txs) @
           [\<lparr>gr_index = Suc idx + i, gr_id = gt_id (txs ! i), gr_success = False, gr_error = Some e\<rparr>]"
      with 1(1) ex show ?thesis
        by (intro disjI2 exI [of _ "Suc i"] exI [of _ e] exI [of _ "r # rs"] exI [of _ w2]) (simp add: andThen_def ret_def)
    qed
  next
    case 2
    with ex show ?thesis by (intro disjI2 exI [of _ 0]) (simp add: ret_def)
  qed
qed

end
