(* ===== verification/Genesis_Theorems.thy ===== *)
theory Genesis_Theorems
  imports Genesis_Props Storage_Access Reference_Host
begin

text \<open>The properties of the genesis module.\<close>

section \<open>Running genesis\<close>

abbreviation genesis_ctx :: ctx where
  "genesis_ctx \<equiv> new_for_begin_block \<lparr>bc_height = 0, bc_time = 0\<rparr>"

abbreviation genesis_world :: "readonly_kv \<Rightarrow> world" where
  "genesis_world storage \<equiv> \<lparr>w_state = exec_state_new storage, w_gas = Infinite\<rparr>"

text \<open>C38. Genesis is all or nothing. When it succeeds, its transactions have been executed by the runtime one
  after the other, all successfully, and the consensus parameters are written on top; when a
  transaction is reported as failed, exactly those before it have been executed and it is the first
  whose execution returned an error.\<close>

theorem genesis_runs_in_order:
  "(\<forall>s results. apply_genesis H A n B storage params txs = Ok (s, results) \<longrightarrow>
      results = passed 0 txs \<and>
      (\<exists>rs w bs. exec_txs H A n genesis_ctx txs (genesis_world storage) = (Ok rs, w) \<and> to_vec B params = Some bs \<and>
        set_op CONSENSUS_PARAMS_KEY (message_from_bytes bs) (snd (pop_events (w_state w))) = (Ok (), s))) \<and>
   (\<forall>i d e. apply_genesis H A n B storage params txs = Err (TransactionFailed i d e) \<longrightarrow>
      i < length txs \<and> d = gt_id (txs ! i) \<and>
      (\<exists>rs w1 w2 c. exec_txs H A n genesis_ctx (take i txs) (genesis_world storage) = (Ok rs, w1) \<and> e = Some c \<and>
        do_exec H A n genesis_ctx (gt_recipient (txs ! i)) (gt_request (txs ! i)) [] w1 = (Err c, w2)))"
proof -
  let ?run = "run_in H A n genesis_ctx (genesis_action 0 txs []) (genesis_world storage)"
  show ?thesis
  proof (cases "fst ?run")
    case (Ok out)
    then obtain w where run: "?run = (Ok out, w)" by (metis prod.collapse)
    from genesis_action_run [OF run] show ?thesis
    proof (elim disjE exE conjE)
      fix rs assume all: "exec_txs H A n genesis_ctx txs (genesis_world storage) = (Ok rs, w)" "out = [] @ passed 0 txs"
      with find_passed [of 0 txs "[]"] show ?thesis
        by (auto simp: apply_genesis_def system_exec_def system_exec_ctx_def run split: option.splits prod.splits outcome.splits)
    next
      fix i e rs w1
      assume "i < length txs" "exec_txs H A n genesis_ctx (take i txs) (genesis_world storage) = (Ok rs, w1)"
        "do_exec H A n genesis_ctx (gt_recipient (txs ! i)) (gt_request (txs ! i)) [] w1 = (Err e, w)"
        "out = [] @ passed 0 (take i txs) @
           [\<lparr>gr_index = 0 + i, gr_id = gt_id (txs ! i), gr_success = False, gr_error = Some e\<rparr>]"
      with find_passed [of 0 "take i txs"] show ?thesis
        by (simp add: apply_genesis_def system_exec_def system_exec_ctx_def run)
    qed
  qed (cases ?run, simp add: apply_genesis_def system_exec_def system_exec_ctx_def)+
qed

text \<open>A genesis of one write to the storage, by the runtime.\<close>

definition params_codec :: "consensus_params borsh" where
  "params_codec = struct_codec consensus_params_new cp_block_gas_limit (le_codec 8)"

lemma params_codec_ok: "borsh_ok (\<lambda>_. True) params_codec"
  unfolding params_codec_def
  by (rule struct_codec_ok [OF le_codec_ok]) (simp_all add: consensus_params_new_def)

definition example_write :: genesis_tx where
  "example_write = genesis_tx_new SYSTEM_ACCOUNT_ID STORAGE_ACCOUNT_ID
     (projr (invoke_request_new (StorageSetRequest reference_host) \<lparr>ss_key = [7], ss_value = OwnedBytes [9]\<rparr>))"

lemma example_genesis:
  obtains s results where "apply_genesis reference_host A 3 params_codec storage consensus_params_default [example_write] = Ok (s, results)"
proof -
  let ?H = reference_host and ?r = "\<lparr>ss_key = [7], ss_value = OwnedBytes [9]\<rparr>"
  have "storage_set_request_ok ?r"
    by (simp add: storage_set_request_ok_def vec_ok_def message_ok_len)
  then obtain req where req: "invoke_request_new (StorageSetRequest ?H) ?r = Inr req"
    "invoke_request_get (h_storage_set_request ?H) req = Inr ?r"
    "req_function req = FUNCTION_IDENTIFIER (StorageSetRequest ?H)"
    using borsh_ok_request [of storage_set_request_ok "StorageSetRequest ?H"] host_ok_storage(3) [OF reference_host_ok]
    by (metis StorageSetRequest_def invokable.select_convs(3))
  obtain resp where resp: "response_new (h_unit ?H) () = Inr resp"
    using borsh_ok_response [OF host_ok_storage(5) [OF reference_host_ok]] by blast
  have ample: "ample (Suc 1) (genesis_world storage)"
    by (simp add: ample_def exec_state_new_def MAX_OVERLAY_ENTRIES_def)
  have fits: "storage_fits (whoami genesis_ctx) (ss_key ?r) (ss_value ?r)" "call_depth genesis_ctx < MAX_CALL_DEPTH"
    by (simp_all add: storage_fits_def MAX_KEY_SIZE_def MAX_STORAGE_KEY_SIZE_def MAX_VALUE_SIZE_def MAX_CALL_DEPTH_def
        new_for_begin_block_def RUNTIME_ACCOUNT_ID_def)
  obtain w where w: "do_exec ?H A (Suc 2) genesis_ctx STORAGE_ACCOUNT_ID req [] (genesis_world storage) = (Ok resp, w)" "ample 1 w"
    using do_exec_set_ample [OF req(2,3) fits ample resp, of A 2] by blast
  obtain bs where bs: "to_vec params_codec consensus_params_default = Some bs" "length bs = 8"
    by (simp add: to_vec_def params_codec_def struct_codec_def le_codec_def)
  obtain s where "set_op CONSENSUS_PARAMS_KEY (message_from_bytes bs) (snd (pop_events (w_state w))) = (Ok (), s)"
    by (rule set_op_ample [of CONSENSUS_PARAMS_KEY "message_from_bytes bs" "snd (pop_events (w_state w))" 0])
      (use w(2) bs(2) in \<open>simp_all add: ample_def CONSENSUS_PARAMS_KEY_def str_bytes_def MAX_KEY_SIZE_def
        MAX_STORAGE_KEY_SIZE_def MAX_VALUE_SIZE_def message_from_bytes_def pop_events_def\<close>)
  with w(1) bs(1) req(1) show ?thesis
    by (intro that) (simp add: apply_genesis_def system_exec_def system_exec_ctx_def run_in_def example_write_def
        genesis_tx_new_def attempt_def lift_result_def Let_def numeral_3_eq_3 numeral_2_eq_2 del: do_exec.simps)
qed

theorem genesis_runs_in_order_witness:
  "\<exists>s results. apply_genesis reference_host (\<lambda>_. Inr None) 3 params_codec (\<lambda>_. Inr None) consensus_params_default [example_write]
       = Ok (s, results) \<and> results = [\<lparr>gr_index = 0, gr_id = None, gr_success = True, gr_error = None\<rparr>]"
proof -
  obtain s results where run: "apply_genesis reference_host (\<lambda>_. Inr None) 3 params_codec (\<lambda>_. Inr None)
      consensus_params_default [example_write] = Ok (s, results)" by (rule example_genesis)
  with genesis_runs_in_order [of reference_host "\<lambda>_. Inr None" 3 params_codec "\<lambda>_. Inr None" consensus_params_default "[example_write]"]
  have "results = passed 0 [example_write]" by blast
  with run show ?thesis by (simp add: example_write_def genesis_tx_new_def)
qed

text \<open>C39. What genesis stores is what a syncing node reads: after the changes of a successful genesis have been
  written to the storage, reading the consensus parameters returns those genesis was given.\<close>

theorem genesis_params_readable:
  assumes "storage_backend SO ok holds fits" "ok s0" "fits CONSENSUS_PARAMS_KEY"
    and "borsh_ok D B" "D params"
    and "apply_genesis H A n B (so_get SO s0) params txs = Ok (s, results)" "into_changes s = Inr changes"
    and "so_batch SO (state_changes_to_operations changes) s0 = (Inr u, s1)"
  shows "read_consensus_params B (so_get SO s1) = Inr params"
proof -
  from assms(6) obtain out w bs where run: "run_in H A n genesis_ctx (genesis_action 0 txs []) (genesis_world (so_get SO s0)) = (Ok out, w)"
    and bs: "to_vec B params = Some bs"
    and st: "set_op CONSENSUS_PARAMS_KEY (message_from_bytes bs) (snd (pop_events (w_state w))) = (Ok (), s)"
    by (auto simp: apply_genesis_def system_exec_def system_exec_ctx_def split: prod.splits outcome.splits option.splits)
  have "phase_relation (genesis_world (so_get SO s0)) w"
    using keepsD [OF phase_run_in [of H A n genesis_ctx "genesis_action 0 txs []"], of "genesis_world (so_get SO s0)"] run by simp
  then have wf: "exec_state_wf (w_state w)" "base_storage (w_state w) = so_get SO s0"
    by (simp_all add: phase_relation_def exec_state_new_wf(1)) (simp add: exec_state_new_def)
  with st have "exec_state_wf s" "base_storage s = so_get SO s0"
    using exec_state_wf_set [of "snd (pop_events (w_state w))"] rollbackable_set [of "snd (pop_events (w_state w))"]
    by (auto simp: exec_state_wf_pop rollbackable_def pop_events_base) (metis exec_state_wf_pop snd_conv)+
  moreover from set_op_logical [OF st] have "logical_get s CONSENSUS_PARAMS_KEY = Inr (Some (message_from_bytes bs))" by simp
  ultimately have "map_option message_from_bytes (holds s1 CONSENSUS_PARAMS_KEY) = Some (message_from_bytes bs)"
    using storage_backend.changes_written [OF assms(1,2) _ _ assms(7,8)] by (metis exec_state_wf_def overlay_wf_def)
  then have "holds s1 CONSENSUS_PARAMS_KEY = Some bs" by (auto simp: message_from_bytes_def)
  then have "so_get SO s1 CONSENSUS_PARAMS_KEY = Inr (Some bs)"
    using storage_backend.get_fits [OF assms(1)] storage_backend.batch_done [OF assms(1,2,8)] assms(3) by simp
  moreover from assms(4,5) bs have "from_slice B bs = Some params" by (rule borsh_ok_from_slice)
  ultimately show ?thesis by (simp add: read_consensus_params_def)
qed

theorem genesis_params_readable_witness:
  "\<exists>s results changes s1. apply_genesis reference_host (\<lambda>_. Inr None) 3 params_codec (mock_storage_get []) consensus_params_default
       [example_write] = Ok (s, results) \<and> into_changes s = Inr changes \<and>
     mock_storage_batch (state_changes_to_operations changes) [] = (Inr (), s1) \<and>
     read_consensus_params params_codec (mock_storage_get s1) = Inr \<lparr>cp_block_gas_limit = 30000000\<rparr>"
proof -
  obtain s results where run: "apply_genesis reference_host (\<lambda>_. Inr None) 3 params_codec (so_get mock_storage_ops [])
      consensus_params_default [example_write] = Ok (s, results)" by (rule example_genesis)
  obtain changes where cs: "into_changes s = Inr changes" by (simp add: into_changes_eq)
  obtain s1 where b: "so_batch mock_storage_ops (state_changes_to_operations changes) [] = (Inr (), s1)"
    by (simp add: mock_storage_batch_def)
  have "read_consensus_params params_codec (so_get mock_storage_ops s1) = Inr consensus_params_default"
    by (rule genesis_params_readable [OF mock_sb.storage_backend_axioms _ _ params_codec_ok _ run cs b]) simp_all
  with run cs b show ?thesis by (auto simp: consensus_params_default_def DEFAULT_BLOCK_GAS_LIMIT_def)
qed

section \<open>References\<close>

text \<open>Validation accepts exactly the files whose identifiers are distinct and whose sender and recipient
  references name the identifier of an earlier transaction or of the transaction itself.\<close>

theorem genesis_validate_exact:
  "genesis_validate gf = Inr () \<longleftrightarrow> distinct (tx_ids (gf_transactions gf)) \<and>
     (\<forall>i<length (gf_transactions gf). \<forall>r\<in>tx_refs (gf_transactions gf ! i).
        \<exists>j\<le>i. gj_id (gf_transactions gf ! j) = Some r)"
  by (simp add: genesis_validate_def validate_loop_ok refs_seen_iff)


text \<open>A file whose second transaction is sent to the account of the first.\<close>

fun hex_pairs :: "string \<Rightarrow> bytes option" where
  "hex_pairs [] = Some []"
| "hex_pairs [c] = None"
| "hex_pairs (a # b # s) =
     (case (map_of (zip hex_digits [0..<16]) a, map_of (zip hex_digits [0..<16]) b, hex_pairs s) of
        (Some x, Some y, Some bs) \<Rightarrow> Some (of_nat (16 * x + y) # bs)
      | _ \<Rightarrow> None)"

definition reference_hex :: hex_lib where
  "reference_hex = \<lparr>hex_encode = \<lambda>bs. concat (map (\<lambda>b. [hex_digits ! (unat b div 16), hex_digits ! (unat b mod 16)]) bs),
     hex_decode = hex_pairs\<rparr>"

lemma hex_digit: "n < 16 \<Longrightarrow> map_of (zip hex_digits [0..<16]) (hex_digits ! n) = Some n"
  using map_of_zip_nth [of hex_digits "[0..<16]" n] by (simp add: hex_digits_def)

lemma reference_hex_ok: "hex_ok reference_hex"
proof -
  have len: "length hex_digits = 16" by (simp add: hex_digits_def)
  have nib: "unat b div 16 < 16" "unat b mod 16 < 16" for b :: u8
    using unat_lt_exp [of b] by (simp_all add: less_mult_imp_div_less)
  have b: "(of_nat (16 * (unat b div 16) + unat b mod 16) :: u8) = b" for b :: u8
    by (simp only: mult_div_mod_eq) simp
  have "hex_decode reference_hex (hex_encode reference_hex bs) = Some bs \<and>
      set (hex_encode reference_hex bs) \<subseteq> set hex_digits \<and> length (hex_encode reference_hex bs) = 2 * length bs" for bs
  proof (induction bs)
    case (Cons c bs)
    from Cons.IH nib [of c] b [of c] show ?case
      by (auto simp: reference_hex_def hex_digit len)
  qed (simp add: reference_hex_def)
  then show ?thesis by (simp add: hex_ok_def)
qed



section \<open>Specifications of accounts\<close>

text \<open>A sender or recipient specification read from a file is printed to a string that reads back as the
  same specification.\<close>

theorem account_spec_roundtrip:
  assumes "hex_ok X"
  shows "(deserialize_sender X v = Inr sp \<longrightarrow> deserialize_sender X (JString (serialize_sender X sp)) = Inr sp) \<and>
    (deserialize_recipient X v = Inr rp \<longrightarrow> deserialize_recipient X (JString (serialize_recipient X rp)) = Inr rp)"
  using sender_normal [OF assms] recipient_normal [OF assms] by blast

theorem account_spec_roundtrip_witness:
  "deserialize_sender reference_hex (JString (serialize_sender reference_hex (SenderAccountId (account_from_u64 7)))) =
     Inr (SenderAccountId (account_from_u64 7))"
  using account_spec_roundtrip [OF reference_hex_ok, of "JNumber (PosInt 7)" "SenderAccountId (account_from_u64 7)"]
  by (simp add: ok_or_def)

end
