(* ===== verification/Eth_Tx.thy ===== *)
theory Eth_Tx
  imports Sdk_Env
begin

text \<open>
  Ethereum transactions (\<open>crates/app/tx/eth/src\<close>): the identities derived from addresses
  (\<open>traits.rs\<close>), signed legacy and EIP-1559 transactions with sender recovery (\<open>ethereum/\<close>), the typed
  envelope (\<open>envelope.rs\<close>), the decoder (\<open>decoder.rs\<close>) and the registry of signature verifiers
  (\<open>verifier/\<close>). The transaction types of the \<open>alloy\<close> library are records of the fields the code
  reads; the library's RLP coding and hashes and the secp256k1 recovery are the record \<open>alloy\<close>.
\<close>

section \<open>Errors\<close>

definition ERR_INVALID_SIGNATURE :: error_code where "ERR_INVALID_SIGNATURE = define_error 0x10"
definition ERR_SIGNATURE_RECOVERY :: error_code where "ERR_SIGNATURE_RECOVERY = define_error 0x11"
definition ERR_INVALID_CHAIN_ID :: error_code where "ERR_INVALID_CHAIN_ID = define_error 0x12"
definition ERR_UNSUPPORTED_TX_TYPE :: error_code where "ERR_UNSUPPORTED_TX_TYPE = define_error 0x13"
definition ERR_TX_DECODE :: error_code where "ERR_TX_DECODE = define_error 0x14"
definition ERR_EMPTY_INPUT :: error_code where "ERR_EMPTY_INPUT = define_error 0x15"
definition ERR_SENDER_MISMATCH :: error_code where "ERR_SENDER_MISMATCH = define_error 0x17"
definition ERR_NONCE_TOO_LOW :: error_code where "ERR_NONCE_TOO_LOW = define_error 0x18"
definition ERR_NONCE_TOO_HIGH :: error_code where "ERR_NONCE_TOO_HIGH = define_error 0x19"
definition ERR_UNSUPPORTED_SENDER_TYPE :: error_code where "ERR_UNSUPPORTED_SENDER_TYPE = define_error 0x1A"
definition ERR_NONCE_OVERFLOW :: error_code where "ERR_NONCE_OVERFLOW = define_error 0x1B"
definition ERR_RECIPIENT_REQUIRED :: error_code where "ERR_RECIPIENT_REQUIRED = define_error 0x50"
definition ERR_ADDRESS_ACCOUNT_CONFLICT :: error_code where "ERR_ADDRESS_ACCOUNT_CONFLICT = define_error 0x5A"

section \<open>Identities\<close>

text \<open>Addresses are strings of 20 bytes, hashes of 32.\<close>

type_synonym address = bytes
type_synonym b256 = bytes
type_synonym u256 = "256 word"

definition DOMAIN_EOA_ETH_V1 :: bytes where "DOMAIN_EOA_ETH_V1 = str_bytes ''eoa:eth:v1''"
definition DOMAIN_CONTRACT_RUNTIME_V1 :: bytes where "DOMAIN_CONTRACT_RUNTIME_V1 = str_bytes ''contract:runtime:v1''"
definition DOMAIN_SYSTEM_V1 :: bytes where "DOMAIN_SYSTEM_V1 = str_bytes ''system:v1''"
definition DOMAIN_CONTRACT_ADDR_RUNTIME_V1 :: bytes where
  "DOMAIN_CONTRACT_ADDR_RUNTIME_V1 = str_bytes ''contract:addr:runtime:v1''"

definition derive_account_id :: "host \<Rightarrow> bytes \<Rightarrow> bytes \<Rightarrow> account_id" where
  "derive_account_id H domain_tag payload = h_keccak256 H (domain_tag @ payload)"

definition derive_eth_eoa_account_id :: "host \<Rightarrow> address \<Rightarrow> account_id" where
  "derive_eth_eoa_account_id H addr = derive_account_id H DOMAIN_EOA_ETH_V1 addr"

definition derive_runtime_contract_account_id :: "host \<Rightarrow> bytes \<Rightarrow> account_id" where
  "derive_runtime_contract_account_id H creation_entropy = derive_account_id H DOMAIN_CONTRACT_RUNTIME_V1 creation_entropy"

definition derive_system_account_id :: "host \<Rightarrow> string \<Rightarrow> account_id" where
  "derive_system_account_id H module_name = derive_account_id H DOMAIN_SYSTEM_V1 (str_bytes module_name)"

definition derive_runtime_contract_address :: "host \<Rightarrow> account_id \<Rightarrow> address" where
  "derive_runtime_contract_address H account =
     take 20 (drop 12 (h_keccak256 H (DOMAIN_CONTRACT_ADDR_RUNTIME_V1 @ account)))"

section \<open>The alloy library\<close>

record signature =
  sg_r :: u256
  sg_s :: u256
  sg_v :: bool

record tx_legacy =
  tl_chain_id :: "u64 option"
  tl_nonce :: u64
  tl_gas_price :: u128
  tl_gas_limit :: u64
  tl_to :: "address option"
  tl_value :: u256
  tl_input :: bytes

record tx_eip1559 =
  tf_chain_id :: u64
  tf_nonce :: u64
  tf_gas_limit :: u64
  tf_max_fee_per_gas :: u128
  tf_max_priority_fee_per_gas :: u128
  tf_to :: "address option"
  tf_value :: u256
  tf_access_list :: "(address \<times> b256 list) list"
  tf_input :: bytes

record 't signed =
  sd_tx :: 't
  sd_signature :: signature

text \<open>
  Per kind of transaction: \<open>Signed::rlp_decode\<close>, which reads from the front of the input,
  \<open>rlp_encode\<close>, \<open>signature_hash\<close> and \<open>hash\<close>. \<open>al_recover\<close> is the recovery of the uncompressed public key
  (65 bytes) from a compact signature, a recovery id and a digest, \<open>None\<close> where secp256k1 refuses.
\<close>

record 't alloy_tx =
  al_decode :: "bytes \<Rightarrow> ('t signed \<times> bytes) option"
  al_encode :: "'t signed \<Rightarrow> bytes"
  al_signature_hash :: "'t signed \<Rightarrow> b256"
  al_hash :: "'t signed \<Rightarrow> b256"

record alloy =
  al_legacy :: "tx_legacy alloy_tx"
  al_eip1559 :: "tx_eip1559 alloy_tx"
  al_recover :: "bytes \<Rightarrow> nat \<Rightarrow> b256 \<Rightarrow> bytes option"

text \<open>What RLP promises: a decoder reads back what the encoder wrote and leaves the rest, consumes a
  prefix of its input, and a transaction is a list, whose first byte is at least \<open>0xc0\<close>.\<close>

definition alloy_tx_ok :: "'t alloy_tx \<Rightarrow> bool" where
  "alloy_tx_ok X \<longleftrightarrow>
     (\<forall>s rest. al_decode X (al_encode X s @ rest) = Some (s, rest)) \<and>
     (\<forall>s. al_encode X s \<noteq> [] \<and> hd (al_encode X s) \<ge> 0xc0) \<and>
     (\<forall>b s rest. al_decode X b = Some (s, rest) \<longrightarrow> (\<exists>pre. b = pre @ rest))"

definition alloy_ok :: "alloy \<Rightarrow> bool" where
  "alloy_ok L \<longleftrightarrow> alloy_tx_ok (al_legacy L) \<and> alloy_tx_ok (al_eip1559 L)"

section \<open>Signed transactions\<close>

definition recover_sender_from_signature_hash :: "host \<Rightarrow> alloy \<Rightarrow> b256 \<Rightarrow> signature \<Rightarrow> error_code + address" where
  "recover_sender_from_signature_hash H L signature_hash sg =
     (let compact = be_bytes 32 (sg_r sg) @ be_bytes 32 (sg_s sg);
          recid = (if sg_v sg then 1 else 0)
      in case al_recover L compact recid signature_hash of
           None \<Rightarrow> Inl ERR_SIGNATURE_RECOVERY
         | Some uncompressed \<Rightarrow> Inr (drop 12 (h_keccak256 H (drop 1 uncompressed))))"

text \<open>\<open>SignedLegacyTx\<close> and \<open>SignedEip1559Tx\<close>.\<close>

record 't signed_tx =
  st_inner :: "'t signed"
  st_sender :: address
  st_hash :: b256

definition tx_type_LEGACY :: u8 where "tx_type_LEGACY = 0x00"
definition tx_type_EIP2930 :: u8 where "tx_type_EIP2930 = 0x01"
definition tx_type_EIP1559 :: u8 where "tx_type_EIP1559 = 0x02"
definition tx_type_EIP4844 :: u8 where "tx_type_EIP4844 = 0x03"

definition legacy_from_alloy_with_bytes ::
    "host \<Rightarrow> alloy \<Rightarrow> tx_legacy signed \<Rightarrow> bytes \<Rightarrow> error_code + tx_legacy signed_tx" where
  "legacy_from_alloy_with_bytes H L sd raw_bytes =
     bind_result (recover_sender_from_signature_hash H L (al_signature_hash (al_legacy L) sd) (sd_signature sd)) (\<lambda>sender.
     Inr \<lparr>st_inner = sd, st_sender = sender, st_hash = h_keccak256 H raw_bytes\<rparr>)"

definition legacy_from_alloy :: "host \<Rightarrow> alloy \<Rightarrow> tx_legacy signed \<Rightarrow> error_code + tx_legacy signed_tx" where
  "legacy_from_alloy H L sd =
     bind_result (recover_sender_from_signature_hash H L (al_signature_hash (al_legacy L) sd) (sd_signature sd)) (\<lambda>sender.
     Inr \<lparr>st_inner = sd, st_sender = sender, st_hash = al_hash (al_legacy L) sd\<rparr>)"

definition eip1559_from_alloy_with_bytes ::
    "host \<Rightarrow> alloy \<Rightarrow> tx_eip1559 signed \<Rightarrow> bytes \<Rightarrow> error_code + tx_eip1559 signed_tx" where
  "eip1559_from_alloy_with_bytes H L sd rlp_bytes =
     bind_result (recover_sender_from_signature_hash H L (al_signature_hash (al_eip1559 L) sd) (sd_signature sd)) (\<lambda>sender.
     Inr \<lparr>st_inner = sd, st_sender = sender, st_hash = h_keccak256 H (tx_type_EIP1559 # rlp_bytes)\<rparr>)"

definition eip1559_from_alloy :: "host \<Rightarrow> alloy \<Rightarrow> tx_eip1559 signed \<Rightarrow> error_code + tx_eip1559 signed_tx" where
  "eip1559_from_alloy H L sd =
     bind_result (recover_sender_from_signature_hash H L (al_signature_hash (al_eip1559 L) sd) (sd_signature sd)) (\<lambda>sender.
     Inr \<lparr>st_inner = sd, st_sender = sender, st_hash = al_hash (al_eip1559 L) sd\<rparr>)"

text \<open>Calldata as a request: a selector of four bytes, then the message.\<close>

definition invoke_request_from_input :: "bytes \<Rightarrow> invoke_request" where
  "invoke_request_from_input input =
     (let (function_id, args) =
        (if length input \<ge> 4 then (of_nat (be_val (take 4 input)) :: u64, drop 4 input) else (0, input))
      in invoke_request_new_from_message ''eth_dispatch'' function_id (message_from_bytes args))"

section \<open>The envelope\<close>

datatype tx_envelope = Legacy "tx_legacy signed_tx" | Eip1559 "tx_eip1559 signed_tx"

definition envelope_encode :: "alloy \<Rightarrow> tx_envelope \<Rightarrow> bytes" where
  "envelope_encode L e = (case e of
     Legacy tx \<Rightarrow> al_encode (al_legacy L) (st_inner tx)
   | Eip1559 tx \<Rightarrow> tx_type_EIP1559 # al_encode (al_eip1559 L) (st_inner tx))"

definition envelope_decode_from :: "host \<Rightarrow> alloy \<Rightarrow> bytes \<Rightarrow> error_code + tx_envelope \<times> bytes" where
  "envelope_decode_from H L input =
     (if input = [] then Inl ERR_EMPTY_INPUT
      else let first_byte = hd input in
      if first_byte \<ge> 0xc0 then
        (case al_decode (al_legacy L) input of
           None \<Rightarrow> Inl ERR_TX_DECODE
         | Some (sd, cursor) \<Rightarrow>
             let consumed = length input - length cursor in
             bind_result (legacy_from_alloy_with_bytes H L sd (take consumed input)) (\<lambda>tx.
             Inr (Legacy tx, drop consumed input)))
      else if first_byte = tx_type_LEGACY then
        Inl (error_new_with_arg (err_id ERR_UNSUPPORTED_TX_TYPE) (ucast tx_type_LEGACY))
      else if first_byte = tx_type_EIP1559 then
        let payload = drop 1 input in
        (case al_decode (al_eip1559 L) payload of
           None \<Rightarrow> Inl ERR_TX_DECODE
         | Some (sd, cursor) \<Rightarrow>
             let consumed = length payload - length cursor in
             bind_result (eip1559_from_alloy_with_bytes H L sd (take consumed payload)) (\<lambda>tx.
             Inr (Eip1559 tx, drop (1 + consumed) input)))
      else Inl (error_new_with_arg (err_id ERR_UNSUPPORTED_TX_TYPE) (ucast first_byte)))"

definition envelope_decode :: "host \<Rightarrow> alloy \<Rightarrow> bytes \<Rightarrow> error_code + tx_envelope" where
  "envelope_decode H L bs =
     bind_result (envelope_decode_from H L bs) (\<lambda>(tx, input).
     if input \<noteq> [] then Inl ERR_TX_DECODE else Inr tx)"

definition envelope_tx_type :: "tx_envelope \<Rightarrow> u8" where
  "envelope_tx_type e = (case e of Legacy _ \<Rightarrow> tx_type_LEGACY | Eip1559 _ \<Rightarrow> tx_type_EIP1559)"

definition envelope_sender :: "tx_envelope \<Rightarrow> address" where
  "envelope_sender e = (case e of Legacy tx \<Rightarrow> st_sender tx | Eip1559 tx \<Rightarrow> st_sender tx)"

definition envelope_tx_hash :: "tx_envelope \<Rightarrow> b256" where
  "envelope_tx_hash e = (case e of Legacy tx \<Rightarrow> st_hash tx | Eip1559 tx \<Rightarrow> st_hash tx)"

definition envelope_gas_limit :: "tx_envelope \<Rightarrow> u64" where
  "envelope_gas_limit e = (case e of
     Legacy tx \<Rightarrow> tl_gas_limit (sd_tx (st_inner tx)) | Eip1559 tx \<Rightarrow> tf_gas_limit (sd_tx (st_inner tx)))"

definition envelope_chain_id :: "tx_envelope \<Rightarrow> u64 option" where
  "envelope_chain_id e = (case e of
     Legacy tx \<Rightarrow> tl_chain_id (sd_tx (st_inner tx)) | Eip1559 tx \<Rightarrow> Some (tf_chain_id (sd_tx (st_inner tx))))"

definition envelope_nonce :: "tx_envelope \<Rightarrow> u64" where
  "envelope_nonce e = (case e of
     Legacy tx \<Rightarrow> tl_nonce (sd_tx (st_inner tx)) | Eip1559 tx \<Rightarrow> tf_nonce (sd_tx (st_inner tx)))"

definition envelope_to :: "tx_envelope \<Rightarrow> address option" where
  "envelope_to e = (case e of
     Legacy tx \<Rightarrow> tl_to (sd_tx (st_inner tx)) | Eip1559 tx \<Rightarrow> tf_to (sd_tx (st_inner tx)))"

definition envelope_value :: "tx_envelope \<Rightarrow> u256" where
  "envelope_value e = (case e of
     Legacy tx \<Rightarrow> tl_value (sd_tx (st_inner tx)) | Eip1559 tx \<Rightarrow> tf_value (sd_tx (st_inner tx)))"

definition envelope_input :: "tx_envelope \<Rightarrow> bytes" where
  "envelope_input e = (case e of
     Legacy tx \<Rightarrow> tl_input (sd_tx (st_inner tx)) | Eip1559 tx \<Rightarrow> tf_input (sd_tx (st_inner tx)))"

definition envelope_to_invoke_requests :: "tx_envelope \<Rightarrow> invoke_request list" where
  "envelope_to_invoke_requests e =
     (if envelope_to e = None then [] else [invoke_request_from_input (envelope_input e)])"

definition envelope_sender_account_id :: "host \<Rightarrow> tx_envelope \<Rightarrow> account_id" where
  "envelope_sender_account_id H e = derive_eth_eoa_account_id H (envelope_sender e)"

definition envelope_recipient_account_id :: "host \<Rightarrow> tx_envelope \<Rightarrow> account_id option" where
  "envelope_recipient_account_id H e = map_option (derive_eth_eoa_account_id H) (envelope_to e)"

section \<open>The decoder\<close>

type_synonym typed_tx_decoder = "u8 set"

definition decoder_ethereum :: typed_tx_decoder where
  "decoder_ethereum = insert tx_type_EIP1559 (insert tx_type_LEGACY {})"

definition decoder_with_types :: "u8 list \<Rightarrow> typed_tx_decoder" where
  "decoder_with_types types = set types"

definition decoder_permissive :: typed_tx_decoder where
  "decoder_permissive = set (map of_nat [0..<256])"

definition allow_type :: "u8 \<Rightarrow> typed_tx_decoder \<Rightarrow> typed_tx_decoder" where
  "allow_type tx_type d = insert tx_type d"

definition is_allowed :: "typed_tx_decoder \<Rightarrow> u8 \<Rightarrow> bool" where
  "is_allowed d tx_type \<longleftrightarrow> tx_type \<in> d"

definition decoder_decode :: "host \<Rightarrow> alloy \<Rightarrow> typed_tx_decoder \<Rightarrow> bytes \<Rightarrow> error_code + tx_envelope \<times> bytes" where
  "decoder_decode H L d bs =
     bind_result (envelope_decode_from H L bs) (\<lambda>(tx, input).
     if envelope_tx_type tx \<notin> d
     then Inl (error_new_with_arg (err_id ERR_UNSUPPORTED_TX_TYPE) (ucast (envelope_tx_type tx)))
     else Inr (tx, input))"

section \<open>Payloads and their verifiers\<close>

datatype tx_payload = EoaPayload tx_envelope | CustomPayload bytes

record eth_intent_payload =
  ei_envelope :: bytes
  ei_auth_proof :: bytes

definition intent_decode_envelope :: "host \<Rightarrow> alloy \<Rightarrow> eth_intent_payload \<Rightarrow> error_code + tx_envelope" where
  "intent_decode_envelope H L p = envelope_decode H L (ei_envelope p)"

definition EOA_SECP256K1 :: u16 where "EOA_SECP256K1 = 0x0001"
definition CUSTOM :: u16 where "CUSTOM = 0x8000"

record ecdsa_verifier =
  ev_chain_id :: u64
  ev_require_chain_id :: bool

definition ecdsa_new :: "u64 \<Rightarrow> ecdsa_verifier" where
  "ecdsa_new chain_id = \<lparr>ev_chain_id = chain_id, ev_require_chain_id = True\<rparr>"

definition ecdsa_new_permissive :: "u64 \<Rightarrow> ecdsa_verifier" where
  "ecdsa_new_permissive chain_id = \<lparr>ev_chain_id = chain_id, ev_require_chain_id = False\<rparr>"

definition verify_chain_id :: "ecdsa_verifier \<Rightarrow> u64 option \<Rightarrow> error_code + unit" where
  "verify_chain_id v tx_chain_id = (case tx_chain_id of
     Some i \<Rightarrow> if i = ev_chain_id v then Inr () else Inl ERR_INVALID_CHAIN_ID
   | None \<Rightarrow> if ev_require_chain_id v then Inl ERR_INVALID_CHAIN_ID else Inr ())"

definition ecdsa_verify_signature :: "ecdsa_verifier \<Rightarrow> tx_envelope \<Rightarrow> error_code + unit" where
  "ecdsa_verify_signature v tx = verify_chain_id v (envelope_chain_id tx)"

type_synonym payload_verifier = "tx_payload \<Rightarrow> error_code + unit"

definition eoa_payload_verify :: "(tx_envelope \<Rightarrow> error_code + unit) \<Rightarrow> payload_verifier" where
  "eoa_payload_verify inner payload = (case payload of
     EoaPayload tx \<Rightarrow> inner tx
   | CustomPayload _ \<Rightarrow> Inl ERR_INVALID_SIGNATURE)"

type_synonym verifier_registry = "(u16, payload_verifier) hashmap"

definition register_dyn :: "u16 \<Rightarrow> payload_verifier \<Rightarrow> verifier_registry \<Rightarrow> verifier_registry" where
  "register_dyn st v r = hm_insert st v r"

definition register_eoa :: "u16 \<Rightarrow> (tx_envelope \<Rightarrow> error_code + unit) \<Rightarrow> verifier_registry \<Rightarrow> verifier_registry" where
  "register_eoa st v r = register_dyn st (eoa_payload_verify v) r"

definition registry_ethereum :: "u64 \<Rightarrow> verifier_registry" where
  "registry_ethereum chain_id = register_eoa EOA_SECP256K1 (ecdsa_verify_signature (ecdsa_new chain_id)) []"

definition verify_payload :: "verifier_registry \<Rightarrow> u16 \<Rightarrow> tx_payload \<Rightarrow> error_code + unit" where
  "verify_payload r st payload =
     bind_result (ok_or (error_new_with_arg (err_id ERR_UNSUPPORTED_SENDER_TYPE) st) (hm_get r st)) (\<lambda>verifier.
     verifier payload)"

definition registry_supports :: "verifier_registry \<Rightarrow> u16 \<Rightarrow> bool" where
  "registry_supports r st \<longleftrightarrow> hm_get r st \<noteq> None"

end
