(* ===== verification/Eth_Context.thy ===== *)
theory Eth_Context
  imports Eth_Tx Mempool Stf
begin

text \<open>
  The transaction context of the Ethereum transactions (\<open>crates/app/tx/eth/src\<close>): the registry of
  addresses and accounts kept in the storage of the runtime account (\<open>eoa_registry.rs\<close>), the context
  itself with its wire format and its view as a transaction of the pool and of the state transition
  function (\<open>mempool.rs\<close>), and the gateway that decodes and verifies what arrives (\<open>gateway.rs\<close>).
  \<open>eth_codecs\<close> holds the Borsh codecs of the types declared here.
\<close>

section \<open>The wire format\<close>

definition TX_CONTEXT_WIRE_MAGIC :: bytes where "TX_CONTEXT_WIRE_MAGIC = str_bytes ''ctx1''"

datatype tx_payload_wire = EoaWire bytes | CustomWire bytes

record tx_context_wire =
  wi_sender_type :: u16
  wi_payload :: tx_payload_wire
  wi_tx_hash :: b256
  wi_gas_limit :: u64
  wi_nonce :: u64
  wi_chain_id :: "u64 option"
  wi_effective_gas_price :: u128
  wi_invoke_request :: invoke_request
  wi_funds :: "fungible_asset list"
  wi_sender_account :: account_id
  wi_recipient_account :: "account_id option"
  wi_sender_key :: bytes
  wi_authentication_payload :: message
  wi_sender_eth_address :: "address option"
  wi_recipient_eth_address :: "address option"

record eth_codecs =
  ec_address :: "address borsh"
  ec_wire :: "tx_context_wire borsh"
  ec_intent :: "eth_intent_payload borsh"

section \<open>The registry of addresses\<close>

definition EOA_ADDR_TO_ID_PREFIX :: bytes where "EOA_ADDR_TO_ID_PREFIX = str_bytes ''registry/eoa/eth/a2i/''"
definition EOA_ID_TO_ADDR_PREFIX :: bytes where "EOA_ID_TO_ADDR_PREFIX = str_bytes ''registry/eoa/eth/i2a/''"
definition CONTRACT_ADDR_TO_ID_PREFIX :: bytes where
  "CONTRACT_ADDR_TO_ID_PREFIX = str_bytes ''registry/contract/runtime/a2i/''"
definition CONTRACT_ID_TO_ADDR_PREFIX :: bytes where
  "CONTRACT_ID_TO_ADDR_PREFIX = str_bytes ''registry/contract/runtime/i2a/''"
definition ETH_EOA_CODE_ID :: string where "ETH_EOA_CODE_ID = ''EthEoaAccount''"

definition addr_to_id_key :: "address \<Rightarrow> bytes" where
  "addr_to_id_key a = EOA_ADDR_TO_ID_PREFIX @ a"

definition id_to_addr_key :: "account_id \<Rightarrow> bytes" where
  "id_to_addr_key i = EOA_ID_TO_ADDR_PREFIX @ i"

definition contract_addr_to_id_key :: "address \<Rightarrow> bytes" where
  "contract_addr_to_id_key a = CONTRACT_ADDR_TO_ID_PREFIX @ a"

definition contract_id_to_addr_key :: "account_id \<Rightarrow> bytes" where
  "contract_id_to_addr_key i = CONTRACT_ID_TO_ADDR_PREFIX @ i"

definition decode_account_id :: "host \<Rightarrow> message \<Rightarrow> error_code + account_id" where
  "decode_account_id H m = message_get (h_account_id H) m"

text \<open>The four lookups differ in the key and in the codec of the value.\<close>

definition lookup_in_env :: "host \<Rightarrow> 'v borsh \<Rightarrow> bytes \<Rightarrow> 'v option qprog" where
  "lookup_in_env H V key =
     qbind (query_account (StorageGetRequest H) (h_storage_get_response H) STORAGE_ACCOUNT_ID
              \<lparr>sg_account_id = RUNTIME_ACCOUNT_ID, sg_key = key\<rparr>) (\<lambda>response.
     case sg_value response of
       Some raw \<Rightarrow> QReturn (bind_result (message_get V raw) (\<lambda>v. Inr (Some v)))
     | None \<Rightarrow> QReturn (Inr None))"

definition lookup_account_id_in_env :: "host \<Rightarrow> address \<Rightarrow> account_id option qprog" where
  "lookup_account_id_in_env H a = lookup_in_env H (h_account_id H) (addr_to_id_key a)"

definition lookup_address_in_env :: "host \<Rightarrow> eth_codecs \<Rightarrow> account_id \<Rightarrow> address option qprog" where
  "lookup_address_in_env H C i = lookup_in_env H (ec_address C) (id_to_addr_key i)"

definition lookup_contract_account_id_in_env :: "host \<Rightarrow> address \<Rightarrow> account_id option qprog" where
  "lookup_contract_account_id_in_env H a = lookup_in_env H (h_account_id H) (contract_addr_to_id_key a)"

text \<open>The same lookups in a storage below the state transition function.\<close>

definition lookup_in_storage :: "'v borsh \<Rightarrow> readonly_kv \<Rightarrow> bytes \<Rightarrow> error_code + 'v option" where
  "lookup_in_storage V storage key =
     bind_result (storage (ACCOUNT_STORAGE_PREFIX # RUNTIME_ACCOUNT_ID @ key)) (\<lambda>r.
     case r of
       Some raw \<Rightarrow> bind_result (message_get V (message_from_bytes raw)) (\<lambda>v. Inr (Some v))
     | None \<Rightarrow> Inr None)"

definition lookup_account_id_in_storage :: "host \<Rightarrow> readonly_kv \<Rightarrow> address \<Rightarrow> error_code + account_id option" where
  "lookup_account_id_in_storage H storage a = lookup_in_storage (h_account_id H) storage (addr_to_id_key a)"

definition lookup_contract_account_id_in_storage :: "host \<Rightarrow> readonly_kv \<Rightarrow> address \<Rightarrow> error_code + account_id option" where
  "lookup_contract_account_id_in_storage H storage a =
     lookup_in_storage (h_account_id H) storage (contract_addr_to_id_key a)"

definition lookup_address_in_storage :: "eth_codecs \<Rightarrow> readonly_kv \<Rightarrow> account_id \<Rightarrow> error_code + address option" where
  "lookup_address_in_storage C storage i = lookup_in_storage (ec_address C) storage (id_to_addr_key i)"

definition conflicts :: "'a option \<Rightarrow> 'a \<Rightarrow> bool" where
  "conflicts known expected = (case known of Some existing \<Rightarrow> existing \<noteq> expected | None \<Rightarrow> False)"

definition ensure_mapping_conflict_free ::
    "host \<Rightarrow> eth_codecs \<Rightarrow> address \<Rightarrow> account_id \<Rightarrow> (account_id option \<times> address option) qprog" where
  "ensure_mapping_conflict_free H C a i =
     qbind (lookup_account_id_in_env H a) (\<lambda>forward.
     qbind (lookup_address_in_env H C i) (\<lambda>reverse.
     if conflicts forward i then QReturn (Inl ERR_ADDRESS_ACCOUNT_CONFLICT)
     else if conflicts reverse a then QReturn (Inl ERR_ADDRESS_ACCOUNT_CONFLICT)
     else QReturn (Inr (forward, reverse))))"

definition store_registry_entry :: "host \<Rightarrow> 'v borsh \<Rightarrow> bytes \<Rightarrow> 'v \<Rightarrow> unit prog" where
  "store_registry_entry H V key v =
     (case message_new V v of
        Inl e \<Rightarrow> Return (Inl e)
      | Inr value \<Rightarrow> exec_account (StorageSetRequest H) (h_unit H) STORAGE_ACCOUNT_ID \<lparr>ss_key = key, ss_value = value\<rparr> [])"

definition set_mapping :: "host \<Rightarrow> eth_codecs \<Rightarrow> address \<Rightarrow> account_id \<Rightarrow> unit prog" where
  "set_mapping H C a i =
     pbind (of_query (ensure_mapping_conflict_free H C a i)) (\<lambda>(forward, reverse).
     if forward \<noteq> None \<and> reverse \<noteq> None then Return (Inr ())
     else
       pbind (store_registry_entry H (h_account_id H) (addr_to_id_key a) i) (\<lambda>_.
       pbind (store_registry_entry H (ec_address C) (id_to_addr_key i) a) (\<lambda>_.
       Return (Inr ()))))"

definition ensure_eoa_mapping :: "host \<Rightarrow> eth_codecs \<Rightarrow> address \<Rightarrow> account_id \<Rightarrow> unit prog" where
  "ensure_eoa_mapping H C a i =
     pbind (of_query (ensure_mapping_conflict_free H C a i)) (\<lambda>(forward, reverse).
     if forward \<noteq> None \<and> reverse \<noteq> None then Return (Inr ())
     else set_mapping H C a i)"

definition resolve_or_create_eoa_account :: "host \<Rightarrow> eth_codecs \<Rightarrow> address \<Rightarrow> account_id prog" where
  "resolve_or_create_eoa_account H C a =
     pbind (of_query (lookup_account_id_in_env H a)) (\<lambda>known.
     case known of
       Some account_id \<Rightarrow> Return (Inr account_id)
     | None \<Rightarrow>
         let account_id = derive_eth_eoa_account_id H a in
         pbind (register_account_at_id_call H (ec_address C) account_id ETH_EOA_CODE_ID a) (\<lambda>_.
         pbind (ensure_eoa_mapping H C a account_id) (\<lambda>_.
         Return (Inr account_id))))"

definition register_runtime_contract_account :: "host \<Rightarrow> eth_codecs \<Rightarrow> account_id \<Rightarrow> address prog" where
  "register_runtime_contract_account H C i =
     (let a = derive_runtime_contract_address H i in
      pbind (of_query (lookup_contract_account_id_in_env H a)) (\<lambda>known.
      if conflicts known i then Return (Inl ERR_ADDRESS_ACCOUNT_CONFLICT)
      else
        pbind (of_query (lookup_in_env H (ec_address C) (contract_id_to_addr_key i))) (\<lambda>known_addr.
        if conflicts known_addr a then Return (Inl ERR_ADDRESS_ACCOUNT_CONFLICT)
        else
          pbind (store_registry_entry H (h_account_id H) (contract_addr_to_id_key a) i) (\<lambda>_.
          pbind (store_registry_entry H (ec_address C) (contract_id_to_addr_key i) a) (\<lambda>_.
          Return (Inr a))))))"

section \<open>The transaction context\<close>

datatype sender_resolution = SenderEoaAddress address | SenderAccount account_id

datatype recipient_resolution = RecipientEoaAddress address | RecipientAccount account_id | RecipientNone

record tx_context_meta =
  cm_tx_hash :: b256
  cm_gas_limit :: u64
  cm_nonce :: u64
  cm_chain_id :: "u64 option"
  cm_effective_gas_price :: u128
  cm_invoke_request :: invoke_request
  cm_funds :: "fungible_asset list"
  cm_sender_account :: account_id
  cm_recipient_account :: "account_id option"
  cm_sender_key :: bytes
  cm_authentication_payload :: message
  cm_sender_eth_address :: "address option"
  cm_recipient_eth_address :: "address option"

record tx_context =
  xc_payload :: tx_payload
  xc_sender_type :: u16
  xc_invoke_request :: invoke_request
  xc_effective_gas_price :: u128
  xc_tx_hash :: b256
  xc_gas_limit :: u64
  xc_nonce :: u64
  xc_chain_id :: "u64 option"
  xc_sender_resolution :: sender_resolution
  xc_recipient_resolution :: recipient_resolution
  xc_sender_key :: bytes
  xc_authentication_payload :: message
  xc_sender_eth_address :: "address option"
  xc_recipient_eth_address :: "address option"
  xc_funds :: "fungible_asset list"

definition calculate_effective_gas_price :: "tx_envelope \<Rightarrow> u128 \<Rightarrow> u128" where
  "calculate_effective_gas_price envelope base_fee = (case envelope of
     Legacy tx \<Rightarrow> tl_gas_price (sd_tx (st_inner tx))
   | Eip1559 tx \<Rightarrow>
       let max_fee = tf_max_fee_per_gas (sd_tx (st_inner tx));
           priority_fee = tf_max_priority_fee_per_gas (sd_tx (st_inner tx))
       in min max_fee (saturating_add base_fee priority_fee))"

definition tx_context_new :: "eth_codecs \<Rightarrow> tx_envelope \<Rightarrow> u128 \<Rightarrow> tx_context option" where
  "tx_context_new C envelope base_fee =
     (case (envelope_to envelope, envelope_to_invoke_requests envelope, message_new (ec_address C) (envelope_sender envelope)) of
        (Some to, invoke_request # _, Inr authentication_payload) \<Rightarrow>
          Some \<lparr>xc_payload = EoaPayload envelope, xc_sender_type = EOA_SECP256K1, xc_invoke_request = invoke_request,
             xc_effective_gas_price = calculate_effective_gas_price envelope base_fee,
             xc_tx_hash = envelope_tx_hash envelope, xc_gas_limit = envelope_gas_limit envelope,
             xc_nonce = envelope_nonce envelope, xc_chain_id = envelope_chain_id envelope,
             xc_sender_resolution = SenderEoaAddress (envelope_sender envelope),
             xc_recipient_resolution = RecipientEoaAddress to, xc_sender_key = envelope_sender envelope,
             xc_authentication_payload = authentication_payload,
             xc_sender_eth_address = Some (envelope_sender envelope), xc_recipient_eth_address = Some to,
             xc_funds = []\<rparr>
      | _ \<Rightarrow> None)"

text \<open>The resolutions that \<open>from_payload\<close> and \<open>decode\<close> choose from the fields of the context.\<close>

definition choose_sender :: "u16 \<Rightarrow> address option \<Rightarrow> account_id \<Rightarrow> sender_resolution option" where
  "choose_sender st eth_address account =
     (if st = EOA_SECP256K1 then map_option SenderEoaAddress eth_address else Some (SenderAccount account))"

definition choose_recipient :: "account_id option \<Rightarrow> address option \<Rightarrow> recipient_resolution" where
  "choose_recipient account eth_address = (case account of
     Some a \<Rightarrow> RecipientAccount a
   | None \<Rightarrow> (case eth_address of Some a \<Rightarrow> RecipientEoaAddress a | None \<Rightarrow> RecipientNone))"

definition from_payload :: "tx_payload \<Rightarrow> u16 \<Rightarrow> tx_context_meta \<Rightarrow> tx_context option" where
  "from_payload payload st meta =
     (case choose_sender st (cm_sender_eth_address meta) (cm_sender_account meta) of
        None \<Rightarrow> None
      | Some sender_res \<Rightarrow>
          let sender_key = (if cm_sender_key meta = [] then
                              (case sender_res of SenderEoaAddress addr \<Rightarrow> addr | SenderAccount account \<Rightarrow> account)
                            else cm_sender_key meta)
          in case sender_key_new sender_key of
               None \<Rightarrow> None
             | Some _ \<Rightarrow>
                 Some \<lparr>xc_payload = payload, xc_sender_type = st, xc_invoke_request = cm_invoke_request meta,
                    xc_effective_gas_price = cm_effective_gas_price meta, xc_tx_hash = cm_tx_hash meta,
                    xc_gas_limit = cm_gas_limit meta, xc_nonce = cm_nonce meta, xc_chain_id = cm_chain_id meta,
                    xc_sender_resolution = sender_res,
                    xc_recipient_resolution = choose_recipient (cm_recipient_account meta) (cm_recipient_eth_address meta),
                    xc_sender_key = sender_key, xc_authentication_payload = cm_authentication_payload meta,
                    xc_sender_eth_address = cm_sender_eth_address meta,
                    xc_recipient_eth_address = cm_recipient_eth_address meta, xc_funds = cm_funds meta\<rparr>)"

definition from_eth_intent ::
    "host \<Rightarrow> alloy \<Rightarrow> eth_codecs \<Rightarrow> u16 \<Rightarrow> eth_intent_payload \<Rightarrow> account_id \<Rightarrow> bytes \<Rightarrow> message \<Rightarrow> u128 \<Rightarrow> tx_context option" where
  "from_eth_intent H L C st intent sender_account sender_key authentication_payload base_fee =
     (case intent_decode_envelope H L intent of
        Inl _ \<Rightarrow> None
      | Inr envelope \<Rightarrow>
          (case (envelope_to envelope, envelope_to_invoke_requests envelope, to_vec (ec_intent C) intent) of
             (Some to, invoke_request # _, Some payload_bytes) \<Rightarrow>
               from_payload (CustomPayload payload_bytes) st
                 \<lparr>cm_tx_hash = h_keccak256 H payload_bytes, cm_gas_limit = envelope_gas_limit envelope,
                  cm_nonce = envelope_nonce envelope, cm_chain_id = envelope_chain_id envelope,
                  cm_effective_gas_price = calculate_effective_gas_price envelope base_fee,
                  cm_invoke_request = invoke_request, cm_funds = [], cm_sender_account = sender_account,
                  cm_recipient_account = None, cm_sender_key = sender_key,
                  cm_authentication_payload = authentication_payload, cm_sender_eth_address = None,
                  cm_recipient_eth_address = Some to\<rparr>
           | _ \<Rightarrow> None))"

definition is_wire_encoded :: "bytes \<Rightarrow> bool" where
  "is_wire_encoded bs \<longleftrightarrow> length bs \<ge> length TX_CONTEXT_WIRE_MAGIC \<and>
     take (length TX_CONTEXT_WIRE_MAGIC) bs = TX_CONTEXT_WIRE_MAGIC"

definition sender_address :: "tx_context \<Rightarrow> address option" where
  "sender_address ctx = (case xc_sender_resolution ctx of SenderEoaAddress a \<Rightarrow> Some a | SenderAccount _ \<Rightarrow> None)"

definition context_envelope :: "tx_context \<Rightarrow> tx_envelope option" where
  "context_envelope ctx = (case xc_payload ctx of EoaPayload e \<Rightarrow> Some e | CustomPayload _ \<Rightarrow> None)"

section \<open>The context as a transaction\<close>

text \<open>As the pool sees it (\<open>MempoolTx\<close>).\<close>

definition context_mempool_tx :: "tx_context \<Rightarrow> gas_price_ordering mempool_tx" where
  "context_mempool_tx ctx = \<lparr>mt_id = xc_tx_hash ctx,
     mt_ordering_key = GasPriceOrdering (xc_effective_gas_price ctx) (xc_nonce ctx),
     mt_sender_key = sender_key_new (xc_sender_key ctx), mt_gas_limit = xc_gas_limit ctx\<rparr>"

text \<open>As the state transition function sees it (\<open>Transaction\<close>).\<close>

definition context_sender :: "host \<Rightarrow> tx_context \<Rightarrow> account_id" where
  "context_sender H ctx = (case xc_sender_resolution ctx of
     SenderAccount account \<Rightarrow> account
   | SenderEoaAddress a \<Rightarrow> derive_eth_eoa_account_id H a)"

definition resolve_sender_account :: "host \<Rightarrow> tx_context \<Rightarrow> account_id prog" where
  "resolve_sender_account H ctx = (case xc_sender_resolution ctx of
     SenderAccount account \<Rightarrow> Return (Inr account)
   | SenderEoaAddress a \<Rightarrow>
       pbind (of_query (lookup_account_id_in_env H a)) (\<lambda>known.
       case known of
         Some account_id \<Rightarrow> Return (Inr account_id)
       | None \<Rightarrow> Return (Inr (derive_eth_eoa_account_id H a))))"

definition context_recipient :: "host \<Rightarrow> tx_context \<Rightarrow> account_id" where
  "context_recipient H ctx = (case xc_recipient_resolution ctx of
     RecipientAccount account \<Rightarrow> account
   | RecipientEoaAddress a \<Rightarrow> derive_eth_eoa_account_id H a
   | RecipientNone \<Rightarrow> account_invalid)"

definition resolve_recipient_account :: "host \<Rightarrow> eth_codecs \<Rightarrow> tx_context \<Rightarrow> account_id prog" where
  "resolve_recipient_account H C ctx = (case xc_recipient_resolution ctx of
     RecipientAccount account \<Rightarrow> Return (Inr account)
   | RecipientEoaAddress to \<Rightarrow>
       pbind (of_query (lookup_account_id_in_env H to)) (\<lambda>known.
       case known of
         Some account_id \<Rightarrow> Return (Inr account_id)
       | None \<Rightarrow>
           pbind (of_query (lookup_contract_account_id_in_env H to)) (\<lambda>contract.
           case contract of
             Some account_id \<Rightarrow> Return (Inr account_id)
           | None \<Rightarrow> resolve_or_create_eoa_account H C to))
   | RecipientNone \<Rightarrow> Return (Inl ERR_RECIPIENT_REQUIRED))"

definition context_sender_bootstrap :: "eth_codecs \<Rightarrow> tx_context \<Rightarrow> sender_bootstrap option" where
  "context_sender_bootstrap C ctx =
     (if xc_sender_type ctx \<noteq> EOA_SECP256K1 then None
      else case sender_address ctx of
        None \<Rightarrow> None
      | Some a \<Rightarrow>
          (case message_new (ec_address C) a of
             Inl _ \<Rightarrow> None
           | Inr init_message \<Rightarrow> Some \<lparr>sb_account_code_id = ETH_EOA_CODE_ID, sb_init_message = init_message\<rparr>))"

definition after_sender_bootstrap :: "host \<Rightarrow> eth_codecs \<Rightarrow> tx_context \<Rightarrow> account_id \<Rightarrow> unit prog" where
  "after_sender_bootstrap H C ctx resolved_sender =
     (if xc_sender_type ctx \<noteq> EOA_SECP256K1 then Return (Inr ())
      else case sender_address ctx of
        None \<Rightarrow> Return (Inl ERR_TX_DECODE)
      | Some a \<Rightarrow> ensure_eoa_mapping H C a resolved_sender)"

definition context_tx :: "host \<Rightarrow> eth_codecs \<Rightarrow> tx_context \<Rightarrow> tx" where
  "context_tx H C ctx = \<lparr>tx_sender = context_sender H ctx, tx_recipient = context_recipient H ctx,
     tx_request = xc_invoke_request ctx, tx_gas_limit = xc_gas_limit ctx, tx_funds = xc_funds ctx,
     tx_compute_identifier = xc_tx_hash ctx, tx_resolve_sender_account = resolve_sender_account H ctx,
     tx_resolve_recipient_account = resolve_recipient_account H C ctx,
     tx_sender_bootstrap = context_sender_bootstrap C ctx,
     tx_after_sender_bootstrap = after_sender_bootstrap H C ctx\<rparr>"

section \<open>Encoding\<close>

definition context_wire :: "host \<Rightarrow> bytes \<Rightarrow> tx_context \<Rightarrow> tx_context_wire" where
  "context_wire H bs ctx =
     (let recipient_account = (case xc_recipient_resolution ctx of
        RecipientAccount account \<Rightarrow> Some account | RecipientEoaAddress _ \<Rightarrow> None | RecipientNone \<Rightarrow> None)
      in \<lparr>wi_sender_type = xc_sender_type ctx, wi_payload = CustomWire bs, wi_tx_hash = xc_tx_hash ctx,
          wi_gas_limit = xc_gas_limit ctx, wi_nonce = xc_nonce ctx, wi_chain_id = xc_chain_id ctx,
          wi_effective_gas_price = xc_effective_gas_price ctx, wi_invoke_request = xc_invoke_request ctx,
          wi_funds = xc_funds ctx, wi_sender_account = context_sender H ctx,
          wi_recipient_account = recipient_account, wi_sender_key = xc_sender_key ctx,
          wi_authentication_payload = xc_authentication_payload ctx,
          wi_sender_eth_address = xc_sender_eth_address ctx,
          wi_recipient_eth_address = xc_recipient_eth_address ctx\<rparr>)"

definition context_encode :: "host \<Rightarrow> alloy \<Rightarrow> eth_codecs \<Rightarrow> tx_context \<Rightarrow> error_code + bytes" where
  "context_encode H L C ctx = (case xc_payload ctx of
     EoaPayload envelope \<Rightarrow> Inr (envelope_encode L envelope)
   | CustomPayload bs \<Rightarrow>
       bind_result (ok_or ERR_TX_DECODE (to_vec (ec_wire C) (context_wire H bs ctx))) (\<lambda>b.
       Inr (TX_CONTEXT_WIRE_MAGIC @ b)))"

definition decode_wire_payload :: "host \<Rightarrow> alloy \<Rightarrow> tx_context_wire \<Rightarrow> error_code + tx_payload" where
  "decode_wire_payload H L wire = (case wi_payload wire of
     EoaWire raw \<Rightarrow>
       bind_result (envelope_decode H L raw) (\<lambda>envelope.
       bind_result (ok_or ERR_TX_DECODE (wi_sender_eth_address wire)) (\<lambda>claimed.
       if envelope_sender envelope \<noteq> claimed then Inl ERR_SENDER_MISMATCH
       else Inr (EoaPayload envelope)))
   | CustomWire raw \<Rightarrow> Inr (CustomPayload raw))"

definition context_decode :: "host \<Rightarrow> alloy \<Rightarrow> eth_codecs \<Rightarrow> bytes \<Rightarrow> error_code + tx_context" where
  "context_decode H L C bs =
     (if is_wire_encoded bs then
        bind_result (ok_or ERR_TX_DECODE (from_slice (ec_wire C) (drop (length TX_CONTEXT_WIRE_MAGIC) bs))) (\<lambda>wire.
        if sender_key_new (wi_sender_key wire) = None then Inl ERR_TX_DECODE
        else
          bind_result (decode_wire_payload H L wire) (\<lambda>payload.
          bind_result (ok_or ERR_TX_DECODE
                         (choose_sender (wi_sender_type wire) (wi_sender_eth_address wire) (wi_sender_account wire))) (\<lambda>sender_res.
          Inr \<lparr>xc_payload = payload, xc_sender_type = wi_sender_type wire, xc_invoke_request = wi_invoke_request wire,
               xc_effective_gas_price = wi_effective_gas_price wire, xc_tx_hash = wi_tx_hash wire,
               xc_gas_limit = wi_gas_limit wire, xc_nonce = wi_nonce wire, xc_chain_id = wi_chain_id wire,
               xc_sender_resolution = sender_res,
               xc_recipient_resolution = choose_recipient (wi_recipient_account wire) (wi_recipient_eth_address wire),
               xc_sender_key = wi_sender_key wire, xc_authentication_payload = wi_authentication_payload wire,
               xc_sender_eth_address = wi_sender_eth_address wire,
               xc_recipient_eth_address = wi_recipient_eth_address wire, xc_funds = wi_funds wire\<rparr>)))
      else
        bind_result (envelope_decode H L bs) (\<lambda>envelope.
        ok_or ERR_RECIPIENT_REQUIRED (tx_context_new C envelope 0)))"

text \<open>\<open>AuthenticationPayload\<close>: the encoded context.\<close>

definition context_authentication_payload :: "host \<Rightarrow> alloy \<Rightarrow> eth_codecs \<Rightarrow> tx_context \<Rightarrow> error_code + message" where
  "context_authentication_payload H L C ctx = bind_result (context_encode H L C ctx) (\<lambda>b. Inr (message_from_bytes b))"

section \<open>The gateway\<close>

text \<open>An error of decoding carries the code instead of its printed form.\<close>

datatype gateway_error =
  GatewayDecodeFailed error_code
| GatewayInvalidChainId u64 "u64 option"
| GatewayInvalidSignature
| GatewayContractCreationNotSupported
| GatewayTrailingBytes

record eth_gateway =
  gw_chain_id :: u64
  gw_decoder :: typed_tx_decoder
  gw_verifier :: verifier_registry
  gw_base_fee :: u128

definition gateway_new :: "u64 \<Rightarrow> eth_gateway" where
  "gateway_new chain_id = \<lparr>gw_chain_id = chain_id, gw_decoder = decoder_ethereum,
     gw_verifier = registry_ethereum chain_id, gw_base_fee = 0\<rparr>"

definition gateway_with_base_fee :: "u64 \<Rightarrow> u128 \<Rightarrow> eth_gateway" where
  "gateway_with_base_fee chain_id base_fee = \<lparr>gw_chain_id = chain_id, gw_decoder = decoder_ethereum,
     gw_verifier = registry_ethereum chain_id, gw_base_fee = base_fee\<rparr>"

definition set_base_fee :: "u128 \<Rightarrow> eth_gateway \<Rightarrow> eth_gateway" where
  "set_base_fee base_fee g = g\<lparr>gw_base_fee := base_fee\<rparr>"

definition register_payload_verifier :: "u16 \<Rightarrow> payload_verifier \<Rightarrow> eth_gateway \<Rightarrow> eth_gateway" where
  "register_payload_verifier st v g = g\<lparr>gw_verifier := register_dyn st v (gw_verifier g)\<rparr>"

definition supports_sender_type :: "eth_gateway \<Rightarrow> u16 \<Rightarrow> bool" where
  "supports_sender_type g st \<longleftrightarrow> registry_supports (gw_verifier g) st"

definition verify_context :: "eth_gateway \<Rightarrow> tx_context \<Rightarrow> gateway_error + tx_context" where
  "verify_context g context =
     (if (case xc_chain_id context of Some i \<Rightarrow> i \<noteq> gw_chain_id g | None \<Rightarrow> False) then
        Inl (GatewayInvalidChainId (gw_chain_id g) (xc_chain_id context))
      else case verify_payload (gw_verifier g) (xc_sender_type context) (xc_payload context) of
        Inl _ \<Rightarrow> Inl GatewayInvalidSignature
      | Inr _ \<Rightarrow> Inr context)"

definition verify_envelope :: "eth_codecs \<Rightarrow> eth_gateway \<Rightarrow> tx_envelope \<Rightarrow> gateway_error + tx_context" where
  "verify_envelope C g envelope =
     (if (case envelope_chain_id envelope of Some i \<Rightarrow> i \<noteq> gw_chain_id g | None \<Rightarrow> True) then
        Inl (GatewayInvalidChainId (gw_chain_id g) (envelope_chain_id envelope))
      else case verify_payload (gw_verifier g) EOA_SECP256K1 (EoaPayload envelope) of
        Inl _ \<Rightarrow> Inl GatewayInvalidSignature
      | Inr _ \<Rightarrow> ok_or GatewayContractCreationNotSupported (tx_context_new C envelope (gw_base_fee g)))"

definition decode_and_verify :: "host \<Rightarrow> alloy \<Rightarrow> eth_codecs \<Rightarrow> eth_gateway \<Rightarrow> bytes \<Rightarrow> gateway_error + tx_context" where
  "decode_and_verify H L C g raw =
     (if is_wire_encoded raw then
        (case context_decode H L C raw of
           Inl e \<Rightarrow> Inl (GatewayDecodeFailed e)
         | Inr context \<Rightarrow> verify_context g context)
      else case decoder_decode H L (gw_decoder g) raw of
        Inl e \<Rightarrow> Inl (GatewayDecodeFailed e)
      | Inr (envelope, input) \<Rightarrow>
          if input \<noteq> [] then Inl GatewayTrailingBytes else verify_envelope C g envelope)"

end
