(* ===== verification/Eth_Props.thy ===== *)
theory Eth_Props
  imports Eth_Context Mock_Refinement
begin

text \<open>
  Facts on Ethereum transactions: envelopes are read back as they were written, an accepted
  transaction is bound to its signer, contexts survive their wire format, and the registry of
  addresses stays one-to-one.
\<close>

section \<open>Envelopes\<close>

text \<open>Who signed the contents of an envelope.\<close>

definition envelope_signer :: "host \<Rightarrow> alloy \<Rightarrow> tx_envelope \<Rightarrow> error_code + address" where
  "envelope_signer H L e = (case e of
     Legacy tx \<Rightarrow> recover_sender_from_signature_hash H L (al_signature_hash (al_legacy L) (st_inner tx)) (sd_signature (st_inner tx))
   | Eip1559 tx \<Rightarrow>
       recover_sender_from_signature_hash H L (al_signature_hash (al_eip1559 L) (st_inner tx)) (sd_signature (st_inner tx)))"

text \<open>An envelope without what is computed from its contents.\<close>

definition envelope_content :: "tx_envelope \<Rightarrow> tx_legacy signed + tx_eip1559 signed" where
  "envelope_content e = (case e of Legacy tx \<Rightarrow> Inl (st_inner tx) | Eip1559 tx \<Rightarrow> Inr (st_inner tx))"

lemmas envelope_fields = envelope_sender_def envelope_tx_hash_def envelope_gas_limit_def envelope_chain_id_def
  envelope_nonce_def envelope_to_def envelope_input_def envelope_content_def

lemma alloy_consumes:
  assumes "alloy_tx_ok X" "al_decode X b = Some (s, rest)"
  obtains pre where "b = pre @ rest" "take (length b - length rest) b = pre" "drop (length b - length rest) b = rest"
proof -
  from assms obtain pre where "b = pre @ rest" unfolding alloy_tx_ok_def by blast
  then show ?thesis by (intro that [of pre]) simp_all
qed

lemma decode_from_sound:
  assumes "alloy_ok L" "envelope_decode_from H L b = Inr (e, rest)"
  shows "\<exists>pre. b = pre @ rest \<and> envelope_tx_hash e = h_keccak256 H pre \<and> envelope_signer H L e = Inr (envelope_sender e)"
proof (cases "hd b \<ge> 0xc0")
  case True
  with assms(2) obtain s cursor where dec: "al_decode (al_legacy L) b = Some (s, cursor)"
    and from_al: "legacy_from_alloy_with_bytes H L s (take (length b - length cursor) b) = Inr (case e of Legacy tx \<Rightarrow> tx)"
    "\<exists>tx. e = Legacy tx" "rest = drop (length b - length cursor) b"
    by (auto simp: envelope_decode_from_def Let_def bind_result_Inr split: if_splits option.splits)
  from assms(1) obtain pre where "b = pre @ cursor" "take (length b - length cursor) b = pre" "drop (length b - length cursor) b = cursor"
    using alloy_consumes [OF _ dec] by (auto simp: alloy_ok_def)
  with from_al show ?thesis
    by (auto simp: legacy_from_alloy_with_bytes_def bind_result_Inr envelope_signer_def envelope_fields)
next
  case False
  with assms(2) obtain s cursor where dec: "al_decode (al_eip1559 L) (drop 1 b) = Some (s, cursor)" and b: "b = tx_type_EIP1559 # drop 1 b"
    and from_al: "eip1559_from_alloy_with_bytes H L s (take (length (drop 1 b) - length cursor) (drop 1 b)) = Inr (case e of Eip1559 tx \<Rightarrow> tx)"
    "\<exists>tx. e = Eip1559 tx" "rest = drop (length (drop 1 b) - length cursor) (drop 1 b)"
    by (cases b) (auto simp: envelope_decode_from_def Let_def bind_result_Inr split: if_splits option.splits)
  from assms(1) obtain pre where "drop 1 b = pre @ cursor" "take (length (drop 1 b) - length cursor) (drop 1 b) = pre"
    "drop (length (drop 1 b) - length cursor) (drop 1 b) = cursor"
    using alloy_consumes [OF _ dec] by (auto simp: alloy_ok_def)
  with from_al b show ?thesis
    by (intro exI [of _ "tx_type_EIP1559 # pre"])
      (auto simp: eip1559_from_alloy_with_bytes_def bind_result_Inr envelope_signer_def envelope_fields)
qed

lemma decode_sound:
  assumes "alloy_ok L" "envelope_decode H L b = Inr e"
  shows "envelope_tx_hash e = h_keccak256 H b" "envelope_signer H L e = Inr (envelope_sender e)"
  using assms decode_from_sound [OF assms(1), of H b e "[]"]
  by (auto simp: envelope_decode_def bind_result_Inr split: if_splits)

lemma encode_decode_from:
  assumes "alloy_ok L" "envelope_signer H L e = Inr s"
  shows "\<exists>e'. envelope_decode_from H L (envelope_encode L e @ rest) = Inr (e', rest) \<and> envelope_content e' = envelope_content e \<and>
    envelope_sender e' = s \<and> envelope_tx_hash e' = h_keccak256 H (envelope_encode L e)"
proof (cases e)
  case (Legacy tx)
  have X: "alloy_tx_ok (al_legacy L)" using assms(1) by (simp add: alloy_ok_def)
  let ?b = "al_encode (al_legacy L) (st_inner tx)"
  from X have "?b \<noteq> []" "hd ?b \<ge> 0xc0" "al_decode (al_legacy L) (?b @ rest) = Some (st_inner tx, rest)"
    by (simp_all add: alloy_tx_ok_def)
  with assms(2) Legacy show ?thesis
    by (simp add: envelope_decode_from_def envelope_encode_def legacy_from_alloy_with_bytes_def envelope_signer_def envelope_fields)
next
  case (Eip1559 tx)
  have X: "alloy_tx_ok (al_eip1559 L)" using assms(1) by (simp add: alloy_ok_def)
  from X have "al_decode (al_eip1559 L) (al_encode (al_eip1559 L) (st_inner tx) @ rest) = Some (st_inner tx, rest)"
    by (simp add: alloy_tx_ok_def)
  with assms(2) Eip1559 show ?thesis
    by (simp add: envelope_decode_from_def envelope_encode_def eip1559_from_alloy_with_bytes_def envelope_signer_def envelope_fields
        tx_type_EIP1559_def tx_type_LEGACY_def)
qed

section \<open>The gateway\<close>

text \<open>A context that says what its envelope says.\<close>

definition bound_to :: "tx_envelope \<Rightarrow> tx_context \<Rightarrow> bool" where
  "bound_to e ctx \<longleftrightarrow> xc_payload ctx = EoaPayload e \<and> xc_sender_type ctx = EOA_SECP256K1 \<and>
     sender_address ctx = Some (envelope_sender e) \<and> xc_sender_key ctx = envelope_sender e \<and>
     map_option RecipientEoaAddress (envelope_to e) = Some (xc_recipient_resolution ctx) \<and>
     xc_invoke_request ctx = invoke_request_from_input (envelope_input e) \<and> xc_funds ctx = [] \<and>
     xc_tx_hash ctx = envelope_tx_hash e \<and> xc_nonce ctx = envelope_nonce e \<and>
     xc_gas_limit ctx = envelope_gas_limit e \<and> xc_chain_id ctx = envelope_chain_id e"

lemma tx_context_new_bound: "tx_context_new C e fee = Some ctx \<Longrightarrow> bound_to e ctx"
  by (auto simp: tx_context_new_def envelope_to_invoke_requests_def bound_to_def sender_address_def
      split: option.splits list.splits sum.splits if_splits)

lemma verify_payload_ethereum:
  "verify_payload (registry_ethereum c) st p = Inr u \<longleftrightarrow>
     st = EOA_SECP256K1 \<and> (\<exists>e. p = EoaPayload e \<and> envelope_chain_id e = Some c)"
  by (auto simp: verify_payload_def registry_ethereum_def register_eoa_def register_dyn_def bind_result_Inr ok_or_Inr
      eoa_payload_verify_def ecdsa_verify_signature_def verify_chain_id_def ecdsa_new_def
      split: tx_payload.splits option.splits if_splits)

lemma verify_envelope_ethereum:
  "verify_envelope C (gateway_with_base_fee c fee) e = Inr ctx \<longleftrightarrow>
     envelope_chain_id e = Some c \<and> tx_context_new C e fee = Some ctx"
proof (cases "envelope_chain_id e = Some c")
  case True
  then have "verify_payload (registry_ethereum c) EOA_SECP256K1 (EoaPayload e) = Inr ()"
    by (simp add: verify_payload_ethereum)
  with True show ?thesis by (simp add: verify_envelope_def gateway_with_base_fee_def ok_or_Inr)
qed (auto simp: verify_envelope_def gateway_with_base_fee_def split: option.splits)

lemma decoder_ethereum_accepts: "envelope_tx_type e \<in> decoder_ethereum"
  by (cases e) (simp_all add: envelope_tx_type_def decoder_ethereum_def)

lemma decode_and_verify_plain:
  assumes "\<not> is_wire_encoded raw"
  shows "decode_and_verify H L C (gateway_with_base_fee c fee) raw = Inr ctx \<longleftrightarrow>
    (\<exists>e. envelope_decode H L raw = Inr e \<and> envelope_chain_id e = Some c \<and> tx_context_new C e fee = Some ctx)"
proof -
  have "gw_decoder (gateway_with_base_fee c fee) = decoder_ethereum" by (simp add: gateway_with_base_fee_def)
  with assms show ?thesis
    by (cases "envelope_decode_from H L raw")
      (auto simp: decode_and_verify_def decoder_decode_def envelope_decode_def decoder_ethereum_accepts verify_envelope_ethereum
        split: if_splits)
qed

text \<open>The context that decoding makes of a wire format.\<close>

definition wire_context :: "tx_context_wire \<Rightarrow> tx_payload \<Rightarrow> sender_resolution \<Rightarrow> tx_context" where
  "wire_context wire payload res =
     \<lparr>xc_payload = payload, xc_sender_type = wi_sender_type wire, xc_invoke_request = wi_invoke_request wire,
      xc_effective_gas_price = wi_effective_gas_price wire, xc_tx_hash = wi_tx_hash wire,
      xc_gas_limit = wi_gas_limit wire, xc_nonce = wi_nonce wire, xc_chain_id = wi_chain_id wire,
      xc_sender_resolution = res,
      xc_recipient_resolution = choose_recipient (wi_recipient_account wire) (wi_recipient_eth_address wire),
      xc_sender_key = wi_sender_key wire, xc_authentication_payload = wi_authentication_payload wire,
      xc_sender_eth_address = wi_sender_eth_address wire,
      xc_recipient_eth_address = wi_recipient_eth_address wire, xc_funds = wi_funds wire\<rparr>"

lemma context_decode_wire:
  assumes "is_wire_encoded bs"
  shows "context_decode H L C bs = Inr ctx \<longleftrightarrow>
    (\<exists>wire payload res. from_slice (ec_wire C) (drop 4 bs) = Some wire \<and> sender_key_new (wi_sender_key wire) \<noteq> None \<and>
       decode_wire_payload H L wire = Inr payload \<and>
       choose_sender (wi_sender_type wire) (wi_sender_eth_address wire) (wi_sender_account wire) = Some res \<and>
       ctx = wire_context wire payload res)"
proof -
  have len: "length TX_CONTEXT_WIRE_MAGIC = 4" by (simp add: TX_CONTEXT_WIRE_MAGIC_def str_bytes_def)
  show ?thesis using assms
    by (auto simp: context_decode_def len bind_result_Inr ok_or_Inr wire_context_def split: if_splits)
qed

lemma wire_encoded: "is_wire_encoded (TX_CONTEXT_WIRE_MAGIC @ b)" "drop 4 (TX_CONTEXT_WIRE_MAGIC @ b) = b"
  by (simp_all add: is_wire_encoded_def TX_CONTEXT_WIRE_MAGIC_def str_bytes_def)

lemma wire_payload_eoa:
  "decode_wire_payload H L wire = Inr (EoaPayload e) \<longleftrightarrow>
     (\<exists>raw. wi_payload wire = EoaWire raw \<and> envelope_decode H L raw = Inr e \<and> wi_sender_eth_address wire = Some (envelope_sender e))"
  by (auto simp: decode_wire_payload_def bind_result_Inr ok_or_Inr split: tx_payload_wire.splits if_splits)

lemma decode_and_verify_wire:
  assumes "is_wire_encoded raw"
  shows "decode_and_verify H L C (gateway_with_base_fee c fee) raw = Inr ctx \<longleftrightarrow>
    (\<exists>e. context_decode H L C raw = Inr ctx \<and> (case xc_chain_id ctx of Some i \<Rightarrow> i = c | None \<Rightarrow> True) \<and>
       xc_sender_type ctx = EOA_SECP256K1 \<and> xc_payload ctx = EoaPayload e \<and> envelope_chain_id e = Some c)"
proof (cases "context_decode H L C raw")
  case (Inr ctx')
  have "verify_payload (registry_ethereum c) (xc_sender_type ctx') (xc_payload ctx') = Inr () \<longleftrightarrow>
      xc_sender_type ctx' = EOA_SECP256K1 \<and> (\<exists>e. xc_payload ctx' = EoaPayload e \<and> envelope_chain_id e = Some c)"
    by (rule verify_payload_ethereum)
  with Inr assms show ?thesis
    by (cases "verify_payload (registry_ethereum c) (xc_sender_type ctx') (xc_payload ctx')")
      (auto simp: decode_and_verify_def gateway_with_base_fee_def verify_context_def split: option.splits if_splits)
qed (use assms in \<open>auto simp: decode_and_verify_def\<close>)

section \<open>Contexts on the wire\<close>

lemma wire_roundtrip:
  assumes "borsh_ok D (ec_wire C)" "D wire" "sender_key_new (wi_sender_key wire) \<noteq> None"
    and "decode_wire_payload H L wire = Inr payload"
    and "choose_sender (wi_sender_type wire) (wi_sender_eth_address wire) (wi_sender_account wire) = Some res"
  obtains b where "to_vec (ec_wire C) wire = Some b"
    "context_decode H L C (TX_CONTEXT_WIRE_MAGIC @ b) = Inr (wire_context wire payload res)"
proof -
  from borsh_okD [OF assms(1,2)] obtain b where b: "to_vec (ec_wire C) wire = Some b" by (metis to_vec_def)
  have "from_slice (ec_wire C) b = Some wire" by (rule borsh_ok_from_slice [OF assms(1,2) b])
  with assms(3-5) have "context_decode H L C (TX_CONTEXT_WIRE_MAGIC @ b) = Inr (wire_context wire payload res)"
    unfolding context_decode_wire [OF wire_encoded(1)] wire_encoded(2) by blast
  with b show ?thesis by (rule that)
qed

lemma custom_wire_context:
  assumes "from_payload (CustomPayload bs) st meta = Some ctx"
  shows "xc_payload ctx = CustomPayload bs" "sender_key_new (wi_sender_key (context_wire H bs ctx)) \<noteq> None"
    "decode_wire_payload H L (context_wire H bs ctx) = Inr (CustomPayload bs)"
    "choose_sender (wi_sender_type (context_wire H bs ctx)) (wi_sender_eth_address (context_wire H bs ctx))
       (wi_sender_account (context_wire H bs ctx)) = Some (xc_sender_resolution ctx)"
    "wire_context (context_wire H bs ctx) (CustomPayload bs) (xc_sender_resolution ctx) = ctx"
proof -
  from assms obtain res where res: "choose_sender st (cm_sender_eth_address meta) (cm_sender_account meta) = Some res"
    and ctx: "xc_payload ctx = CustomPayload bs" "xc_sender_type ctx = st" "xc_sender_resolution ctx = res"
    "xc_sender_eth_address ctx = cm_sender_eth_address meta" "sender_key_new (xc_sender_key ctx) \<noteq> None"
    "xc_recipient_resolution ctx = choose_recipient (cm_recipient_account meta) (xc_recipient_eth_address ctx)"
    by (auto simp: from_payload_def Let_def split: option.splits)
  from ctx show "xc_payload ctx = CustomPayload bs" "sender_key_new (wi_sender_key (context_wire H bs ctx)) \<noteq> None"
    "decode_wire_payload H L (context_wire H bs ctx) = Inr (CustomPayload bs)"
    by (simp_all add: context_wire_def decode_wire_payload_def)
  from res ctx show "choose_sender (wi_sender_type (context_wire H bs ctx)) (wi_sender_eth_address (context_wire H bs ctx))
       (wi_sender_account (context_wire H bs ctx)) = Some (xc_sender_resolution ctx)"
    by (auto simp: context_wire_def choose_sender_def context_sender_def split: if_splits sender_resolution.splits)
  from ctx(1,6) show "wire_context (context_wire H bs ctx) (CustomPayload bs) (xc_sender_resolution ctx) = ctx"
    by (cases ctx) (auto simp: context_wire_def wire_context_def choose_recipient_def split: option.splits)
qed

text \<open>What the standard gateway accepts carries a signed envelope.\<close>

lemma gateway_signed:
  assumes "alloy_ok L" "decode_and_verify H L C (gateway_with_base_fee c fee) raw = Inr ctx"
  shows "\<exists>e. xc_payload ctx = EoaPayload e \<and> envelope_signer H L e = Inr (envelope_sender e) \<and>
    sender_address ctx = Some (envelope_sender e) \<and> envelope_chain_id e = Some c \<and>
    (\<not> is_wire_encoded raw \<longrightarrow> bound_to e ctx \<and> envelope_decode H L raw = Inr e \<and> xc_tx_hash ctx = h_keccak256 H raw)"
proof (cases "is_wire_encoded raw")
  case True
  with assms(2) obtain e where dec: "context_decode H L C raw = Inr ctx" and ctx: "xc_sender_type ctx = EOA_SECP256K1"
    "xc_payload ctx = EoaPayload e" "envelope_chain_id e = Some c"
    unfolding decode_and_verify_wire [OF True] by blast
  from dec obtain wire res where w: "decode_wire_payload H L wire = Inr (xc_payload ctx)"
    "choose_sender (wi_sender_type wire) (wi_sender_eth_address wire) (wi_sender_account wire) = Some res"
    "ctx = wire_context wire (xc_payload ctx) res"
    unfolding context_decode_wire [OF True] by (auto simp: wire_context_def)
  from w(3) have st: "wi_sender_type wire = xc_sender_type ctx" "xc_sender_resolution ctx = res"
    by (metis tx_context.select_convs wire_context_def)+
  from w(1) ctx(2) obtain b where "envelope_decode H L b = Inr e" "wi_sender_eth_address wire = Some (envelope_sender e)"
    by (auto simp: wire_payload_eoa)
  with w(2) st ctx decode_sound [OF assms(1)] True show ?thesis
    by (auto simp: choose_sender_def sender_address_def)
next
  case False
  with assms(2) obtain e where "envelope_decode H L raw = Inr e" "envelope_chain_id e = Some c" "tx_context_new C e fee = Some ctx"
    unfolding decode_and_verify_plain [OF False] by blast
  with decode_sound [OF assms(1)] tx_context_new_bound show ?thesis by (fastforce simp: bound_to_def)
qed

end
