(* ===== verification/Eth_Registry.thy ===== *)
theory Eth_Registry
  imports Eth_Props Data_Refinement
begin

text \<open>
  The registry of addresses and accounts, run on the test environment: its calls refine a pair of
  partial functions between addresses and accounts. Run by the runtime account it keeps them inverse
  to each other; run by another account it writes into that account's storage, where no lookup finds
  the entry.
\<close>

section \<open>What the storage holds\<close>

abbreviation registry_at :: "mock_env \<Rightarrow> bytes \<Rightarrow> bytes option" where
  "registry_at e key \<equiv> hm_get (me_state e) (storage_key RUNTIME_ACCOUNT_ID key)"

type_synonym eoa_registry = "(address \<Rightarrow> account_id option) \<times> (account_id \<Rightarrow> address option)"

definition holds_registry :: "eth_codecs \<Rightarrow> eoa_registry \<Rightarrow> mock_env \<Rightarrow> bool" where
  "holds_registry C = (\<lambda>(fwd, bwd) e.
     (\<forall>a. length a = 20 \<longrightarrow> registry_at e (addr_to_id_key a) = fwd a \<and> (\<forall>i. fwd a = Some i \<longrightarrow> account_wf i)) \<and>
     (\<forall>i. account_wf i \<longrightarrow> registry_at e (id_to_addr_key i) = Option.bind (bwd i) (serialize (ec_address C)) \<and>
        (\<forall>a. bwd i = Some a \<longrightarrow> length a = 20)))"

lemma holds_registryD:
  assumes "holds_registry C (fwd, bwd) e"
  shows "length a = 20 \<Longrightarrow> registry_at e (addr_to_id_key a) = fwd a" "length a = 20 \<Longrightarrow> fwd a = Some i \<Longrightarrow> account_wf i"
    "account_wf i \<Longrightarrow> registry_at e (id_to_addr_key i) = Option.bind (bwd i) (serialize (ec_address C))"
    "account_wf i \<Longrightarrow> bwd i = Some a \<Longrightarrow> length a = 20"
  using assms unfolding holds_registry_def prod.case by blast+

lemma registry_keys [simp]:
  "addr_to_id_key a = addr_to_id_key b \<longleftrightarrow> a = b" "id_to_addr_key i = id_to_addr_key j \<longleftrightarrow> i = j"
  "addr_to_id_key a \<noteq> id_to_addr_key i" "id_to_addr_key i \<noteq> addr_to_id_key a"
  by (simp_all add: addr_to_id_key_def id_to_addr_key_def EOA_ADDR_TO_ID_PREFIX_def EOA_ID_TO_ADDR_PREFIX_def str_bytes_def)

lemma registry_vec_ok: "length a = 20 \<Longrightarrow> vec_ok (addr_to_id_key a)" "account_wf i \<Longrightarrow> vec_ok (id_to_addr_key i)"
  by (simp_all add: addr_to_id_key_def id_to_addr_key_def EOA_ADDR_TO_ID_PREFIX_def EOA_ID_TO_ADDR_PREFIX_def str_bytes_def vec_ok_def)

section \<open>Lookups and stores\<close>

lemma lookup_in_env_run:
  assumes H: "host_ok H" and key: "vec_ok key"
    and stored: "registry_at e key = Option.bind v (serialize V)" "\<And>x. v = Some x \<Longrightarrow> \<exists>b. serialize V x = Some b \<and> vec_ok b \<and> decode V b = Inr x"
  shows "mock_run_query H (lookup_in_env H V key) e = (Ok v, e)"
proof -
  let ?e = "with_whoami RUNTIME_ACCOUNT_ID e"
  have at: "mock_lookup ?e key = registry_at e key" by (simp add: mock_lookup_def with_whoami_def)
  have "\<And>b. mock_lookup ?e key = Some b \<Longrightarrow> vec_ok b" using stored by (cases v) (auto simp: at)
  moreover have "account_wf (me_whoami ?e)" by (simp add: with_whoami_def RUNTIME_ACCOUNT_ID_def)
  ultimately obtain req resp where req:
    "invoke_request_new (StorageGetRequest H) \<lparr>sg_account_id = RUNTIME_ACCOUNT_ID, sg_key = key\<rparr> = Inr req"
    "mock_do_query H STORAGE_ACCOUNT_ID req ?e = (Ok resp, ?e)"
    "response_get (h_storage_get_response H) resp = Inr \<lparr>sg_value = map_option OwnedBytes (registry_at e key)\<rparr>"
    using mock_storage_get [OF H key, of ?e] at by (metis (no_types, lifting) mock_env.select_convs(1) mock_env.update_convs(1) mock_env.surjective with_whoami_def)
  have "mock_do_query H STORAGE_ACCOUNT_ID req e = (Ok resp, e)"
    using req(2) by (auto simp: mock_do_query_def mock_handle_storage_query_def with_whoami_def andThen_def lift_result_def
        of_result_def split: if_splits sum.splits)
  with req stored show ?thesis
    by (cases v) (auto simp: lookup_in_env_def query_account_def mock_run_simps attempt_def andThen_def lift_result_def)
qed

lemma lookup_account_run:
  assumes "host_ok H" "holds_registry C (fwd, bwd) e" "length a = 20"
  shows "mock_run_query H (lookup_account_id_in_env H a) e = (Ok (fwd a), e)"
proof -
  have ser: "account_wf i \<Longrightarrow> serialize (h_account_id H) i = Some i" "account_wf i \<Longrightarrow> decode (h_account_id H) i = Inr i" for i
  proof -
    assume i: "account_wf i"
    with assms(1) show b: "serialize (h_account_id H) i = Some i" by (simp add: host_ok_def)
    from assms(1) have "borsh_ok account_wf (h_account_id H)" by (simp add: host_ok_def)
    from borsh_ok_from_slice [OF this i] b show "decode (h_account_id H) i = Inr i" by (simp add: decode_def to_vec_def)
  qed
  note at = holds_registryD(1,2) [OF assms(2,3)]
  have ok: "\<And>i. account_wf i \<Longrightarrow> vec_ok i" by (simp add: vec_ok_def)
  show ?thesis unfolding lookup_account_id_in_env_def
  proof (rule lookup_in_env_run [OF assms(1) registry_vec_ok(1) [OF assms(3)]])
    show "registry_at e (addr_to_id_key a) = Option.bind (fwd a) (serialize (h_account_id H))"
      using at ser(1) by (cases "fwd a") simp_all
    show "\<exists>b. serialize (h_account_id H) x = Some b \<and> vec_ok b \<and> decode (h_account_id H) b = Inr x" if "fwd a = Some x" for x
      using at(2) [OF that] ser ok by blast
  qed
qed

lemma lookup_address_run:
  assumes "host_ok H" "storable (\<lambda>a. length a = 20) (ec_address C)" "holds_registry C (fwd, bwd) e" "account_wf i"
  shows "mock_run_query H (lookup_address_in_env H C i) e = (Ok (bwd i), e)"
proof -
  have ser: "\<exists>b. serialize (ec_address C) a = Some b \<and> vec_ok b \<and> decode (ec_address C) b = Inr a" if "length a = 20" for a
  proof -
    from assms(2) have B: "borsh_ok (\<lambda>a. length a = 20) (ec_address C)" by (simp add: storable_def)
    from borsh_okD [OF B that] obtain b where b: "serialize (ec_address C) a = Some b" by blast
    with assms(2) that have "length b < 2 ^ 32 - 1" by (simp add: storable_def)
    with b borsh_ok_from_slice [OF B that] show ?thesis by (simp add: vec_ok_def decode_def to_vec_def)
  qed
  show ?thesis unfolding lookup_address_in_env_def
    using ser holds_registryD(4) [OF assms(3,4)]
    by (intro lookup_in_env_run [OF assms(1) registry_vec_ok(2) [OF assms(4)] holds_registryD(3) [OF assms(3,4)]]) blast
qed

lemma store_entry_run:
  assumes "host_ok H" "vec_ok key" "serialize V v = Some b" "vec_ok b"
  shows "mock_run H (store_registry_entry H V key v) e = (Ok (), mock_put key b e)"
proof -
  have m: "message_new V v = Inr (OwnedBytes b)" using assms(3) by (simp add: message_new_def encode_def to_vec_def)
  obtain resp where resp: "response_new (h_unit H) () = Inr resp" "response_get (h_unit H) resp = Inr ()"
    using borsh_ok_response [OF host_ok_storage(5) [OF assms(1)]] by blast
  have "message_ok (OwnedBytes b)" using assms(4) by (simp add: vec_ok_def)
  from mock_storage_set [OF assms(1,2) this, of "[]"] obtain req where
    req: "invoke_request_new (StorageSetRequest H) \<lparr>ss_key = key, ss_value = OwnedBytes b\<rparr> = Inr req"
    "invoke_request_get (h_storage_set_request H) req = Inr \<lparr>ss_key = key, ss_value = OwnedBytes b\<rparr>"
    "req_function req = FUNCTION_IDENTIFIER (StorageSetRequest H)" by blast
  then have "mock_do_exec H STORAGE_ACCOUNT_ID req [] e = (Ok resp, mock_put key b e)"
    by (simp add: mock_do_exec_def mock_handle_storage_exec_def andThen_def lift_result_def resp(1) mock_put_def storage_key_def)
  with req(1) resp(2) show ?thesis
    by (simp add: store_registry_entry_def m exec_account_def attempt_def lift_result_def)
qed

lemma conflict_free_run:
  assumes "host_ok H" "storable (\<lambda>a. length a = 20) (ec_address C)" "holds_registry C (fwd, bwd) e" "length a = 20" "account_wf i"
  shows "mock_run_query H (ensure_mapping_conflict_free H C a i) e =
    (if conflicts (fwd a) i \<or> conflicts (bwd i) a then Err ERR_ADDRESS_ACCOUNT_CONFLICT else Ok (fwd a, bwd i), e)"
  by (simp add: ensure_mapping_conflict_free_def mock_run_simps andThen_def lift_result_def
      lookup_account_run [OF assms(1,3,4)] lookup_address_run [OF assms(1,2,3,5)])

section \<open>Registering a pair\<close>

fun registry_spec :: "address \<times> account_id \<Rightarrow> eoa_registry \<Rightarrow> (error_code, unit) outcome \<times> eoa_registry" where
  "registry_spec (a, i) (fwd, bwd) =
     (if conflicts (fwd a) i \<or> conflicts (bwd i) a then (Err ERR_ADDRESS_ACCOUNT_CONFLICT, (fwd, bwd))
      else (Ok (), (fwd(a \<mapsto> i), bwd(i \<mapsto> a))))"

lemma registry_at_put:
  "me_whoami e = RUNTIME_ACCOUNT_ID \<Longrightarrow> registry_at (mock_put k b e) k' = (if k' = k then Some b else registry_at e k')"
  "account_wf (me_whoami e) \<Longrightarrow> me_whoami e \<noteq> RUNTIME_ACCOUNT_ID \<Longrightarrow> registry_at (mock_put k b e) k' = registry_at e k'"
  by (auto simp: mock_put_def storage_key_def RUNTIME_ACCOUNT_ID_def)

text \<open>The two entries written when the pair is not registered yet.\<close>

definition registered_pair :: "eth_codecs \<Rightarrow> address \<Rightarrow> account_id \<Rightarrow> mock_env \<Rightarrow> mock_env" where
  "registered_pair C a i e = mock_put (id_to_addr_key i) (the (serialize (ec_address C) a)) (mock_put (addr_to_id_key a) i e)"

lemma ensure_eoa_mapping_run:
  assumes H: "host_ok H" and A: "storable (\<lambda>a. length a = 20) (ec_address C)"
    and e: "holds_registry C (fwd, bwd) e" and a: "length a = 20" and i: "account_wf i"
  shows "mock_run H (ensure_eoa_mapping H C a i) e =
    (if conflicts (fwd a) i \<or> conflicts (bwd i) a then (Err ERR_ADDRESS_ACCOUNT_CONFLICT, e)
     else (Ok (), if fwd a \<noteq> None \<and> bwd i \<noteq> None then e else registered_pair C a i e))"
proof -
  from A have B: "borsh_ok (\<lambda>a. length a = 20) (ec_address C)" by (simp add: storable_def)
  from borsh_okD [OF B a] obtain b where b: "serialize (ec_address C) a = Some b" by blast
  with A a have vb: "vec_ok b" by (auto simp: storable_def vec_ok_def)
  have ser: "serialize (h_account_id H) i = Some i" "vec_ok i" using H i by (simp_all add: host_ok_def vec_ok_def)
  note stores = store_entry_run [OF H registry_vec_ok(1) [OF a] ser] store_entry_run [OF H registry_vec_ok(2) [OF i] b vb]
  show ?thesis
    by (simp add: ensure_eoa_mapping_def set_mapping_def mock_run_simps andThen_def lift_result_def
        conflict_free_run [OF H A e a i] stores registered_pair_def b)
qed

lemma registered_pair_runtime:
  assumes "me_whoami e = RUNTIME_ACCOUNT_ID" "storable (\<lambda>a. length a = 20) (ec_address C)"
    and e: "holds_registry C (fwd, bwd) e" and "length a = 20" "account_wf i"
  shows "holds_registry C (fwd(a \<mapsto> i), bwd(i \<mapsto> a)) (registered_pair C a i e)"
proof -
  from assms(2) have B: "borsh_ok (\<lambda>a. length a = 20) (ec_address C)" by (simp add: storable_def)
  from borsh_okD [OF B assms(4)] obtain b where b: "serialize (ec_address C) a = Some b" by blast
  have who: "me_whoami (mock_put k v e) = RUNTIME_ACCOUNT_ID" for k v using assms(1) by simp
  have at: "registry_at (registered_pair C a i e) k =
      (if k = id_to_addr_key i then Some b else if k = addr_to_id_key a then Some i else registry_at e k)" for k
    by (simp only: registered_pair_def registry_at_put(1) [OF who] registry_at_put(1) [OF assms(1)] b option.sel)
  have fwd: "registry_at (registered_pair C a i e) (addr_to_id_key x) = (fwd(a \<mapsto> i)) x"
    "(fwd(a \<mapsto> i)) x = Some j \<Longrightarrow> account_wf j" if "length x = 20" for x j
    using holds_registryD(1) [OF e that] holds_registryD(2) [OF e that, of j] assms(5) by (simp_all add: at split: if_splits)
  have bwd: "registry_at (registered_pair C a i e) (id_to_addr_key j) = Option.bind ((bwd(i \<mapsto> a)) j) (serialize (ec_address C))"
    "(bwd(i \<mapsto> a)) j = Some x \<Longrightarrow> length x = 20" if "account_wf j" for x j
    using holds_registryD(3) [OF e that] holds_registryD(4) [OF e that, of x] assms(4) b by (simp_all add: at split: if_splits)
  from fwd bwd show ?thesis unfolding holds_registry_def prod.case by blast
qed

lemma registered_pair_other:
  assumes "account_wf (me_whoami e)" "me_whoami e \<noteq> RUNTIME_ACCOUNT_ID" "holds_registry C r e"
  shows "holds_registry C r (registered_pair C a i e)"
proof -
  have at: "registry_at (registered_pair C a i e) k = registry_at e k" for k
    using assms(1,2) by (simp add: registered_pair_def registry_at_put(2))
  obtain fwd bwd where r: "r = (fwd, bwd)" by (cases r)
  from assms(3) show ?thesis unfolding r holds_registry_def prod.case at .
qed

lemma registry_sim:
  assumes "host_ok H" "storable (\<lambda>a. length a = 20) (ec_address C)" "me_whoami e = RUNTIME_ACCOUNT_ID"
    and "holds_registry C r e" "length a = 20" "account_wf i"
  shows "fst (mock_run H (ensure_eoa_mapping H C a i) e) = fst (registry_spec (a, i) r) \<and>
    holds_registry C (snd (registry_spec (a, i) r)) (snd (mock_run H (ensure_eoa_mapping H C a i) e)) \<and>
    me_whoami (snd (mock_run H (ensure_eoa_mapping H C a i) e)) = RUNTIME_ACCOUNT_ID"
proof -
  obtain fwd bwd where r: "r = (fwd, bwd)" by (cases r)
  note e = assms(4) [unfolded r]
  have same: "fwd(a \<mapsto> i) = fwd \<and> bwd(i \<mapsto> a) = bwd" if "\<not> conflicts (fwd a) i" "\<not> conflicts (bwd i) a" "fwd a \<noteq> None" "bwd i \<noteq> None"
    using that by (auto simp: conflicts_def)
  have who: "me_whoami (registered_pair C a i e) = RUNTIME_ACCOUNT_ID" using assms(3) by (simp add: registered_pair_def)
  show ?thesis
    using same who assms(3) e registered_pair_runtime [OF assms(3,2) e assms(5,6)]
    by (auto simp: r ensure_eoa_mapping_run [OF assms(1,2) e assms(5,6)])
qed

section \<open>The two directions stay inverse\<close>

definition one_to_one :: "eoa_registry \<Rightarrow> bool" where
  "one_to_one = (\<lambda>(fwd, bwd). \<forall>a i. fwd a = Some i \<longleftrightarrow> bwd i = Some a)"

lemma registry_spec_one_to_one:
  assumes "one_to_one r"
  shows "one_to_one (snd (registry_spec op r))"
proof -
  obtain a i fwd bwd where eq: "op = (a, i)" "r = (fwd, bwd)" by (metis prod.collapse)
  have inv: "fwd x = Some j \<longleftrightarrow> bwd j = Some x" for x j using assms by (simp add: eq one_to_one_def)
  show ?thesis
  proof (cases "conflicts (fwd a) i \<or> conflicts (bwd i) a")
    case False
    then have "j \<noteq> i \<Longrightarrow> fwd a \<noteq> Some j" "x \<noteq> a \<Longrightarrow> bwd i \<noteq> Some x" for j x by (auto simp: conflicts_def)
    then have "j \<noteq> i \<Longrightarrow> bwd j \<noteq> Some a" "x \<noteq> a \<Longrightarrow> fwd x \<noteq> Some i" for j x using inv by blast+
    then have "(fwd(a \<mapsto> i)) x = Some j \<longleftrightarrow> (bwd(i \<mapsto> a)) j = Some x" for x j
      using inv [of x j] by (cases "x = a"; cases "j = i") simp_all
    with False show ?thesis by (simp add: eq one_to_one_def)
  qed (use assms in \<open>simp add: eq\<close>)
qed

lemma registry_spec_keeps: "fst r a = Some i \<Longrightarrow> fst (snd (registry_spec op r)) a = Some i"
  by (cases op; cases r) (auto simp: conflicts_def split: option.splits)

lemma run_registry_spec:
  "one_to_one r \<Longrightarrow> one_to_one (snd (run_seq registry_spec ops r))"
  "fst r a = Some i \<Longrightarrow> fst (snd (run_seq registry_spec ops r)) a = Some i"
proof (induction ops arbitrary: r)
  case (Cons op ops)
  { case 1 from Cons.IH(1) [OF registry_spec_one_to_one [OF 1, of op]] show ?case by (simp add: split_beta) }
  { case 2 from Cons.IH(2) [OF registry_spec_keeps [OF 2, of op]] show ?case by (simp add: split_beta) }
qed simp_all

end
