(* ===== verification/Eth_Account.thy ===== *)
theory Eth_Account
  imports Eth_Context Accounts Mock_Refinement Data_Refinement
begin

text \<open>
  The account of an Ethereum key (\<open>bin/testapp/src/eth_eoa.rs\<close>), which authenticates transaction
  contexts by sender and nonce, and its simulation by a pair of an address and a nonce.
\<close>

section \<open>The account\<close>

record eth_eoa_account =
  ee_nonce :: "u64 item"
  ee_eth_address :: "address item"

definition eth_eoa_new :: "host \<Rightarrow> eth_codecs \<Rightarrow> eth_eoa_account" where
  "eth_eoa_new H C = \<lparr>ee_nonce = item_new H 0 (h_u64 H), ee_eth_address = item_new H 1 (ec_address C)\<rparr>"

definition increment_nonce :: "host \<Rightarrow> eth_eoa_account \<Rightarrow> unit prog" where
  "increment_nonce H E =
     pbind (item_update H (ee_nonce E) (\<lambda>v. ok_or ERR_NONCE_OVERFLOW (checked_add (unwrap_or_default v) 1))) (\<lambda>_.
     Return (Inr ()))"

definition authenticate_canonical_tx :: "host \<Rightarrow> eth_eoa_account \<Rightarrow> tx_context \<Rightarrow> address \<Rightarrow> unit prog" where
  "authenticate_canonical_tx H E tx expected_address =
     (case sender_address tx of
        None \<Rightarrow> Return (Inl ERR_SENDER_MISMATCH)
      | Some sender_addr \<Rightarrow>
          if sender_addr \<noteq> expected_address then Return (Inl ERR_SENDER_MISMATCH)
          else
            pbind (of_query (item_may_get H (ee_nonce E))) (\<lambda>n.
            case cmp (xc_nonce tx) (unwrap_or_default n) of
              Less \<Rightarrow> Return (Inl ERR_NONCE_TOO_LOW)
            | Greater \<Rightarrow> Return (Inl ERR_NONCE_TOO_HIGH)
            | Equal \<Rightarrow> increment_nonce H E))"

definition eth_eoa_initialize :: "host \<Rightarrow> eth_eoa_account \<Rightarrow> address \<Rightarrow> unit prog" where
  "eth_eoa_initialize H E eth_address =
     pbind (item_set H (ee_nonce E) 0) (\<lambda>_. item_set H (ee_eth_address E) eth_address)"

definition get_nonce :: "host \<Rightarrow> eth_eoa_account \<Rightarrow> u64 qprog" where
  "get_nonce H E = qbind (item_may_get H (ee_nonce E)) (\<lambda>n. QReturn (Inr (unwrap_or_default n)))"

definition zero_address :: address where "zero_address = replicate 20 0"

definition get_eth_address :: "host \<Rightarrow> eth_eoa_account \<Rightarrow> address qprog" where
  "get_eth_address H E =
     qbind (item_may_get H (ee_eth_address E)) (\<lambda>a. QReturn (Inr (case a of Some x \<Rightarrow> x | None \<Rightarrow> zero_address)))"

text \<open>\<open>Message::get::<TxContext>\<close>.\<close>

fun message_get_context :: "host \<Rightarrow> alloy \<Rightarrow> eth_codecs \<Rightarrow> message \<Rightarrow> error_code + tx_context" where
  "message_get_context H L C (OwnedBytes b) = context_decode H L C b"

definition authenticate :: "host \<Rightarrow> alloy \<Rightarrow> eth_codecs \<Rightarrow> eth_eoa_account \<Rightarrow> message \<Rightarrow> unit prog" where
  "authenticate H L C E tx =
     pbind (of_query (item_may_get H (ee_eth_address E))) (\<lambda>a.
     let expected_address = (case a of Some x \<Rightarrow> x | None \<Rightarrow> zero_address) in
     case message_get_context H L C tx of
       Inr mempool_tx \<Rightarrow> authenticate_canonical_tx H E mempool_tx expected_address
     | Inl _ \<Rightarrow>
         (case message_get (ec_address C) tx of
            Inr sender_addr \<Rightarrow>
              if sender_addr \<noteq> expected_address then Return (Inl ERR_SENDER_MISMATCH) else increment_nonce H E
          | Inl _ \<Rightarrow>
              (case message_get (h_account_id H) tx of
                 Inr sender_id \<Rightarrow>
                   Ask (\<lambda>env. if sender_id \<noteq> env_whoami env then Return (Inl ERR_SENDER_MISMATCH) else increment_nonce H E)
               | Inl _ \<Rightarrow>
                   (case message_get_context H L C tx of
                      Inr mempool_tx \<Rightarrow>
                        (case sender_address mempool_tx of
                           None \<Rightarrow> Return (Inl ERR_SENDER_MISMATCH)
                         | Some sender_bytes \<Rightarrow>
                             if sender_bytes \<noteq> expected_address then Return (Inl ERR_SENDER_MISMATCH) else increment_nonce H E)
                    | Inl _ \<Rightarrow> increment_nonce H E))))"

record eth_eoa_codecs =
  eec_initialize_msg :: "address borsh"
  eec_authenticate_msg :: "message borsh"
  eec_empty_msg :: "unit borsh"

definition eth_eoa_code :: "host \<Rightarrow> alloy \<Rightarrow> eth_codecs \<Rightarrow> eth_eoa_codecs \<Rightarrow> account_code" where
  "eth_eoa_code H L C M =
     (let E = eth_eoa_new H C; id = compute_function_id H in
      \<lparr>ac_identifier = ETH_EOA_CODE_ID,
       ac_init = init_arm False (eec_initialize_msg M) (h_unit H) (eth_eoa_initialize H E),
       ac_execute = exec_dispatch
         [(id ''authenticate'', exec_arm False (eec_authenticate_msg M) (h_unit H) (authenticate H L C E))],
       ac_query = query_dispatch
         [(id ''get_nonce'', query_arm (eec_empty_msg M) (h_u64 H) (\<lambda>_. get_nonce H E)),
          (id ''get_eth_address'', query_arm (eec_empty_msg M) (ec_address C) (\<lambda>_. get_eth_address H E))]\<rparr>)"

section \<open>What it stores\<close>

locale eth_eoa_storage = nn: typed_map H "\<lambda>_. True" "\<lambda>_. True" "ee_nonce E"
    + ad: typed_map H "\<lambda>_. True" "\<lambda>a. length a = 20" "ee_eth_address E"
  for H :: host and E :: eth_eoa_account +
  assumes prefixes: "sm_prefix (ee_nonce E) \<noteq> sm_prefix (ee_eth_address E)"

definition holds_eoa :: "eth_eoa_account \<Rightarrow> account_id \<Rightarrow> address \<times> u64 \<Rightarrow> mock_env \<Rightarrow> bool" where
  "holds_eoa E who = (\<lambda>(a, n) e. account_wf who \<and> me_whoami e = who \<and>
     typed (\<lambda>_. True) (\<lambda>_. True) (ee_nonce E) e \<and> typed (\<lambda>_. True) (\<lambda>a. length a = 20) (ee_eth_address E) e \<and>
     contents (ee_eth_address E) e () = Some a \<and> contents (ee_nonce E) e () = Some n)"

text \<open>A call of \<open>authenticate\<close> is its sender and its payload.\<close>

definition eoa_step ::
    "host \<Rightarrow> alloy \<Rightarrow> eth_codecs \<Rightarrow> eth_eoa_account \<Rightarrow> account_id \<times> message \<Rightarrow> (mock_env, error_code, unit) comp" where
  "eoa_step H L C E = (\<lambda>(s, m) e. mock_run H (authenticate H L C E m) (with_sender s e))"

definition bump :: "address \<times> u64 \<Rightarrow> (error_code, unit) outcome \<times> address \<times> u64" where
  "bump = (\<lambda>(a, n). case checked_add n 1 of None \<Rightarrow> (Err ERR_NONCE_OVERFLOW, (a, n)) | Some n' \<Rightarrow> (Ok (), (a, n')))"

definition eoa_spec ::
    "host \<Rightarrow> alloy \<Rightarrow> eth_codecs \<Rightarrow> account_id \<Rightarrow> account_id \<times> message \<Rightarrow> address \<times> u64 \<Rightarrow>
       (error_code, unit) outcome \<times> address \<times> u64" where
  "eoa_spec H L C who = (\<lambda>(s, m) (a, n).
     case message_get_context H L C m of
       Inr ctx \<Rightarrow>
         if sender_address ctx \<noteq> Some a then (Err ERR_SENDER_MISMATCH, (a, n))
         else if xc_nonce ctx < n then (Err ERR_NONCE_TOO_LOW, (a, n))
         else if xc_nonce ctx > n then (Err ERR_NONCE_TOO_HIGH, (a, n))
         else bump (a, n)
     | Inl _ \<Rightarrow>
         (case message_get (ec_address C) m of
            Inr b \<Rightarrow> if b \<noteq> a then (Err ERR_SENDER_MISMATCH, (a, n)) else bump (a, n)
          | Inl _ \<Rightarrow>
              (case message_get (h_account_id H) m of
                 Inr i \<Rightarrow> if i \<noteq> who then (Err ERR_SENDER_MISMATCH, (a, n)) else bump (a, n)
               | Inl _ \<Rightarrow> bump (a, n))))"

context eth_eoa_storage
begin

lemma eoa_reads:
  assumes "holds_eoa E who (a, n) e"
  shows "mock_run_query H (item_may_get H (ee_eth_address E)) e = (Ok (Some a), e)"
    "mock_run_query H (item_may_get H (ee_nonce E)) e = (Ok (Some n), e)"
  using assms ad.may_get_run [where e = e and k = "()"] nn.may_get_run [where e = e and k = "()"]
  by (auto simp: holds_eoa_def item_may_get_def)

lemma eoa_sender: "holds_eoa E who st (with_sender s e) \<longleftrightarrow> holds_eoa E who st e"
  by (cases st) (simp add: holds_eoa_def with_sender_def contents_def typed_def mock_lookup_def)

lemma eoa_increment:
  assumes "holds_eoa E who st e"
  shows "fst (mock_run H (increment_nonce H E) e) = fst (bump st) \<and>
    holds_eoa E who (snd (bump st)) (snd (mock_run H (increment_nonce H E) e))"
proof -
  obtain a n where st: "st = (a, n)" by (cases st)
  from assms prefixes [symmetric] show ?thesis
    by (auto simp: st increment_nonce_def mock_run_simps andThen_def item_update_def nn.update_run holds_eoa_def bump_def
        unwrap_or_default_def ok_or_def lift_result_def nn.contents_put split: option.splits)
qed

lemma eoa_canonical:
  assumes "holds_eoa E who (a, n) e"
  shows "mock_run H (authenticate_canonical_tx H E ctx a) e =
    (if sender_address ctx \<noteq> Some a then (Err ERR_SENDER_MISMATCH, e)
     else if xc_nonce ctx < n then (Err ERR_NONCE_TOO_LOW, e)
     else if xc_nonce ctx > n then (Err ERR_NONCE_TOO_HIGH, e)
     else mock_run H (increment_nonce H E) e)"
  by (auto simp: authenticate_canonical_tx_def mock_run_simps andThen_def lift_result_def eoa_reads [OF assms]
      unwrap_or_default_def cmp_def split: option.splits)

lemma eoa_sim:
  assumes "holds_eoa E who st e"
  shows "fst (eoa_step H L C E op e) = fst (eoa_spec H L C who op st) \<and>
    holds_eoa E who (snd (eoa_spec H L C who op st)) (snd (eoa_step H L C E op e))"
proof -
  obtain s m a n where eq: "op = (s, m)" "st = (a, n)" by (metis prod.collapse)
  let ?e = "with_sender s e"
  have h: "holds_eoa E who (a, n) ?e" using assms by (simp add: eq eoa_sender)
  then have who: "env_whoami (mock_view ?e) = who" by (simp add: holds_eoa_def mock_view_def)
  note inc = eoa_increment [OF h]
  show ?thesis using inc h
    by (auto simp: eq eoa_step_def authenticate_def eoa_spec_def mock_run_simps andThen_def lift_result_def eoa_reads [OF h]
        eoa_canonical [OF h] who split: sum.splits)
qed

lemma eoa_initialize_run:
  assumes "length a = 20" "account_wf who"
  obtains e where "mock_run H (eth_eoa_initialize H E a) (mock_new who s) = (Ok (), e)" "holds_eoa E who (a, 0) e"
proof -
  let ?e1 = "mock_put (key_bytes (ee_nonce E) ()) (value_bytes (ee_nonce E) 0) (mock_new who s)"
  let ?e = "mock_put (key_bytes (ee_eth_address E) ()) (value_bytes (ee_eth_address E) a) ?e1"
  have "mock_run H (eth_eoa_initialize H E a) (mock_new who s) = (Ok (), ?e)"
    by (simp add: eth_eoa_initialize_def mock_run_simps andThen_def item_set_def ad.set_run nn.set_run assms)
  moreover have "me_whoami (mock_new who s) = who" by (simp add: mock_new_def)
  then have "holds_eoa E who (a, 0) ?e"
    using assms prefixes prefixes [symmetric] by (simp add: holds_eoa_def ad.contents_put nn.contents_put)
  ultimately show ?thesis by (rule that)
qed

end

sublocale eth_eoa_storage \<subseteq> eoa: data_refinement "eoa_step H L C E" "eoa_spec H L C who" "holds_eoa E who" "\<lambda>_ _. True"
  for L C who by unfold_locales (simp_all add: eoa_sim)

lemma eth_eoa_storage_new:
  "host_ok H \<Longrightarrow> storable (\<lambda>a. length a = 20) (ec_address C) \<Longrightarrow> eth_eoa_storage H (eth_eoa_new H C)"
  using storable_host [of H]
  by (simp add: eth_eoa_storage_def eth_eoa_storage_axioms_def typed_map_def eth_eoa_new_def item_new_def map_new_def)

text \<open>Accepted contexts, by their nonces.\<close>

definition accepted_nonces ::
    "host \<Rightarrow> alloy \<Rightarrow> eth_codecs \<Rightarrow> ('e, unit) outcome list \<Rightarrow> (account_id \<times> message) list \<Rightarrow> (address option \<times> u64) list" where
  "accepted_nonces H L C rs calls =
     concat (map (\<lambda>(r, s, m). case message_get_context H L C m of
        Inr ctx \<Rightarrow> if r = Ok () then [(sender_address ctx, xc_nonce ctx)] else []
      | Inl _ \<Rightarrow> []) (zip rs calls))"

lemma bump_Ok: "fst (bump (a, n)) = Ok () \<Longrightarrow> fst (snd (bump (a, n))) = a \<and> n < snd (snd (bump (a, n)))"
  by (auto simp: bump_def checked_add_def word_less_nat_alt unat_word_ariths split: option.splits if_splits)

lemma bump_keeps: "fst (snd (bump (a, n))) = a" "n \<le> snd (snd (bump (a, n)))"
  using bump_Ok [of a n] by (auto simp: bump_def split: option.splits)

lemma eoa_spec_keeps: "fst (snd (eoa_spec H L C who op (a, n))) = a" "n \<le> snd (snd (eoa_spec H L C who op (a, n)))"
  by (auto simp: eoa_spec_def bump_keeps split: prod.splits sum.splits)

lemma eoa_accepts:
  assumes "message_get_context H L C m = Inr ctx" "fst (eoa_spec H L C who (s, m) (a, n)) = Ok ()"
  shows "sender_address ctx = Some a" "xc_nonce ctx = n" "n < snd (snd (eoa_spec H L C who (s, m) (a, n)))"
  using assms bump_Ok [of a n] by (auto simp: eoa_spec_def split: if_splits)

lemma accepted_nonces_increase:
  fixes H :: host and L :: alloy and C :: eth_codecs and who :: account_id
  defines "acc \<equiv> \<lambda>calls n a. accepted_nonces H L C (fst (run_seq (eoa_spec H L C who) calls (a, n))) calls"
  shows "sorted_wrt (<) (map snd (acc calls n a)) \<and> list_all (\<lambda>(s, k). s = Some a \<and> n \<le> k) (acc calls n a)"
proof (induction calls arbitrary: n)
  case (Cons call calls)
  obtain s m where call: "call = (s, m)" by (cases call)
  obtain r n' where step: "eoa_spec H L C who call (a, n) = (r, (a, n'))"
    using eoa_spec_keeps(1) [of H L C who call a n] by (metis prod.collapse)
  then have le: "n \<le> n'" using eoa_spec_keeps(2) [of n H L C who call a] by simp
  have acc: "acc (call # calls) n a =
      (case message_get_context H L C m of Inr ctx \<Rightarrow> if r = Ok () then [(sender_address ctx, xc_nonce ctx)] else [] | Inl _ \<Rightarrow> [])
      @ acc calls n' a"
    using step by (cases "message_get_context H L C m") (simp_all add: acc_def accepted_nonces_def call split_beta)
  show ?case
  proof (cases "message_get_context H L C m")
    case (Inr ctx)
    show ?thesis
    proof (cases "r = Ok ()")
      case True
      with eoa_accepts [OF Inr, of who s a n] step have "sender_address ctx = Some a" "xc_nonce ctx = n" "n < n'"
        by (simp_all add: call)
      with Cons.IH [of n'] True Inr show ?thesis by (auto simp: acc list_all_iff)
    next
      case False
      with Cons.IH [of n'] le Inr show ?thesis by (auto simp: acc list_all_iff)
    qed
  next
    case (Inl e)
    with Cons.IH [of n'] le show ?thesis by (auto simp: acc list_all_iff)
  qed
qed (simp add: acc_def accepted_nonces_def)

end
