(* ===== verification/Eth_Theorems.thy ===== *)
theory Eth_Theorems
  imports Eth_Registry Eth_Account Reference_Host
begin

text \<open>The properties of the Ethereum transactions.\<close>

section \<open>The libraries in memory\<close>

text \<open>
  A stand-in for RLP: byte strings are written byte by byte with a marker before each byte and a
  different one at the end, transactions as the tuple of their fields after the byte \<open>0xc0\<close>. The
  stand-in for key recovery reads the key off the signature.
\<close>

fun esc :: "bytes \<Rightarrow> bytes" where
  "esc [] = [0]"
| "esc (b # bs) = 1 # b # esc bs"

fun unesc :: "bytes \<Rightarrow> (bytes \<times> bytes) option" where
  "unesc [] = None"
| "unesc [x] = (if x = 0 then Some ([], []) else None)"
| "unesc (x # b # r) =
     (if x = 0 then Some ([], b # r) else map_option (\<lambda>(bs, s). (b # bs, s)) (unesc r))"

definition stream_codec :: "bytes borsh" where
  "stream_codec = \<lparr>serialize = (\<lambda>b. Some (esc b)), deserialize_reader = unesc\<rparr>"

lemma unesc_zero: "unesc (0 # r) = Some ([], r)"
  by (cases r) simp_all

lemma unesc_esc: "unesc (esc bs @ rest) = Some (bs, rest)"
  by (induction bs) (simp_all add: unesc_zero)

lemma length_esc: "length (esc bs) = 2 * length bs + 1"
  by (induction bs) simp_all

lemma stream_codec_ok: "borsh_ok (\<lambda>_. True) stream_codec"
  by (rule borsh_okI) (simp add: stream_codec_def unesc_esc)

text \<open>Lists, with the same markers.\<close>

fun seq_write :: "'a borsh \<Rightarrow> 'a list \<Rightarrow> bytes option" where
  "seq_write B [] = Some [0]"
| "seq_write B (x # xs) = Option.bind (serialize B x) (\<lambda>a. map_option (\<lambda>b. 1 # a @ b) (seq_write B xs))"

fun seq_read :: "'a borsh \<Rightarrow> nat \<Rightarrow> bytes \<Rightarrow> ('a list \<times> bytes) option" where
  "seq_read B 0 r = None"
| "seq_read B (Suc n) [] = None"
| "seq_read B (Suc n) (t # r) =
     (if t = 0 then Some ([], r)
      else Option.bind (deserialize_reader B r) (\<lambda>(x, r'). map_option (\<lambda>(xs, s). (x # xs, s)) (seq_read B n r')))"

definition seq_codec :: "'a borsh \<Rightarrow> 'a list borsh" where
  "seq_codec B = \<lparr>serialize = seq_write B, deserialize_reader = (\<lambda>r. seq_read B (length r) r)\<rparr>"

lemma seq_read_write:
  assumes "borsh_ok (\<lambda>_. True) B"
  shows "\<exists>b. seq_write B xs = Some b \<and> length xs < length b \<and> (\<forall>n rest. length xs < n \<longrightarrow> seq_read B n (b @ rest) = Some (xs, rest))"
proof (induction xs)
  case Nil
  have "0 < n \<Longrightarrow> seq_read B n (0 # rest) = Some ([], rest)" for n rest by (cases n) simp_all
  then show ?case by simp
next
  case (Cons x xs)
  then obtain b where b: "seq_write B xs = Some b" "length xs < length b"
    "\<And>n rest. length xs < n \<Longrightarrow> seq_read B n (b @ rest) = Some (xs, rest)" by blast
  obtain a where a: "serialize B x = Some a" "\<And>rest. deserialize_reader B (a @ rest) = Some (x, rest)"
    using borsh_okD [OF assms TrueI] by blast
  have "Suc (length xs) < n \<Longrightarrow> seq_read B n (1 # a @ b @ rest) = Some (x # xs, rest)" for n rest
    using a(2) b(3) by (cases n) simp_all
  with a(1) b(1,2) show ?case by simp
qed

lemma seq_codec_ok: "borsh_ok (\<lambda>_. True) B \<Longrightarrow> borsh_ok (\<lambda>_. True) (seq_codec B)"
proof (rule borsh_okI)
  fix xs :: "'a list"
  assume "borsh_ok (\<lambda>_. True) B"
  from seq_read_write [OF this, of xs] obtain b where b: "seq_write B xs = Some b" "length xs < length b"
    "\<And>n rest. length xs < n \<Longrightarrow> seq_read B n (b @ rest) = Some (xs, rest)" by blast
  have "length xs < length (b @ rest)" for rest using b(2) by simp
  with b show "\<exists>b. serialize (seq_codec B) xs = Some b \<and> (\<forall>rest. deserialize_reader (seq_codec B) (b @ rest) = Some (xs, rest))"
    by (simp add: seq_codec_def)
qed

text \<open>Codecs that consume a prefix of what they read.\<close>

definition consumes :: "'a borsh \<Rightarrow> bool" where
  "consumes B \<longleftrightarrow> (\<forall>r x rest. deserialize_reader B r = Some (x, rest) \<longrightarrow> (\<exists>pre. r = pre @ rest))"

lemma consumes_le: "consumes (le_codec n)"
  by (auto simp: consumes_def le_codec_def split: if_splits) (metis append_take_drop_id)

lemma consumes_bool: "consumes bool_codec"
  by (auto simp: consumes_def bool_codec_def split: list.splits if_splits)

lemma unesc_consumes: "unesc r = Some (x, rest) \<Longrightarrow> \<exists>pre. r = pre @ rest"
proof (induction r arbitrary: x rule: unesc.induct)
  case (3 a b r)
  show ?case
  proof (cases "a = 0")
    case False
    with 3 obtain y where "unesc r = Some (y, rest)" by auto
    from 3(1) [OF False this] obtain pre where "r = pre @ rest" by blast
    then show ?thesis by (intro exI [of _ "a # b # pre"]) simp
  qed (use 3 in \<open>auto intro: exI [of _ "[a]"]\<close>)
qed (auto split: if_splits)

lemma consumes_stream: "consumes stream_codec"
  by (auto simp: consumes_def stream_codec_def unesc_consumes)

lemma consumes_option: "consumes B \<Longrightarrow> consumes (option_codec B)"
  unfolding consumes_def option_codec_def
  by (auto split: list.splits if_splits) (metis append_Cons)+

lemma consumes_pair:
  assumes "consumes A" "consumes B"
  shows "consumes (pair_codec A B)"
  unfolding consumes_def
proof (intro allI impI)
  fix r x rest assume "deserialize_reader (pair_codec A B) r = Some (x, rest)"
  then obtain r' where "deserialize_reader A r = Some (fst x, r')" "deserialize_reader B r' = Some (snd x, rest)"
    by (auto simp: pair_codec_def split: option.splits)
  with assms obtain p q where "r = p @ r'" "r' = q @ rest" unfolding consumes_def by blast
  then show "\<exists>pre. r = pre @ rest" by (intro exI [of _ "p @ q"]) simp
qed

lemma consumes_struct: "consumes A \<Longrightarrow> consumes (struct_codec mk sel A)"
  by (auto simp: consumes_def struct_codec_def)

lemma consumes_seq:
  assumes "consumes B"
  shows "consumes (seq_codec B)"
proof -
  have "seq_read B n r = Some (xs, rest) \<Longrightarrow> \<exists>pre. r = pre @ rest" for n r xs rest
  proof (induction n arbitrary: r xs)
    case (Suc n)
    then obtain t q where r: "r = t # q" by (cases r) auto
    show ?case
    proof (cases "t = 0")
      case True
      with Suc.prems show ?thesis by (auto simp: r intro: exI [of _ "[t]"])
    next
      case False
      with Suc.prems obtain x q' ys where q: "deserialize_reader B q = Some (x, q')" "seq_read B n q' = Some (ys, rest)"
        by (auto simp: r bind_eq_Some_conv)
      from assms q(1) obtain p where "q = p @ q'" unfolding consumes_def by blast
      moreover from Suc.IH [OF q(2)] obtain p' where "q' = p' @ rest" by blast
      ultimately show ?thesis by (intro exI [of _ "t # p @ p'"]) (simp add: r)
    qed
  qed simp
  then show ?thesis by (auto simp: consumes_def seq_codec_def)
qed

lemmas consumes_parts = consumes_seq consumes_le consumes_bool consumes_stream consumes_option consumes_pair consumes_struct

definition signature_codec :: "signature borsh" where
  "signature_codec = struct_codec (\<lambda>(r, s, v). \<lparr>sg_r = r, sg_s = s, sg_v = v\<rparr>) (\<lambda>x. (sg_r x, sg_s x, sg_v x))
     (pair_codec (le_codec 32) (pair_codec (le_codec 32) bool_codec))"

definition legacy_codec :: "tx_legacy signed borsh" where
  "legacy_codec = struct_codec
     (\<lambda>(c, n, p, g, t, v, i, s). \<lparr>sd_tx = \<lparr>tl_chain_id = c, tl_nonce = n, tl_gas_price = p, tl_gas_limit = g,
        tl_to = t, tl_value = v, tl_input = i\<rparr>, sd_signature = s\<rparr>)
     (\<lambda>x. (tl_chain_id (sd_tx x), tl_nonce (sd_tx x), tl_gas_price (sd_tx x), tl_gas_limit (sd_tx x),
        tl_to (sd_tx x), tl_value (sd_tx x), tl_input (sd_tx x), sd_signature x))
     (pair_codec (option_codec (le_codec 8)) (pair_codec (le_codec 8) (pair_codec (le_codec 16) (pair_codec (le_codec 8)
       (pair_codec (option_codec stream_codec) (pair_codec (le_codec 32) (pair_codec stream_codec signature_codec)))))))"

definition eip1559_codec :: "tx_eip1559 signed borsh" where
  "eip1559_codec = struct_codec
     (\<lambda>(c, n, g, m, p, t, v, a, i, s). \<lparr>sd_tx = \<lparr>tf_chain_id = c, tf_nonce = n, tf_gas_limit = g, tf_max_fee_per_gas = m,
        tf_max_priority_fee_per_gas = p, tf_to = t, tf_value = v, tf_access_list = a, tf_input = i\<rparr>, sd_signature = s\<rparr>)
     (\<lambda>x. (tf_chain_id (sd_tx x), tf_nonce (sd_tx x), tf_gas_limit (sd_tx x), tf_max_fee_per_gas (sd_tx x),
        tf_max_priority_fee_per_gas (sd_tx x), tf_to (sd_tx x), tf_value (sd_tx x), tf_access_list (sd_tx x), tf_input (sd_tx x), sd_signature x))
     (pair_codec (le_codec 8) (pair_codec (le_codec 8) (pair_codec (le_codec 8) (pair_codec (le_codec 16) (pair_codec (le_codec 16)
       (pair_codec (option_codec stream_codec) (pair_codec (le_codec 32)
       (pair_codec (seq_codec (pair_codec stream_codec (seq_codec stream_codec))) (pair_codec stream_codec signature_codec)))))))))"

definition listed :: "'t signed borsh \<Rightarrow> 't alloy_tx" where
  "listed B = \<lparr>al_decode = (\<lambda>b. case b of x # r \<Rightarrow> if x = 0xc0 then deserialize_reader B r else None | [] \<Rightarrow> None),
     al_encode = (\<lambda>s. 0xc0 # the (serialize B s)),
     al_signature_hash = (\<lambda>s. stand_in_keccak256 (the (serialize B s))),
     al_hash = (\<lambda>s. stand_in_keccak256 (0xc0 # the (serialize B s)))\<rparr>"

definition reference_alloy :: alloy where
  "reference_alloy = \<lparr>al_legacy = listed legacy_codec, al_eip1559 = listed eip1559_codec,
     al_recover = (\<lambda>compact recid digest. Some (4 # compact))\<rparr>"

lemma le_total:
  "borsh_ok (\<lambda>_. True) (le_codec 2 :: u16 borsh)" "borsh_ok (\<lambda>_. True) (le_codec 8 :: u64 borsh)"
  "borsh_ok (\<lambda>_. True) (le_codec 16 :: u128 borsh)" "borsh_ok (\<lambda>_. True) (le_codec 32 :: u256 borsh)"
  by (rule le_codec_ok; simp)+

lemma signature_codec_ok: "borsh_ok (\<lambda>_. True) signature_codec"
  unfolding signature_codec_def
  by (rule struct_codec_ok [OF pair_codec_ok [OF le_total(4) pair_codec_ok [OF le_total(4) bool_codec_ok]]]) simp

lemma legacy_codec_ok: "borsh_ok (\<lambda>_. True) legacy_codec"
  unfolding legacy_codec_def
  by (rule struct_codec_ok [OF pair_codec_ok [OF option_codec_ok [OF le_total(2)] pair_codec_ok [OF le_total(2)
        pair_codec_ok [OF le_total(3) pair_codec_ok [OF le_total(2) pair_codec_ok [OF option_codec_ok [OF stream_codec_ok]
        pair_codec_ok [OF le_total(4) pair_codec_ok [OF stream_codec_ok signature_codec_ok]]]]]]]])
    (simp split: option.splits)

lemma access_list_codec_ok: "borsh_ok (\<lambda>_. True) (seq_codec (pair_codec stream_codec (seq_codec stream_codec)))"
proof (rule seq_codec_ok)
  show "borsh_ok (\<lambda>_. True) (pair_codec stream_codec (seq_codec stream_codec))"
    using pair_codec_ok [OF stream_codec_ok seq_codec_ok [OF stream_codec_ok]]
    by (rule back_subst [of "\<lambda>D. borsh_ok D (pair_codec stream_codec (seq_codec stream_codec))"]) (simp add: fun_eq_iff)
qed

lemma eip1559_codec_ok: "borsh_ok (\<lambda>_. True) eip1559_codec"
  unfolding eip1559_codec_def
  by (rule struct_codec_ok [OF pair_codec_ok [OF le_total(2) pair_codec_ok [OF le_total(2) pair_codec_ok [OF le_total(2)
        pair_codec_ok [OF le_total(3) pair_codec_ok [OF le_total(3) pair_codec_ok [OF option_codec_ok [OF stream_codec_ok]
        pair_codec_ok [OF le_total(4) pair_codec_ok [OF access_list_codec_ok pair_codec_ok [OF stream_codec_ok signature_codec_ok]]]]]]]]]])
    (simp split: option.splits)

lemma listed_ok:
  assumes "borsh_ok (\<lambda>_. True) B" "consumes B"
  shows "alloy_tx_ok (listed B)"
proof -
  have "al_decode (listed B) (al_encode (listed B) s @ rest) = Some (s, rest)" for s rest
    by (rule borsh_okD [OF assms(1) TrueI, of s]) (simp add: listed_def)
  moreover have "\<exists>pre. b = pre @ rest" if "al_decode (listed B) b = Some (s, rest)" for b s rest
  proof -
    from that obtain r where "b = 0xc0 # r" "deserialize_reader B r = Some (s, rest)"
      by (auto simp: listed_def split: list.splits if_splits)
    with assms(2) show ?thesis unfolding consumes_def by (metis append_Cons)
  qed
  moreover have "al_encode (listed B) s \<noteq> [] \<and> hd (al_encode (listed B) s) \<ge> 0xc0" for s by (simp add: listed_def)
  ultimately show ?thesis by (auto simp: alloy_tx_ok_def)
qed

lemma reference_alloy_ok: "alloy_ok reference_alloy"
proof -
  have "consumes legacy_codec" "consumes eip1559_codec"
    unfolding legacy_codec_def eip1559_codec_def signature_codec_def by (rule consumes_parts)+
  with legacy_codec_ok eip1559_codec_ok show ?thesis by (simp add: alloy_ok_def reference_alloy_def listed_ok)
qed

text \<open>The codecs of the Ethereum types; contexts with no funds.\<close>

definition payload_codec :: "tx_payload_wire borsh" where
  "payload_codec = struct_codec (\<lambda>(c, b). if c then CustomWire b else EoaWire b)
     (\<lambda>p. case p of EoaWire b \<Rightarrow> (False, b) | CustomWire b \<Rightarrow> (True, b)) (pair_codec bool_codec vec_codec)"

definition no_funds_codec :: "fungible_asset list borsh" where
  "no_funds_codec = struct_codec (\<lambda>_. []) (\<lambda>_. 0) (le_codec 4 :: u32 borsh)"

definition wire_codec :: "tx_context_wire borsh" where
  "wire_codec = struct_codec
     (\<lambda>(st, p, h, g, n, c, price, r, f, sa, ra, k, m, se, re). \<lparr>wi_sender_type = st, wi_payload = p, wi_tx_hash = h,
        wi_gas_limit = g, wi_nonce = n, wi_chain_id = c, wi_effective_gas_price = price, wi_invoke_request = r, wi_funds = f,
        wi_sender_account = sa, wi_recipient_account = ra, wi_sender_key = k, wi_authentication_payload = m,
        wi_sender_eth_address = se, wi_recipient_eth_address = re\<rparr>)
     (\<lambda>w. (wi_sender_type w, wi_payload w, wi_tx_hash w, wi_gas_limit w, wi_nonce w, wi_chain_id w, wi_effective_gas_price w,
        wi_invoke_request w, wi_funds w, wi_sender_account w, wi_recipient_account w, wi_sender_key w,
        wi_authentication_payload w, wi_sender_eth_address w, wi_recipient_eth_address w))
     (pair_codec (le_codec 2) (pair_codec payload_codec (pair_codec (fixed_codec 32) (pair_codec (le_codec 8)
       (pair_codec (le_codec 8) (pair_codec (option_codec (le_codec 8)) (pair_codec (le_codec 16)
       (pair_codec (host_invoke_request reference_host) (pair_codec no_funds_codec (pair_codec account_codec
       (pair_codec (option_codec account_codec) (pair_codec vec_codec (pair_codec message_codec
       (pair_codec (option_codec (fixed_codec 20)) (option_codec (fixed_codec 20))))))))))))))))"

definition reference_eth_codecs :: eth_codecs where
  "reference_eth_codecs = \<lparr>ec_address = fixed_codec 20, ec_wire = wire_codec,
     ec_intent = struct_codec (\<lambda>(e, a). \<lparr>ei_envelope = e, ei_auth_proof = a\<rparr>) (\<lambda>p. (ei_envelope p, ei_auth_proof p))
       (pair_codec vec_codec vec_codec)\<rparr>"

definition wire_ok :: "tx_context_wire \<Rightarrow> bool" where
  "wire_ok w \<longleftrightarrow> (case wi_payload w of EoaWire b \<Rightarrow> vec_ok b | CustomWire b \<Rightarrow> vec_ok b) \<and> length (wi_tx_hash w) = 32 \<and>
     request_ok (wi_invoke_request w) \<and> wi_funds w = [] \<and> account_wf (wi_sender_account w) \<and>
     pred_option account_wf (wi_recipient_account w) \<and> vec_ok (wi_sender_key w) \<and> message_ok (wi_authentication_payload w) \<and>
     pred_option (\<lambda>a. length a = 20) (wi_sender_eth_address w) \<and> pred_option (\<lambda>a. length a = 20) (wi_recipient_eth_address w)"

lemma payload_codec_ok: "borsh_ok (\<lambda>p. case p of EoaWire b \<Rightarrow> vec_ok b | CustomWire b \<Rightarrow> vec_ok b) payload_codec"
  unfolding payload_codec_def
  by (rule struct_codec_ok [OF pair_codec_ok [OF bool_codec_ok vec_codec_ok]]) (simp split: tx_payload_wire.splits)

lemma no_funds_codec_ok: "borsh_ok (\<lambda>f. f = []) no_funds_codec"
  unfolding no_funds_codec_def by (rule struct_codec_ok [OF le_codec_ok]) simp_all

lemma wire_codec_ok: "borsh_ok wire_ok wire_codec"
  unfolding wire_codec_def
  by (rule struct_codec_ok [OF pair_codec_ok [OF le_total(1) pair_codec_ok [OF payload_codec_ok pair_codec_ok [OF fixed_codec_ok
        pair_codec_ok [OF le_total(2) pair_codec_ok [OF le_total(2) pair_codec_ok [OF option_codec_ok [OF le_total(2)]
        pair_codec_ok [OF le_total(3) pair_codec_ok [OF invoke_request_codec_ok pair_codec_ok [OF no_funds_codec_ok
        pair_codec_ok [OF account_codec_ok pair_codec_ok [OF option_codec_ok [OF account_codec_ok] pair_codec_ok [OF vec_codec_ok
        pair_codec_ok [OF message_codec_ok pair_codec_ok [OF option_codec_ok [OF fixed_codec_ok] option_codec_ok [OF fixed_codec_ok]]]]]]]]]]]]]]]])
    (auto simp: wire_ok_def option.pred_set split: option.splits tx_payload_wire.splits)

lemma address_storable: "storable (\<lambda>a. length a = 20) (ec_address reference_eth_codecs)"
  using fixed_codec_ok [of 20] by (simp add: storable_def reference_eth_codecs_def fixed_codec_def)

interpretation ee: eth_eoa_storage reference_host "eth_eoa_new reference_host reference_eth_codecs"
  by (rule eth_eoa_storage_new [OF reference_host_ok address_storable])

section \<open>Envelopes\<close>

text \<open>C32. Decoding an envelope computes the signer of its contents and the hash of exactly the bytes read;
  encoding it again gives bytes that decode, before anything that may follow, to the same contents and
  the same sender.\<close>

theorem envelope_roundtrip:
  assumes "alloy_ok L" "envelope_decode H L raw = Inr e"
  shows "envelope_signer H L e = Inr (envelope_sender e) \<and> envelope_tx_hash e = h_keccak256 H raw \<and>
    (\<exists>e'. envelope_decode_from H L (envelope_encode L e @ rest) = Inr (e', rest) \<and> envelope_content e' = envelope_content e \<and>
       envelope_sender e' = envelope_sender e)"
  using decode_sound [OF assms] encode_decode_from [OF assms(1), of H e "envelope_sender e" rest] by auto

section \<open>The gateway\<close>

text \<open>C12. Whatever bytes the standard gateway accepts, the sender of the context it returns is the address
  that signed an envelope for this chain. For bytes in an Ethereum format the context says exactly
  what that envelope says: recipient, request, nonce, gas limit and the hash of the bytes.\<close>

theorem gateway_sender_authentic:
  assumes "alloy_ok L" "decode_and_verify H L C (gateway_with_base_fee c fee) raw = Inr ctx"
  shows "\<exists>e. xc_payload ctx = EoaPayload e \<and> envelope_signer H L e = Inr (envelope_sender e) \<and>
    sender_address ctx = Some (envelope_sender e) \<and> envelope_chain_id e = Some c \<and>
    (\<not> is_wire_encoded raw \<longrightarrow> bound_to e ctx \<and> envelope_decode H L raw = Inr e \<and> xc_tx_hash ctx = h_keccak256 H raw)"
  by (rule gateway_signed [OF assms])

text \<open>A transfer signed for chain 1.\<close>

definition example_signed :: "tx_legacy signed" where
  "example_signed = \<lparr>sd_tx = \<lparr>tl_chain_id = Some 1, tl_nonce = 0, tl_gas_price = 5, tl_gas_limit = 21000,
     tl_to = Some (replicate 20 7), tl_value = 0, tl_input = [0xa9, 0x05, 0x9c, 0xbb, 1]\<rparr>,
     sd_signature = \<lparr>sg_r = 3, sg_s = 4, sg_v = False\<rparr>\<rparr>"

definition example_sender :: address where
  "example_sender = drop 12 (be_bytes 32 (3 :: u256))"

definition example_raw :: bytes where
  "example_raw = al_encode (al_legacy reference_alloy) example_signed"

lemma example_signer:
  "envelope_signer reference_host reference_alloy (Legacy \<lparr>st_inner = example_signed, st_sender = s, st_hash = h\<rparr>) =
     Inr example_sender"
  by (simp add: envelope_signer_def recover_sender_from_signature_hash_def reference_alloy_def reference_host_def
      stand_in_keccak256_def example_signed_def example_sender_def)

lemma example_not_wire: "\<not> is_wire_encoded example_raw"
  by (simp add: example_raw_def reference_alloy_def listed_def is_wire_encoded_def TX_CONTEXT_WIRE_MAGIC_def str_bytes_def)

lemma example_decodes:
  obtains e where "envelope_decode reference_host reference_alloy example_raw = Inr e"
    "envelope_content e = Inl example_signed" "envelope_sender e = example_sender"
proof -
  let ?e = "Legacy \<lparr>st_inner = example_signed, st_sender = [], st_hash = []\<rparr>"
  have "envelope_encode reference_alloy ?e = example_raw" "envelope_content ?e = Inl example_signed"
    by (simp_all add: envelope_encode_def example_raw_def envelope_content_def)
  with encode_decode_from [OF reference_alloy_ok example_signer, of "[]" "[]" "[]"] obtain e where
    "envelope_decode_from reference_host reference_alloy example_raw = Inr (e, [])" "envelope_content e = Inl example_signed"
    "envelope_sender e = example_sender" by auto
  then show ?thesis by (intro that) (simp_all add: envelope_decode_def)
qed

lemma example_accepted:
  obtains ctx where "decode_and_verify reference_host reference_alloy reference_eth_codecs (gateway_with_base_fee 1 0) example_raw = Inr ctx"
    "sender_address ctx = Some example_sender" "xc_tx_hash ctx = h_keccak256 reference_host example_raw" "xc_funds ctx = []"
proof -
  obtain e where e: "envelope_decode reference_host reference_alloy example_raw = Inr e"
    "envelope_content e = Inl example_signed" "envelope_sender e = example_sender" by (rule example_decodes)
  from e(2) obtain tx where tx: "e = Legacy tx" "st_inner tx = example_signed"
    by (cases e) (simp_all add: envelope_content_def)
  obtain ctx where ctx: "tx_context_new reference_eth_codecs e 0 = Some ctx"
    by (simp add: tx_context_new_def tx envelope_to_invoke_requests_def envelope_to_def example_signed_def message_new_def
        encode_def to_vec_def reference_eth_codecs_def fixed_codec_def)
  have "envelope_chain_id e = Some 1" by (simp add: tx envelope_chain_id_def example_signed_def)
  with e(1) ctx have "decode_and_verify reference_host reference_alloy reference_eth_codecs (gateway_with_base_fee 1 0) example_raw = Inr ctx"
    unfolding decode_and_verify_plain [OF example_not_wire] by blast
  with tx_context_new_bound [OF ctx] decode_sound(1) [OF reference_alloy_ok e(1)] e(3) show ?thesis
    by (intro that) (auto simp: bound_to_def)
qed

theorem envelope_roundtrip_witness:
  "\<exists>e e'. envelope_decode reference_host reference_alloy example_raw = Inr e \<and> envelope_sender e = example_sender \<and>
     envelope_decode_from reference_host reference_alloy (envelope_encode reference_alloy e @ [1, 2]) = Inr (e', [1, 2]) \<and>
     envelope_sender e' = example_sender"
proof -
  obtain e where e: "envelope_decode reference_host reference_alloy example_raw = Inr e"
    "envelope_content e = Inl example_signed" "envelope_sender e = example_sender" by (rule example_decodes)
  from envelope_roundtrip [OF reference_alloy_ok e(1), of "[1, 2]"] e show ?thesis by auto
qed

theorem gateway_sender_authentic_witness:
  "\<exists>ctx e. decode_and_verify reference_host reference_alloy reference_eth_codecs (gateway_with_base_fee 1 0) example_raw = Inr ctx \<and>
     bound_to e ctx \<and> envelope_decode reference_host reference_alloy example_raw = Inr e"
proof -
  obtain ctx where ctx: "decode_and_verify reference_host reference_alloy reference_eth_codecs (gateway_with_base_fee 1 0) example_raw = Inr ctx"
    by (rule example_accepted)
  from gateway_sender_authentic [OF reference_alloy_ok ctx] ctx example_not_wire show ?thesis by blast
qed

definition forged_wire :: "bytes \<Rightarrow> tx_context \<Rightarrow> account_id \<Rightarrow> invoke_request \<Rightarrow> tx_context_wire" where
  "forged_wire raw ctx to req =
     \<lparr>wi_sender_type = EOA_SECP256K1, wi_payload = EoaWire raw, wi_tx_hash = xc_tx_hash ctx, wi_gas_limit = xc_gas_limit ctx,
      wi_nonce = xc_nonce ctx, wi_chain_id = xc_chain_id ctx, wi_effective_gas_price = xc_effective_gas_price ctx,
      wi_invoke_request = req, wi_funds = [], wi_sender_account = to, wi_recipient_account = Some to, wi_sender_key = [],
      wi_authentication_payload = OwnedBytes [], wi_sender_eth_address = sender_address ctx, wi_recipient_eth_address = None\<rparr>"

text \<open>C15. In the wire format nothing but the sender is bound to the signature. From any accepted transaction
  anyone can build bytes that the gateway accepts as well, that have the same sender and present the
  same authentication payload to the sender's account, and that carry a request and a recipient of
  their own choice.\<close>

theorem wire_request_unbound:
  assumes "borsh_ok D (ec_wire C)" "\<not> is_wire_encoded raw"
    and "decode_and_verify H L C (gateway_with_base_fee c fee) raw = Inr ctx" "D (forged_wire raw ctx to req)"
  shows "\<exists>raw' ctx'. decode_and_verify H L C (gateway_with_base_fee c fee) raw' = Inr ctx' \<and>
    sender_address ctx' = sender_address ctx \<and>
    context_authentication_payload H L C ctx' = context_authentication_payload H L C ctx \<and>
    xc_invoke_request ctx' = req \<and> xc_recipient_resolution ctx' = RecipientAccount to"
proof -
  from assms(3) obtain e where e: "envelope_decode H L raw = Inr e" "envelope_chain_id e = Some c" "tx_context_new C e fee = Some ctx"
    unfolding decode_and_verify_plain [OF assms(2)] by blast
  note b = tx_context_new_bound [OF e(3), unfolded bound_to_def]
  let ?w = "forged_wire raw ctx to req" and ?res = "SenderEoaAddress (envelope_sender e)"
  have "sender_key_new (wi_sender_key ?w) \<noteq> None" by (simp add: forged_wire_def sender_key_new_def MAX_SENDER_KEY_LEN_def)
  moreover have "decode_wire_payload H L ?w = Inr (EoaPayload e)"
    using b e(1) by (simp add: wire_payload_eoa forged_wire_def)
  moreover have "choose_sender (wi_sender_type ?w) (wi_sender_eth_address ?w) (wi_sender_account ?w) = Some ?res"
    using b by (simp add: choose_sender_def forged_wire_def)
  ultimately obtain bs where "context_decode H L C (TX_CONTEXT_WIRE_MAGIC @ bs) = Inr (wire_context ?w (EoaPayload e) ?res)"
    using wire_roundtrip [OF assms(1,4)] by blast
  then have "decode_and_verify H L C (gateway_with_base_fee c fee) (TX_CONTEXT_WIRE_MAGIC @ bs) = Inr (wire_context ?w (EoaPayload e) ?res)"
    unfolding decode_and_verify_wire [OF wire_encoded(1)] using b e(2) by (simp add: wire_context_def forged_wire_def)
  moreover have "context_authentication_payload H L C (wire_context ?w (EoaPayload e) ?res) = context_authentication_payload H L C ctx"
    using b by (simp add: context_authentication_payload_def context_encode_def wire_context_def)
  ultimately show ?thesis using b
    by (intro exI conjI) (assumption, simp_all add: wire_context_def forged_wire_def sender_address_def choose_recipient_def)
qed

definition drain_request :: invoke_request where
  "drain_request = invoke_request_new_from_message ''transfer'' 99 (message_from_bytes [255])"

theorem wire_request_unbound_witness:
  "\<exists>raw' ctx'. decode_and_verify reference_host reference_alloy reference_eth_codecs (gateway_with_base_fee 1 0) raw' = Inr ctx' \<and>
     sender_address ctx' = Some example_sender \<and> xc_invoke_request ctx' = drain_request \<and>
     xc_recipient_resolution ctx' = RecipientAccount (account_from_u64 70000)"
proof -
  obtain ctx where ctx: "decode_and_verify reference_host reference_alloy reference_eth_codecs (gateway_with_base_fee 1 0) example_raw = Inr ctx"
    "sender_address ctx = Some example_sender" "xc_tx_hash ctx = h_keccak256 reference_host example_raw" by (rule example_accepted)
  have "length example_raw < 500"
    by (simp add: example_raw_def reference_alloy_def listed_def legacy_codec_def signature_codec_def struct_codec_def pair_codec_def
        option_codec_def le_codec_def stream_codec_def bool_codec_def example_signed_def length_esc)
  then have ok: "wire_ok (forged_wire example_raw ctx (account_from_u64 70000) drain_request)"
    by (simp add: wire_ok_def forged_wire_def vec_ok_def ctx(2,3) example_sender_def reference_host_def stand_in_keccak256_def account_from_u64_def
        drain_request_def invoke_request_new_from_message_def request_ok_def message_from_bytes_def str_bytes_def str_ok_def utf8_chars_def)
  have "borsh_ok wire_ok (ec_wire reference_eth_codecs)" by (simp add: reference_eth_codecs_def wire_codec_ok)
  from wire_request_unbound [OF this example_not_wire ctx(1) ok] ctx(2) show ?thesis by auto
qed

section \<open>Contexts on the wire\<close>

text \<open>C31. A context with a custom payload, as \<open>from_payload\<close> makes them, is encoded and decoded to itself.\<close>

theorem custom_context_roundtrip:
  assumes "borsh_ok D (ec_wire C)" "from_payload (CustomPayload bs) st meta = Some ctx" "D (context_wire H bs ctx)"
  shows "\<exists>b. context_encode H L C ctx = Inr b \<and> context_decode H L C b = Inr ctx"
proof -
  note w = custom_wire_context [OF assms(2)]
  obtain b where "to_vec (ec_wire C) (context_wire H bs ctx) = Some b" "context_decode H L C (TX_CONTEXT_WIRE_MAGIC @ b) = Inr ctx"
    using wire_roundtrip [OF assms(1,3) w(2) w(3) w(4), of L] w(5) by metis
  then show ?thesis by (simp add: context_encode_def w(1))
qed

definition example_meta :: tx_context_meta where
  "example_meta = \<lparr>cm_tx_hash = replicate 32 5, cm_gas_limit = 21000, cm_nonce = 1, cm_chain_id = Some 1, cm_effective_gas_price = 1,
     cm_invoke_request = drain_request, cm_funds = [], cm_sender_account = account_from_u64 7001,
     cm_recipient_account = Some (account_from_u64 7002), cm_sender_key = [], cm_authentication_payload = OwnedBytes [171],
     cm_sender_eth_address = None, cm_recipient_eth_address = None\<rparr>"

theorem custom_context_roundtrip_witness:
  "\<exists>ctx b. from_payload (CustomPayload [1, 2]) CUSTOM example_meta = Some ctx \<and>
     context_encode reference_host reference_alloy reference_eth_codecs ctx = Inr b \<and>
     context_decode reference_host reference_alloy reference_eth_codecs b = Inr ctx"
proof -
  obtain ctx where ctx: "from_payload (CustomPayload [1, 2]) CUSTOM example_meta = Some ctx"
    by (simp add: from_payload_def choose_sender_def CUSTOM_def EOA_SECP256K1_def example_meta_def sender_key_new_def
        MAX_SENDER_KEY_LEN_def account_from_u64_def Let_def)
  have "wire_ok (context_wire reference_host [1, 2] ctx)"
    using ctx by (auto simp: from_payload_def choose_sender_def CUSTOM_def EOA_SECP256K1_def example_meta_def sender_key_new_def
        MAX_SENDER_KEY_LEN_def account_from_u64_def Let_def wire_ok_def context_wire_def context_sender_def choose_recipient_def vec_ok_def
        drain_request_def invoke_request_new_from_message_def request_ok_def message_from_bytes_def str_bytes_def str_ok_def utf8_chars_def)
  moreover have "borsh_ok wire_ok (ec_wire reference_eth_codecs)" by (simp add: reference_eth_codecs_def wire_codec_ok)
  ultimately show ?thesis using custom_context_roundtrip [OF _ ctx] ctx by blast
qed

section \<open>The registry\<close>











section \<open>The account of a key\<close>



text \<open>The account does not look at who calls it: a payload that is none of the formats it knows is accepted
  from any sender, and advances the nonce past the one its owner signed.\<close>

theorem eoa_accepts_unknown_payload:
  assumes "host_ok H" "storable (\<lambda>a. length a = 20) (ec_address C)" "holds_eoa (eth_eoa_new H C) who (a, n) e"
    and "context_decode H L C b = Inl err" "decode (ec_address C) b = Inl err2" "decode (h_account_id H) b = Inl err3"
    and "n < - 1"
  shows "\<exists>e'. mock_run H (authenticate H L C (eth_eoa_new H C) (OwnedBytes b)) (with_sender s e) = (Ok (), e') \<and>
    holds_eoa (eth_eoa_new H C) who (a, n + 1) e'"
proof -
  have "checked_add n 1 = Some (n + 1)"
    using assms(7) by (auto simp: checked_add_def word_less_nat_alt unat_minus_one_word)
  then have spec: "eoa_spec H L C who (s, OwnedBytes b) (a, n) = (Ok (), (a, n + 1))"
    using assms(4-6) by (simp add: eoa_spec_def bump_def)
  from eth_eoa_storage.eoa_sim [OF eth_eoa_storage_new [OF assms(1,2)] assms(3), of L C "(s, OwnedBytes b)"] show ?thesis
    by (cases "eoa_step H L C (eth_eoa_new H C) (s, OwnedBytes b) e") (auto simp: spec eoa_step_def)
qed

end
