(* ===== verification/Spec2Isabelle.thy ===== *)
theory Spec2Isabelle
  imports Core_Theorems Stf_Theorems Mempool_Theorems Collections_Theorems Account_Theorems Storage_Theorems Block_Store
    Server_Theorems Genesis_Theorems Eth_Theorems
begin

text \<open>
  \<^bold>\<open>Evolve: a verified model of the execution client\<close>

  The program is an execution client for a chain of accounts (all paths are under \<open>src/crates\<close>). A
  transaction reaches the \<^emph>\<open>pool\<close> (\<open>app/mempool\<close>); the \<^emph>\<open>development consensus\<close> (\<open>app/server\<close>) takes
  a proposal from the pool and gives it as a block to the \<^emph>\<open>state transition function\<close> (\<open>app/stf\<close>),
  which runs account code against the \<^emph>\<open>environment\<close> of the SDK (\<open>app/sdk/core\<close>); account code keeps
  its data in \<^emph>\<open>collections\<close> (\<open>app/sdk/collections\<close>), the standard accounts being those of
  \<open>app/sdk/extensions\<close> and \<open>app/sdk/standards\<close>. The changes of a block are written to the
  \<^emph>\<open>storage\<close> (\<open>storage\<close>), a cached Merkle database. \<^emph>\<open>Genesis\<close> (\<open>app/genesis\<close>) runs the first
  transactions of a chain. \<^emph>\<open>Ethereum transactions\<close> (\<open>app/tx/eth\<close>) enter through a gateway that decodes
  and verifies them; a registry relates addresses to accounts, and each key has an account of its own
  (\<open>bin/testapp/src/eth_eoa.rs\<close>).

  \<^bold>\<open>Conventions.\<close> Integers have the width of the source (\<open>u8\<close> to \<open>u128\<close> are words); arithmetic the
  source leaves unchecked wraps around, as in a release build; \<open>usize\<close> is \<open>nat\<close>. Byte strings are lists
  of bytes, strings lists of characters. A \<open>HashMap\<close> is an association list with distinct keys; where
  the code iterates over one, the order is a parameter. \<open>Result\<close> is a sum type with the error on the
  left; code that may also panic, or that nests calls, returns an \<open>outcome\<close> (\<open>Ok\<close>, \<open>Err\<close>, \<open>Panic\<close>,
  \<open>OutOfFuel\<close>). Third-party code is a parameter: a codec is a record \<open>borsh\<close> with the law \<open>borsh_ok\<close>,
  the libraries the SDK needs are the record \<open>host\<close> with \<open>host_ok\<close>, the Merkle database is \<open>qmdb\<close> with
  \<open>qmdb_ok\<close>, the block archive \<open>archive_ok\<close>, the hex library \<open>hex_lib\<close> with \<open>hex_ok\<close>. The library
  \<open>alloy\<close> for Ethereum transactions (RLP, signing hashes, key recovery) is the record \<open>alloy\<close> with
  \<open>alloy_ok\<close>, the codecs of the Ethereum types are \<open>eth_codecs\<close>. \<open>Reference_Host\<close>
  and the theories of theorems give concrete instances on which these laws are proved.

  \<^bold>\<open>The theories\<close>, in the order of the code.

  \<^item> \<open>Prelude\<close>: words, byte orders, hash maps, outcomes. \<open>Data_Refinement\<close>: simulation of sequences of
    operations (locale \<open>data_refinement\<close>). \<open>Binary_Heap\<close>: the standard library's heap, with the locale
    \<open>max_heap\<close> that the pool relies on.
  \<^item> \<open>Error_Codes\<close>, \<open>Sdk_Core\<close>, \<open>Sdk_Env\<close>: error codes, accounts, assets, messages and requests with
    their codecs, system requests, and account code as trees of environment calls, so that any account
    code is a value of the model.
  \<^item> \<open>Gas\<close>, \<open>Exec_State\<close>, \<open>Scope_Validation\<close>, \<open>Invoker\<close>, \<open>Stf\<close>: the gas counter, the checkpointed
    overlay, identifiers and checks, nested calls with the system handlers, and transactions and blocks.
    \<open>Invoker_Relations\<close> carries a relation between worlds through every call (locale
    \<open>world_relation\<close>, interpreted for rollback, gas and limits); \<open>Invoker_Outcomes\<close> settles panics and
    fuel; \<open>Stf_Props\<close> lifts both to blocks. \<open>Core_Theorems\<close>, \<open>Invoker_Theorems\<close> and \<open>Stf_Theorems\<close>
    hold the properties: atomicity, exact rollback, gas bounds, limits, absence of panics,
    termination, read-only queries, isolation of storage, what a failed transaction leaves behind.
  \<^item> \<open>Storage_Access\<close>, \<open>Mock_Env\<close>, \<open>Mock_Refinement\<close>, \<open>Typed_Storage\<close>, \<open>Collections\<close>, \<open>Vector_Props\<close>,
    \<open>Queue_Props\<close>, \<open>Unordered_Map_Props\<close>, \<open>Collections_Theorems\<close>: the test environment, its agreement
    with the invoker, and the collections as refinements of lists and maps.
  \<^item> \<open>Accounts\<close>, \<open>Token_Props\<close>, \<open>Account_Theorems\<close>: token, scheduler, nonceless account,
    authentication; the token refines a ledger whose balances add up to the supply.
  \<^item> \<open>Mempool\<close>, \<open>Mempool_Props\<close>, \<open>Mempool_Clean\<close>, \<open>Mempool_Theorems\<close>: the pool, its indexes, and that
    proposing and finalizing neither lose nor duplicate a transaction.
  \<^item> \<open>Storage_Types\<close>, \<open>Storage_Cache\<close>, \<open>Qmdb_Storage\<close>, \<open>Qmdb_Props\<close>, \<open>Qmdb_Races\<close>, \<open>Block_Store\<close>,
    \<open>Storage_Theorems\<close>: key envelopes, caches (locale \<open>read_cache\<close>), the database storage sequentially
    and under interleavings of threads, the block archive.
  \<^item> \<open>Server_Block\<close>, \<open>Dev_Consensus\<close>, \<open>Storage_Backend\<close>, \<open>Dev_Props\<close>, \<open>Server_Theorems\<close>: blocks, block
    production and persistence, over any storage that meets the locale \<open>storage_backend\<close>.
  \<^item> \<open>Genesis\<close>, \<open>Genesis_Props\<close>, \<open>Genesis_Theorems\<close>: genesis files, references, execution.
  \<^item> \<open>Eth_Tx\<close>, \<open>Eth_Context\<close>, \<open>Eth_Account\<close>, \<open>Eth_Props\<close>, \<open>Eth_Registry\<close>, \<open>Eth_Theorems\<close>: envelopes and
    their decoding, sender recovery, the verifier registry and the gateway, transaction contexts and
    their wire format, the registry of addresses as a refinement of a one-to-one relation, and the
    account of a key (locale \<open>eth_eoa_storage\<close>) as a refinement of an address with a nonce. The theorems
    show that an accepted sender is the signer, that no transaction is authenticated twice, and two
    weaknesses: a wire context does not bind its request to the signature, and a mapping registered
    outside the runtime account is lost.

  \<^bold>\<open>Fuel and bounds.\<close> The fuel of \<open>do_exec\<close> and \<open>do_query\<close> counts nested calls into account code. The
  call-depth limit of 64 bounds executions: \<open>do_exec_terminates\<close> shows that \<open>q + 1 + (64 - d)\<close> is enough at
  depth \<open>d\<close> when queries end within \<open>q\<close>; queries are not bounded by the limit (\<open>do_query_unbounded\<close>).
  More fuel never changes a result (\<open>do_exec_fuel_independent\<close>). Everything else is total.

  \<^bold>\<open>Not modelled\<close>, with reasons per component in the manifest: generated protocol code and the network
  servers (\<open>rpc/grpc\<close>, \<open>rpc/eth-jsonrpc\<close>, \<open>rpc/evnode\<close>), which only translate between wire formats and
  the parts above; the assembly of a node and its command line (\<open>app/node\<close>, binaries); token-stream
  manipulation of the macros; metrics and logging; locks, which serialise the operations modelled here;
  the testing and debugging tools.
\<close>

end
